(* ===== verification/Go_Prelude.thy ===== *)
theory Go_Prelude
  imports Main "HOL-Library.Word" "HOL-Library.State_Monad" "HOL-Library.Multiset"
begin

text \<open>
  The part of the Go language and of its standard library that the sources under src/ use,
  and the lemmas the component theories share: decimal conversion (\<open>strconv.Atoi\<close>,
  \<open>strconv.Itoa\<close>, the verb \<^verbatim>\<open>%d\<close> of \<open>fmt.Sprintf\<close>), \<open>strings.Index\<close>, slices of strings,
  maps that may be nil, \<open>time.Time.Sub\<close> with its saturation, and \<open>hash/fnv\<close>.

  A Go function that talks to the cluster is a state transformer of the library theory
  \<open>State_Monad\<close>; the sequencing of a Go body is that monad's \<open>do\<close> notation.
\<close>

unbundle bit_operations_syntax

section \<open>Collections of facts\<close>

named_theorems go_defs \<open>definitions of operations, unfolded when a handler is evaluated\<close>
named_theorems emit_rules \<open>how the calls of a compound body follow from its parts\<close>
named_theorems return_rules \<open>how the value of a compound body follows from its parts\<close>

section \<open>Bodies as state transformers\<close>

abbreviation ret :: "'a \<Rightarrow> ('s, 'a) state" where
  "ret \<equiv> State_Monad.return"

section \<open>Integers and time\<close>

text \<open>Instants and durations are nanoseconds; a duration is an \<open>int64\<close>.\<close>

type_synonym Time = int
type_synonym Duration = int

definition minDuration :: Duration where
  "minDuration = - (2 ^ 63)"

definition maxDuration :: Duration where
  "maxDuration = 2 ^ 63 - 1"

text \<open>\<open>time.Time.Sub\<close> saturates at the ends of the \<open>int64\<close> range.\<close>

definition timeSub :: "Time \<Rightarrow> Time \<Rightarrow> Duration" where
  "timeSub t u = max minDuration (min maxDuration (t - u))"

definition Second :: Duration where
  "Second = 1000000000"

definition Minute :: Duration where
  "Minute = 60 * Second"

lemma timeSub_bounds: "minDuration \<le> timeSub t u \<and> timeSub t u \<le> maxDuration"
  by (simp add: timeSub_def minDuration_def maxDuration_def)

lemma timeSub_pos_iff: "0 < timeSub t u \<longleftrightarrow> u < t"
  by (auto simp: timeSub_def minDuration_def maxDuration_def)

lemma timeSub_less_iff:
  assumes "minDuration < d" and "d \<le> 0"
  shows "timeSub t u < d \<longleftrightarrow> t - u < d"
  using assms by (auto simp: timeSub_def minDuration_def maxDuration_def)

section \<open>Strings\<close>

definition digitChar :: "nat \<Rightarrow> char" where
  "digitChar d = char_of (48 + d)"

definition digitVal :: "char \<Rightarrow> nat option" where
  "digitVal c = (let k = of_char c :: nat in if 48 \<le> k \<and> k \<le> 57 then Some (k - 48) else None)"

fun Utoa :: "nat \<Rightarrow> string" where
  "Utoa n = (if n < 10 then [digitChar n] else Utoa (n div 10) @ [digitChar (n mod 10)])"

declare Utoa.simps [simp del]

text \<open>\<open>strconv.Itoa\<close>, and the verb \<^verbatim>\<open>%d\<close> on an \<open>int\<close>.\<close>

definition Itoa :: "int \<Rightarrow> string" where
  "Itoa i = (if i < 0 then ''-'' @ Utoa (nat (- i)) else Utoa (nat i))"

fun parseDigits :: "nat \<Rightarrow> string \<Rightarrow> nat option" where
  "parseDigits acc [] = Some acc"
| "parseDigits acc (c # cs) =
     (case digitVal c of None \<Rightarrow> None | Some d \<Rightarrow> parseDigits (10 * acc + d) cs)"

text \<open>
  \<open>strconv.Atoi\<close> on a 64-bit platform: an optional sign, at least one decimal digit, nothing
  else, and a value in the range of \<open>int\<close>. \<open>None\<close> is a non-nil error.
\<close>

definition Atoi :: "string \<Rightarrow> int option" where
  "Atoi s =
     (let neg = (s \<noteq> [] \<and> hd s = CHR ''-'');
          signed = (s \<noteq> [] \<and> (hd s = CHR ''-'' \<or> hd s = CHR ''+''));
          ds = (if signed then tl s else s)
      in if ds = [] then None
         else case parseDigits 0 ds of
             None \<Rightarrow> None
           | Some n \<Rightarrow>
               (let v = (if neg then - int n else int n)
                in if - (2 ^ 63) \<le> v \<and> v < 2 ^ 63 then Some v else None))"

text \<open>\<open>strings.Index(s, sep)\<close> for a separator of one byte; \<open>None\<close> is -1.\<close>

fun indexByte :: "string \<Rightarrow> char \<Rightarrow> nat option" where
  "indexByte [] c = None"
| "indexByte (x # xs) c = (if x = c then Some 0 else map_option Suc (indexByte xs c))"

text \<open>The slice expression \<open>s[a:b]\<close> for \<open>a \<le> b \<le> len(s)\<close>.\<close>

definition slice :: "nat \<Rightarrow> nat \<Rightarrow> 'a list \<Rightarrow> 'a list" where
  "slice a b s = take (b - a) (drop a s)"

lemma digitVal_digitChar [simp]: "d < 10 \<Longrightarrow> digitVal (digitChar d) = Some d"
  by (simp add: digitVal_def digitChar_def Let_def of_char_of)

lemma digitChar_not_sign:
  "d < 10 \<Longrightarrow> digitChar d \<noteq> CHR ''-'' \<and> digitChar d \<noteq> CHR ''+''"
proof -
  assume "d < 10"
  then have "digitVal (digitChar d) = Some d" by simp
  moreover have "digitVal (CHR ''-'') = None" "digitVal (CHR ''+'') = None"
    by (simp_all add: digitVal_def)
  ultimately show ?thesis by force
qed

lemma parseDigits_append:
  "parseDigits acc (xs @ ys) =
     (case parseDigits acc xs of None \<Rightarrow> None | Some a \<Rightarrow> parseDigits a ys)"
  by (induction xs arbitrary: acc) (auto split: option.splits)

lemma parseDigits_Utoa: "parseDigits 0 (Utoa n) = Some n"
proof (induction n rule: Utoa.induct)
  case (1 n)
  show ?case
  proof (cases "n < 10")
    case True
    then show ?thesis by (simp add: Utoa.simps [of n])
  next
    case False
    with "1.IH" show ?thesis by (simp add: Utoa.simps [of n] parseDigits_append)
  qed
qed

lemma Utoa_inject: "Utoa m = Utoa n \<longleftrightarrow> m = n"
  by (metis option.inject parseDigits_Utoa)

lemma Itoa_inject: "0 \<le> a \<Longrightarrow> 0 \<le> b \<Longrightarrow> Itoa a = Itoa b \<longleftrightarrow> a = b"
  by (simp add: Itoa_def Utoa_inject eq_nat_nat_iff)

lemma Utoa_nonempty [simp]: "Utoa n \<noteq> []"
  by (subst Utoa.simps) simp

lemma last_Utoa: "last (Utoa n) = digitChar (n mod 10)"
  by (subst Utoa.simps) simp

lemma Utoa_digits: "\<forall>c \<in> set (Utoa n). \<exists>d < 10. c = digitChar d"
proof (induction n rule: Utoa.induct)
  case (1 n)
  have "n mod 10 < 10" by simp
  with "1" show ?case
    by (cases "n < 10") (auto simp: Utoa.simps [of n] intro: exI [of _ "n mod 10"])
qed

lemma hd_Utoa_not_sign: "hd (Utoa n) \<noteq> CHR ''-'' \<and> hd (Utoa n) \<noteq> CHR ''+''"
  using Utoa_digits [of n] digitChar_not_sign by (metis Utoa_nonempty hd_in_set)

lemma indexByte_None_iff: "indexByte s c = None \<longleftrightarrow> c \<notin> set s"
  by (induction s) auto

lemma indexByte_Some:
  "indexByte s c = Some p \<Longrightarrow> p < length s \<and> s ! p = c \<and> c \<notin> set (take p s)"
  by (induction s arbitrary: p) (auto split: if_splits)

lemma indexByte_append:
  "c \<notin> set xs \<Longrightarrow> indexByte (xs @ c # ys) c = Some (length xs)"
  by (induction xs) auto

section \<open>Maps that may be nil\<close>

text \<open>
  A Go \<open>map[string]string\<close> is nil or a finite map: \<open>None\<close> is nil. Reading a key of a nil map,
  or a missing key, gives the empty string; deleting from a nil map does nothing. The sources
  write to a map only after making one, so \<open>mapPut\<close> of a nil map starts from an empty one.
\<close>

type_synonym gomap = "(string \<rightharpoonup> string) option"

definition mapLookup :: "gomap \<Rightarrow> string \<Rightarrow> string option" where
  "mapLookup m k = (case m of None \<Rightarrow> None | Some f \<Rightarrow> f k)"

definition mapGet :: "gomap \<Rightarrow> string \<Rightarrow> string" where
  "mapGet m k = (case mapLookup m k of None \<Rightarrow> '''' | Some v \<Rightarrow> v)"

definition mapPut :: "gomap \<Rightarrow> string \<Rightarrow> string \<Rightarrow> gomap" where
  "mapPut m k v = Some ((case m of None \<Rightarrow> Map.empty | Some f \<Rightarrow> f)(k \<mapsto> v))"

definition mapDelete :: "gomap \<Rightarrow> string \<Rightarrow> gomap" where
  "mapDelete m k = map_option (\<lambda>f. f(k := None)) m"

lemma mapLookup_Some [simp]: "mapLookup (Some f) k = f k"
  by (simp add: mapLookup_def)

lemma mapLookup_mapPut [simp]:
  "mapLookup (mapPut m k v) k' = (if k' = k then Some v else mapLookup m k')"
  by (simp add: mapLookup_def mapPut_def split: option.split)

lemma mapLookup_mapDelete [simp]:
  "mapLookup (mapDelete m k) k' = (if k' = k then None else mapLookup m k')"
  by (simp add: mapLookup_def mapDelete_def split: option.split)

lemma mapGet_mapPut [simp]: "mapGet (mapPut m k v) k' = (if k' = k then v else mapGet m k')"
  by (simp add: mapGet_def)

section \<open>The hash of the standard library\<close>

text \<open>\<open>hash/fnv.New32a\<close>: each byte is xored into the state, which is then multiplied.\<close>

definition fnv32aStep :: "32 word \<Rightarrow> char \<Rightarrow> 32 word" where
  "fnv32aStep h b = (h XOR of_nat (of_char b)) * 16777619"

definition fnv32a :: "string \<Rightarrow> 32 word" where
  "fnv32a bytes = foldl fnv32aStep 2166136261 bytes"

section \<open>Lists\<close>

lemma list_update_take: "i < n \<Longrightarrow> (take n xs)[i := x] = take n (xs[i := x])"
  by (simp add: take_update_swap)

lemma append_sep_inject:
  "x \<notin> set a \<Longrightarrow> x \<notin> set b \<Longrightarrow> a @ x # c = b @ x # d \<longleftrightarrow> a = b \<and> c = d"
proof (induction a arbitrary: b)
  case Nil
  then show ?case by (cases b) auto
next
  case (Cons y a)
  then show ?case by (cases b) auto
qed

lemma filter_find_first: "find P xs = (case filter P xs of [] \<Rightarrow> None | x # _ \<Rightarrow> Some x)"
  by (induction xs) auto

end
