(* ===== verification/Api_Types.thy ===== *)
theory Api_Types
  imports Go_Prelude
begin

text \<open>
  The data of the program: the custom resources of src/api/v1alpha1 (Test, TestRun, TestSuite,
  HelmPolicy) and the Kubernetes structs they embed or refer to, of which the model keeps the
  fields the sources read or write.

  Every Kubernetes object embeds \<open>metav1.TypeMeta\<close> and \<open>metav1.ObjectMeta\<close>. The record
  \<open>KObject\<close> holds the two, and each kind of object extends it, so a function of the sources
  that takes any \<open>client.Object\<close> is polymorphic in the extension. A Go pointer that may be nil
  is an \<open>option\<close>. A phase is a Go string type with named constants; it stays a string here,
  since the zero value and strings with no constant (the default of a generated manifest, for
  one) are phases the controllers meet.
\<close>

section \<open>Metadata\<close>

record OwnerReference =
  orAPIVersion :: string
  orKind :: string
  orName :: string
  orUID :: string
  orController :: "bool option"
  orBlockOwnerDeletion :: "bool option"

record ObjectMeta =
  Name :: string
  GenerateName :: string
  Namespace :: string
  UID :: string
  Generation :: int
  CreationTimestamp :: Time
  DeletionTimestamp :: "Time option"
  Labels :: gomap
  Annotations :: gomap
  OwnerReferences :: "OwnerReference list"
  Finalizers :: "string list"

record KObject =
  APIVersion :: string
  Kind :: string
  Meta :: ObjectMeta

record NamespacedName =
  nnNamespace :: string
  nnName :: string

record Condition =
  cType :: string
  cStatus :: string
  cObservedGeneration :: int
  cLastTransitionTime :: Time
  cReason :: string
  cMessage :: string

definition emptyMeta :: ObjectMeta where
  "emptyMeta = \<lparr>Name = '''', GenerateName = '''', Namespace = '''', UID = '''', Generation = 0,
     CreationTimestamp = 0, DeletionTimestamp = None, Labels = None, Annotations = None,
     OwnerReferences = [], Finalizers = []\<rparr>"

text \<open>The literals \<open>metav1.Condition{...}\<close> of the sources leave the transition time unset.\<close>

definition newCondition :: "string \<Rightarrow> string \<Rightarrow> int \<Rightarrow> string \<Rightarrow> string \<Rightarrow> Condition" where
  "newCondition t st g re msg = \<lparr>cType = t, cStatus = st, cObservedGeneration = g,
     cLastTransitionTime = 0, cReason = re, cMessage = msg\<rparr>"

definition ConditionTrue :: string where "ConditionTrue = ''True''"
definition ConditionFalse :: string where "ConditionFalse = ''False''"

section \<open>Pods\<close>

text \<open>The phases of a pod and the restart policy are the documented values of the Kubernetes API.\<close>

text \<open>
  The controllers copy a pod's specification and set its restart policy; the containers stand
  for everything they copy without reading.
\<close>

record PodSpec =
  RestartPolicy :: string
  Containers :: "(string \<times> string) list"

record PodTemplateSpec =
  ptMeta :: ObjectMeta
  ptSpec :: PodSpec

record ContainerStatus =
  csName :: string
  csTerminated :: "string option" \<comment> \<open>the message of \<open>State.Terminated\<close>, when that is set\<close>

record PodStatus =
  psPhase :: string
  ContainerStatuses :: "ContainerStatus list"

record Pod = KObject +
  pod_Spec :: PodSpec
  pod_Status :: PodStatus

definition PodPending :: string where "PodPending = ''Pending''"
definition PodRunning :: string where "PodRunning = ''Running''"
definition PodSucceeded :: string where "PodSucceeded = ''Succeeded''"
definition PodFailed :: string where "PodFailed = ''Failed''"
definition RestartPolicyNever :: string where "RestartPolicyNever = ''Never''"

section \<open>Tests\<close>

type_synonym RetainPolicy = string
type_synonym TestPhase = string

definition RetainAlways :: RetainPolicy where "RetainAlways = ''Always''"
definition RetainNever :: RetainPolicy where "RetainNever = ''Never''"
definition RetainOnFailure :: RetainPolicy where "RetainOnFailure = ''OnFailure''"

record TestTemplate =
  ttDescription :: string
  ttRetentionPolicy :: RetainPolicy
  ttTemplate :: PodTemplateSpec

record TestSpec =
  tsRetentionPolicy :: RetainPolicy
  tsTemplate :: PodTemplateSpec

definition TestPending :: TestPhase where "TestPending = ''Pending''"
definition TestStarting :: TestPhase where "TestStarting = ''Starting''"
definition TestRunning :: TestPhase where "TestRunning = ''Running''"
definition TestPassed :: TestPhase where "TestPassed = ''Passed''"
definition TestFailed :: TestPhase where "TestFailed = ''Failed''"
definition TestPhaseUnknown :: TestPhase where "TestPhaseUnknown = ''Unknown''"

definition TestPhase_FromPodPhase :: "string \<Rightarrow> TestPhase" where
  "TestPhase_FromPodPhase phase =
     (if phase = PodPending then TestStarting
      else if phase = PodRunning then TestRunning
      else if phase = PodSucceeded then TestPassed
      else if phase = PodFailed then TestFailed
      else TestPending)"

definition TestPhase_IsFinal :: "TestPhase \<Rightarrow> bool" where
  "TestPhase_IsFinal p \<longleftrightarrow> p = TestPassed \<or> p = TestFailed"

definition TestPhase_IsSuccess :: "TestPhase \<Rightarrow> bool" where
  "TestPhase_IsSuccess p \<longleftrightarrow> p = TestPassed"

record TestStatus =
  tstConditions :: "Condition list"
  tstPhase :: TestPhase
  tstMessages :: gomap

record Test = KObject +
  test_Spec :: TestSpec
  test_Status :: TestStatus

section \<open>Test runs\<close>

type_synonym TestRunPhase = string

definition TestRunStarting :: TestRunPhase where "TestRunStarting = ''Starting''"
definition TestRunRunning :: TestRunPhase where "TestRunRunning = ''Running''"
definition TestRunPassed :: TestRunPhase where "TestRunPassed = ''Passed''"
definition TestRunFailed :: TestRunPhase where "TestRunFailed = ''Failed''"

definition TestRunPhase_IsFinal :: "TestRunPhase \<Rightarrow> bool" where
  "TestRunPhase_IsFinal t \<longleftrightarrow> t = TestRunPassed \<or> t = TestRunFailed"

record TestRunSpec =
  trsRetentionPolicy :: RetainPolicy
  trsTests :: "TestTemplate list"

record TestResult =
  resDescription :: string
  resPassed :: bool
  resTest :: string

record TestRunStatus =
  trstConditions :: "Condition list"
  trstPhase :: TestRunPhase
  trstMessage :: string
  trstResults :: "TestResult list"

record TestRun = KObject +
  run_Spec :: TestRunSpec
  run_Status :: TestRunStatus

section \<open>Test suites\<close>

type_synonym TestSuitePhase = string

definition TestSuitePending :: TestSuitePhase where "TestSuitePending = ''Pending''"
definition TestSuiteReady :: TestSuitePhase where "TestSuiteReady = ''Ready''"
definition TestSuiteRunning :: TestSuitePhase where "TestSuiteRunning = ''Running''"
definition TestSuiteError :: TestSuitePhase where "TestSuiteError = ''Error''"

definition TestSuitePhase_IsPending :: "TestSuitePhase \<Rightarrow> bool" where
  "TestSuitePhase_IsPending p \<longleftrightarrow> p = TestSuitePending"

definition TestSuitePhase_IsReady :: "TestSuitePhase \<Rightarrow> bool" where
  "TestSuitePhase_IsReady p \<longleftrightarrow> p = TestSuiteReady"

definition TestSuitePhase_IsRunning :: "TestSuitePhase \<Rightarrow> bool" where
  "TestSuitePhase_IsRunning p \<longleftrightarrow> p = TestSuiteRunning"

definition TestSuitePhase_IsError :: "TestSuitePhase \<Rightarrow> bool" where
  "TestSuitePhase_IsError p \<longleftrightarrow> p = TestSuitePending"

record TestSuiteHelmTrigger =
  htRelease :: string

record TestSuiteTriggers =
  whenSchedule :: string
  whenHelmRelease :: string

record TestSuiteHelmSetUp =
  suSecretName :: string
  suChartKey :: string
  suValuesKey :: string

record TestSuiteSetUp =
  suHelm :: TestSuiteHelmSetUp

record TestSuiteSpec =
  tssHistoryLimit :: "8 word"
  tssSetUp :: TestSuiteSetUp
  tssTemplate :: TestRunSpec
  tssWhen :: TestSuiteTriggers

record TestSuiteTrigger =
  NeedsRun :: bool

record TestSuiteStatus =
  tsstConditions :: "Condition list"
  tsstPhase :: TestSuitePhase
  CurrentTestRun :: string
  NextRun :: "Time option"

record TestSuite = KObject +
  suite_Spec :: TestSuiteSpec
  suite_Trigger :: TestSuiteTrigger
  suite_Status :: TestSuiteStatus

section \<open>Helm policies and release secrets\<close>

record HelmPolicySpec =
  ExportTo :: "string list"

record HelmPolicy = KObject +
  policy_Spec :: HelmPolicySpec

record Secret = KObject +
  secret_Type :: string

section \<open>Any object\<close>

text \<open>A value of the interface type \<open>client.Object\<close>: a pointer to one of the kinds.\<close>

datatype Object =
    PodObj Pod
  | TestObj Test
  | TestRunObj TestRun
  | TestSuiteObj TestSuite
  | HelmPolicyObj HelmPolicy
  | SecretObj Secret

fun objMeta :: "Object \<Rightarrow> ObjectMeta" where
  "objMeta (PodObj o') = Meta o'"
| "objMeta (TestObj o') = Meta o'"
| "objMeta (TestRunObj o') = Meta o'"
| "objMeta (TestSuiteObj o') = Meta o'"
| "objMeta (HelmPolicyObj o') = Meta o'"
| "objMeta (SecretObj o') = Meta o'"

fun withMeta :: "ObjectMeta \<Rightarrow> Object \<Rightarrow> Object" where
  "withMeta m (PodObj o') = PodObj (o'\<lparr>Meta := m\<rparr>)"
| "withMeta m (TestObj o') = TestObj (o'\<lparr>Meta := m\<rparr>)"
| "withMeta m (TestRunObj o') = TestRunObj (o'\<lparr>Meta := m\<rparr>)"
| "withMeta m (TestSuiteObj o') = TestSuiteObj (o'\<lparr>Meta := m\<rparr>)"
| "withMeta m (HelmPolicyObj o') = HelmPolicyObj (o'\<lparr>Meta := m\<rparr>)"
| "withMeta m (SecretObj o') = SecretObj (o'\<lparr>Meta := m\<rparr>)"

lemma objMeta_withMeta [simp]: "objMeta (withMeta m obj) = m"
  by (cases obj) simp_all

section \<open>Lists of objects\<close>

record TestList =
  testItems :: "Test list"

record TestRunList =
  runItems :: "TestRun list"

record TestSuiteList =
  suiteItems :: "TestSuite list"

record HelmPolicyList =
  policyItems :: "HelmPolicy list"

text \<open>The loop that fills a slice with pointers to the elements of another, by position.\<close>

definition pointers :: "('o \<Rightarrow> Object) \<Rightarrow> 'o list \<Rightarrow> Object list" where
  "pointers toObj items = map (\<lambda>i. toObj (items ! i)) [0..<length items]"

definition TestList_GetObjects :: "TestList \<Rightarrow> Object list" where
  "TestList_GetObjects l = pointers TestObj (testItems l)"

definition TestRunList_GetObjects :: "TestRunList \<Rightarrow> Object list" where
  "TestRunList_GetObjects l = pointers TestRunObj (runItems l)"

definition TestSuiteList_GetObjects :: "TestSuiteList \<Rightarrow> Object list" where
  "TestSuiteList_GetObjects l = pointers TestSuiteObj (suiteItems l)"

lemma pointers_map [simp]: "pointers toObj items = map toObj items"
  unfolding pointers_def by (rule nth_equalityI) simp_all

section \<open>Accessors\<close>

text \<open>The accessors of \<open>client.Object\<close> that the helpers call.\<close>

definition GetFinalizers :: "'a KObject_scheme \<Rightarrow> string list" where
  "GetFinalizers obj = Finalizers (Meta obj)"

definition SetFinalizers :: "string list \<Rightarrow> 'a KObject_scheme \<Rightarrow> 'a KObject_scheme" where
  "SetFinalizers fs obj = obj\<lparr>Meta := (Meta obj)\<lparr>Finalizers := fs\<rparr>\<rparr>"

definition GetDeletionTimestamp :: "'a KObject_scheme \<Rightarrow> Time option" where
  "GetDeletionTimestamp obj = DeletionTimestamp (Meta obj)"

section \<open>Constants of the API group\<close>

definition GroupName :: string where
  "GroupName = ''konfirm.goraft.tech''"

definition GroupVersion :: string where
  "GroupVersion = GroupName @ ''/v1alpha1''"

section \<open>Lemmas\<close>

lemmas pod_phase_defs = PodPending_def PodRunning_def PodSucceeded_def PodFailed_def

lemmas test_phase_defs =
  TestPending_def TestStarting_def TestRunning_def TestPassed_def TestFailed_def
  TestPhaseUnknown_def

lemmas run_phase_defs =
  TestRunStarting_def TestRunRunning_def TestRunPassed_def TestRunFailed_def

lemmas suite_phase_defs =
  TestSuitePending_def TestSuiteReady_def TestSuiteRunning_def TestSuiteError_def

lemma pod_phases_distinct [simp]:
  "PodPending \<noteq> PodRunning" "PodPending \<noteq> PodSucceeded" "PodPending \<noteq> PodFailed"
  "PodRunning \<noteq> PodPending" "PodRunning \<noteq> PodSucceeded" "PodRunning \<noteq> PodFailed"
  "PodSucceeded \<noteq> PodPending" "PodSucceeded \<noteq> PodRunning" "PodSucceeded \<noteq> PodFailed"
  "PodFailed \<noteq> PodPending" "PodFailed \<noteq> PodRunning" "PodFailed \<noteq> PodSucceeded"
  by (simp_all add: pod_phase_defs)

lemma test_phases_nonempty [simp]:
  "TestPending \<noteq> ''''" "TestStarting \<noteq> ''''" "TestRunning \<noteq> ''''" "TestPassed \<noteq> ''''"
  "TestFailed \<noteq> ''''"
  by (simp_all add: test_phase_defs)

lemma test_phases_distinct [simp]:
  "TestPassed \<noteq> TestFailed" "TestFailed \<noteq> TestPassed"
  "TestPending \<noteq> TestPassed" "TestPending \<noteq> TestFailed"
  "TestStarting \<noteq> TestPassed" "TestStarting \<noteq> TestFailed"
  "TestRunning \<noteq> TestPassed" "TestRunning \<noteq> TestFailed"
  "TestStarting \<noteq> TestRunning" "TestRunning \<noteq> TestStarting"
  by (simp_all add: test_phase_defs)

lemma test_IsFinal_simps [simp]:
  "TestPhase_IsFinal TestPassed" "TestPhase_IsFinal TestFailed"
  "\<not> TestPhase_IsFinal TestPending" "\<not> TestPhase_IsFinal TestStarting"
  "\<not> TestPhase_IsFinal TestRunning" "\<not> TestPhase_IsFinal ''''"
  by (simp_all add: TestPhase_IsFinal_def test_phase_defs)

lemma run_phases_distinct [simp]:
  "TestRunPassed \<noteq> TestRunFailed" "TestRunFailed \<noteq> TestRunPassed"
  "TestRunStarting \<noteq> ''''" "TestRunRunning \<noteq> ''''"
  "TestRunPassed \<noteq> ''''" "TestRunFailed \<noteq> ''''"
  "TestRunStarting \<noteq> TestRunPassed" "TestRunStarting \<noteq> TestRunFailed"
  "TestRunRunning \<noteq> TestRunPassed" "TestRunRunning \<noteq> TestRunFailed"
  "TestRunPassed \<noteq> TestRunRunning" "TestRunFailed \<noteq> TestRunRunning"
  by (simp_all add: run_phase_defs)

lemma run_IsFinal_simps [simp]:
  "TestRunPhase_IsFinal TestRunPassed" "TestRunPhase_IsFinal TestRunFailed"
  "\<not> TestRunPhase_IsFinal TestRunStarting" "\<not> TestRunPhase_IsFinal TestRunRunning"
  "\<not> TestRunPhase_IsFinal ''''"
  by (simp_all add: TestRunPhase_IsFinal_def run_phase_defs)

lemma suite_phases_distinct [simp]:
  "TestSuiteRunning \<noteq> TestSuiteReady" "TestSuiteReady \<noteq> TestSuiteRunning"
  "TestSuitePending \<noteq> TestSuiteRunning" "TestSuiteRunning \<noteq> TestSuitePending"
  "TestSuitePending \<noteq> TestSuiteReady" "TestSuiteReady \<noteq> TestSuitePending"
  "TestSuiteRunning \<noteq> ''''" "TestSuiteReady \<noteq> ''''" "TestSuitePending \<noteq> ''''"
  by (simp_all add: suite_phase_defs)

lemma suite_IsRunning_simps [simp]:
  "TestSuitePhase_IsRunning TestSuiteRunning"
  "\<not> TestSuitePhase_IsRunning TestSuiteReady" "\<not> TestSuitePhase_IsRunning TestSuitePending"
  "\<not> TestSuitePhase_IsRunning ''''"
  by (simp_all add: TestSuitePhase_IsRunning_def suite_phase_defs)

lemma accessor_simps [simp]:
  "GetFinalizers (SetFinalizers fs obj) = fs"
  "GetDeletionTimestamp (SetFinalizers fs obj) = GetDeletionTimestamp obj"
  "SetFinalizers fs (SetFinalizers gs obj) = SetFinalizers fs obj"
  "SetFinalizers (GetFinalizers obj) obj = obj"
  by (simp_all add: GetFinalizers_def SetFinalizers_def GetDeletionTimestamp_def)

end
