(* ===== verification/Cluster_Client.thy ===== *)
theory Cluster_Client
  imports Api_Types
begin

text \<open>
  The interface between the controllers and the world: the Kubernetes client of
  controller-runtime, the event recorder and the metrics registry. None of them is under src/,
  so none is defined here. The client is a parameter, a record of functions on an arbitrary
  type \<open>'w\<close> of cluster states: what a call answers, and what the cluster (other controllers
  and users included) is afterwards, is any function of the state it is made in.

  What the model does define is the order in which a handler makes its calls. A handler runs in
  an environment that holds the cluster state and the calls made so far, each with its
  arguments and, for a write, the error it returned. The events and the metrics are calls whose
  answer no handler reads. The program logic at the end of the theory lifts a property of call
  sequences from the single calls to a whole handler.
\<close>

section \<open>Errors and results\<close>

text \<open>
  A Go \<open>error\<close>: \<open>errors.New\<close>, or an error of another package, given by its reason and by what
  its \<open>Error\<close> method returns.
\<close>

datatype error = ErrorString string | StatusError string string

fun errorText :: "error \<Rightarrow> string" where
  "errorText (ErrorString m) = m"
| "errorText (StatusError r m) = m"

record Result =
  Requeue :: bool
  RequeueAfter :: Duration

definition emptyResult :: Result where
  "emptyResult = \<lparr>Requeue = False, RequeueAfter = 0\<rparr>"

text \<open>
  How a handler ends: it returns a result and an error (nil is \<open>None\<close>), or it panics. A stage of
  a handler either goes on with a value or has already ended the handler.
\<close>

datatype Outcome = Return Result "error option" | Panic

datatype 'a Step = Next 'a | Exit Outcome

section \<open>Calls\<close>

datatype ListOption =
    InNamespace string
  | MatchingFields string string
  | MatchingLabels "(string \<times> string) list"
  | MatchingFieldsSelector string

datatype Metric =
    PassedWithLabelValues string
  | PassedInc string
  | FailedInc string
  | SuiteRunsWithLabelValues string string
  | SuitePassingWithLabelValues string string
  | SuiteFailingWithLabelValues string string
  | SuiteRunsInc string string
  | SuitePassingSet string string int
  | SuiteFailingSet string string int

datatype Call =
    GetCall string NamespacedName
  | ListCall string "ListOption list"
  | CreateCall Object "error option"
  | DeleteCall Object "error option"
  | PatchCall Object Object "error option" \<comment> \<open>the object as sent, the original it is diffed with\<close>
  | StatusPatchCall Object Object "error option"
  | EventCall Object string string string
  | MetricCall Metric
  | EnqueueCall NamespacedName

record 'w Env =
  cluster :: 'w
  trace :: "Call list"

section \<open>The client\<close>

text \<open>
  The methods of \<open>client.Client\<close> at one kind of object. \<open>Inl\<close> is an error, and the object passed
  to the method is then unchanged. \<open>Inr\<close> of a create or a patch is the object as the server
  answered it, which the client writes over the argument. A delete does not touch its argument.
\<close>

record ('o, 'w) ResourceClient =
  rcKind :: string
  doGet :: "NamespacedName \<Rightarrow> 'w \<Rightarrow> (error + 'o) \<times> 'w"
  doList :: "ListOption list \<Rightarrow> 'w \<Rightarrow> (error + 'o list) \<times> 'w"
  doCreate :: "'o \<Rightarrow> 'w \<Rightarrow> (error + 'o) \<times> 'w"
  doDelete :: "'o \<Rightarrow> 'w \<Rightarrow> error option \<times> 'w"
  doPatch :: "'o \<Rightarrow> 'o \<Rightarrow> 'w \<Rightarrow> (error + 'o) \<times> 'w"
  doStatusPatch :: "'o \<Rightarrow> 'o \<Rightarrow> 'w \<Rightarrow> (error + 'o) \<times> 'w"

text \<open>
  The client at every kind, \<open>client.IgnoreNotFound\<close>, and \<open>meta.SetStatusCondition\<close>.
\<close>

record 'w Client =
  Pods :: "(Pod, 'w) ResourceClient"
  Tests :: "(Test, 'w) ResourceClient"
  TestRuns :: "(TestRun, 'w) ResourceClient"
  TestSuites :: "(TestSuite, 'w) ResourceClient"
  HelmPolicies :: "(HelmPolicy, 'w) ResourceClient"
  Secrets :: "(Secret, 'w) ResourceClient"
  IgnoreNotFound :: "error option \<Rightarrow> error option"
  SetStatusCondition :: "Condition list \<Rightarrow> Condition \<Rightarrow> Condition list"

section \<open>Making a call\<close>

definition errOf :: "error + 'a \<Rightarrow> error option" where
  "errOf r = (case r of Inl e \<Rightarrow> Some e | Inr _ \<Rightarrow> None)"

definition logCall :: "Call \<Rightarrow> ('w Env, unit) state" where
  "logCall c = State (\<lambda>s. ((), s\<lparr>trace := trace s @ [c]\<rparr>))"

definition perform :: "('w \<Rightarrow> 'r \<times> 'w) \<Rightarrow> ('r \<Rightarrow> Call) \<Rightarrow> ('w Env, 'r) state" where
  "perform f c = State (\<lambda>s. case f (cluster s) of
     (r, w) \<Rightarrow> (r, s\<lparr>cluster := w, trace := trace s @ [c r]\<rparr>))"

definition Get :: "('o, 'w) ResourceClient \<Rightarrow> NamespacedName \<Rightarrow> ('w Env, error + 'o) state" where
  "Get rc key = perform (doGet rc key) (\<lambda>_. GetCall (rcKind rc) key)"

definition ListObjs ::
  "('o, 'w) ResourceClient \<Rightarrow> ListOption list \<Rightarrow> ('w Env, error + 'o list) state" where
  "ListObjs rc opts = perform (doList rc opts) (\<lambda>_. ListCall (rcKind rc) opts)"

definition Create ::
  "('o \<Rightarrow> Object) \<Rightarrow> ('o, 'w) ResourceClient \<Rightarrow> 'o \<Rightarrow> ('w Env, error + 'o) state" where
  "Create toObj rc obj = perform (doCreate rc obj) (\<lambda>r. CreateCall (toObj obj) (errOf r))"

definition Delete ::
  "('o \<Rightarrow> Object) \<Rightarrow> ('o, 'w) ResourceClient \<Rightarrow> 'o \<Rightarrow> ('w Env, error option) state" where
  "Delete toObj rc obj = perform (doDelete rc obj) (\<lambda>e. DeleteCall (toObj obj) e)"

text \<open>
  A patch returns the error and the object as it is in memory afterwards: the server's answer,
  or the object as it was sent when the patch failed.
\<close>

definition inMemory :: "error + 'o \<Rightarrow> 'o \<Rightarrow> error option \<times> 'o" where
  "inMemory r obj = (case r of Inl e \<Rightarrow> (Some e, obj) | Inr obj' \<Rightarrow> (None, obj'))"

definition Patch ::
  "('o \<Rightarrow> Object) \<Rightarrow> ('o, 'w) ResourceClient \<Rightarrow> 'o \<Rightarrow> 'o \<Rightarrow> ('w Env, error option \<times> 'o) state"
where
  "Patch toObj rc obj orig = do {
     r \<leftarrow> perform (doPatch rc obj orig) (\<lambda>r. PatchCall (toObj obj) (toObj orig) (errOf r));
     ret (inMemory r obj)
   }"

definition StatusPatch ::
  "('o \<Rightarrow> Object) \<Rightarrow> ('o, 'w) ResourceClient \<Rightarrow> 'o \<Rightarrow> 'o \<Rightarrow> ('w Env, error option \<times> 'o) state"
where
  "StatusPatch toObj rc obj orig = do {
     r \<leftarrow> perform (doStatusPatch rc obj orig)
        (\<lambda>r. StatusPatchCall (toObj obj) (toObj orig) (errOf r));
     ret (inMemory r obj)
   }"

definition metric :: "Metric \<Rightarrow> ('w Env, unit) state" where
  "metric m = logCall (MetricCall m)"

definition Event :: "Object \<Rightarrow> string \<Rightarrow> string \<Rightarrow> string \<Rightarrow> ('w Env, unit) state" where
  "Event obj ty reason msg = logCall (EventCall obj ty reason msg)"

text \<open>The sequencing of stages: a stage that has ended the handler ends the whole body.\<close>

definition andThen ::
  "('s, 'a Step) state \<Rightarrow> ('a \<Rightarrow> ('s, 'b Step) state) \<Rightarrow> ('s, 'b Step) state" where
  "andThen m f = do {
     st \<leftarrow> m;
     (case st of Next a \<Rightarrow> f a | Exit out \<Rightarrow> ret (Exit out))
   }"

text \<open>Running a body in a cluster, with no calls made before: its value, its calls.\<close>

definition resultOf :: "('w Env, 'a) state \<Rightarrow> 'w \<Rightarrow> 'a" where
  "resultOf m w = fst (run_state m \<lparr>cluster = w, trace = []\<rparr>)"

definition callsOf :: "('w Env, 'a) state \<Rightarrow> 'w \<Rightarrow> Call list" where
  "callsOf m w = trace (snd (run_state m \<lparr>cluster = w, trace = []\<rparr>))"

section \<open>Evaluating bodies\<close>

lemma run_logCall [simp]: "run_state (logCall c) s = ((), s\<lparr>trace := trace s @ [c]\<rparr>)"
  by (simp add: logCall_def)

lemma run_perform [simp]:
  "run_state (perform f c) s =
     (case f (cluster s) of (r, w) \<Rightarrow> (r, s\<lparr>cluster := w, trace := trace s @ [c r]\<rparr>))"
  by (simp add: perform_def)

lemma errOf_simps [simp]: "errOf (Inl e) = Some e" "errOf (Inr x) = None"
  by (simp_all add: errOf_def)

lemma inMemory_simps [simp]:
  "inMemory (Inl e) obj = (Some e, obj)" "inMemory (Inr obj') obj = (None, obj')"
  by (simp_all add: inMemory_def)

lemmas call_defs [go_defs] =
  Get_def ListObjs_def Create_def Delete_def Patch_def StatusPatch_def metric_def Event_def

section \<open>A logic of call sequences\<close>

text \<open>
  \<open>emits Q m R\<close>: from any environment, the calls \<open>m\<close> makes form a sequence in \<open>Q\<close>, and its value
  satisfies \<open>R\<close>.
\<close>

definition emits :: "(Call list \<Rightarrow> bool) \<Rightarrow> ('w Env, 'a) state \<Rightarrow> ('a \<Rightarrow> bool) \<Rightarrow> bool" where
  "emits Q m R \<longleftrightarrow>
     (\<forall>s x s'. run_state m s = (x, s') \<longrightarrow> R x \<and> (\<exists>cs. trace s' = trace s @ cs \<and> Q cs))"

abbreviation emits' :: "(Call list \<Rightarrow> bool) \<Rightarrow> ('w Env, 'a) state \<Rightarrow> bool" where
  "emits' Q m \<equiv> emits Q m (\<lambda>_. True)"

lemma emitsI:
  assumes "\<And>s x s'. run_state m s = (x, s') \<Longrightarrow> R x \<and> (\<exists>cs. trace s' = trace s @ cs \<and> Q cs)"
  shows "emits Q m R"
  using assms by (simp add: emits_def)

lemma emitsD:
  assumes "emits Q m R" and "run_state m s = (x, s')"
  shows "R x" and "\<exists>cs. trace s' = trace s @ cs \<and> Q cs"
  using assms by (auto simp: emits_def)

lemma emits_callsOf: "emits Q m R \<Longrightarrow> Q (callsOf m w)"
proof -
  assume m: "emits Q m R"
  obtain x s' where r: "run_state m \<lparr>cluster = w, trace = []\<rparr> = (x, s')"
    by (cases "run_state m \<lparr>cluster = w, trace = []\<rparr>")
  from emitsD(2) [OF m r] show "Q (callsOf m w)"
    by (auto simp: callsOf_def r)
qed

lemma emits_resultOf: "emits Q m R \<Longrightarrow> R (resultOf m w)"
proof -
  assume m: "emits Q m R"
  obtain x s' where r: "run_state m \<lparr>cluster = w, trace = []\<rparr> = (x, s')"
    by (cases "run_state m \<lparr>cluster = w, trace = []\<rparr>")
  from emitsD(1) [OF m r] show "R (resultOf m w)"
    by (simp add: resultOf_def r)
qed

lemma emits_weaken: "emits Q m R \<Longrightarrow> (\<And>x. R x \<Longrightarrow> R' x) \<Longrightarrow> emits Q m R'"
  by (auto simp: emits_def)

text \<open>The calls of a body are the calls of its first part followed by those of the rest.\<close>

lemma emits_seq:
  assumes m: "emits Q\<^sub>1 m S" and f: "\<And>x. S x \<Longrightarrow> emits Q\<^sub>2 (f x) R"
    and Q: "\<And>xs ys. Q\<^sub>1 xs \<Longrightarrow> Q\<^sub>2 ys \<Longrightarrow> Q (xs @ ys)"
  shows "emits Q (State_Monad.bind m f) R"
proof (rule emitsI)
  fix s y s''
  assume run: "run_state (State_Monad.bind m f) s = (y, s'')"
  obtain x s' where r: "run_state m s = (x, s')" by fastforce
  with run have r': "run_state (f x) s' = (y, s'')" by simp
  from emitsD [OF m r] obtain cs where S: "S x" and cs: "trace s' = trace s @ cs" "Q\<^sub>1 cs"
    by blast
  from emitsD [OF f [OF S] r'] obtain ds where "R y" and ds: "trace s'' = trace s' @ ds" "Q\<^sub>2 ds"
    by blast
  with cs Q show "R y \<and> (\<exists>cs. trace s'' = trace s @ cs \<and> Q cs)"
    by (intro conjI exI [of _ "cs @ ds"]) simp_all
qed

text \<open>
  The interface: a set of call sequences that holds the empty one and is closed under
  concatenation. The lemmas give the calls of a body from those of its parts.
\<close>

locale call_sequences =
  fixes Q :: "Call list \<Rightarrow> bool"
  assumes Q_Nil: "Q []"
    and Q_append: "Q xs \<Longrightarrow> Q ys \<Longrightarrow> Q (xs @ ys)"
begin

lemma emits_ret: "R x \<Longrightarrow> emits Q (ret x) R"
  by (auto simp: emits_def Q_Nil)

lemma emits_bind:
  assumes "emits Q m S" and "\<And>x. S x \<Longrightarrow> emits Q (f x) R"
  shows "emits Q (State_Monad.bind m f) R"
  by (rule emits_seq [OF assms]) (auto intro: Q_append)

lemma emits_bind': "emits' Q m \<Longrightarrow> (\<And>x. emits Q (f x) R) \<Longrightarrow> emits Q (State_Monad.bind m f) R"
  by (rule emits_bind) auto

lemma emits_logCall: "Q [c] \<Longrightarrow> emits' Q (logCall c)"
  by (rule emitsI) auto

lemma emits_perform: "(\<And>r. Q [c r]) \<Longrightarrow> emits' Q (perform f c)"
  by (rule emitsI) (auto split: prod.splits)

lemma emits_Get: "Q [GetCall (rcKind rc) key] \<Longrightarrow> emits' Q (Get rc key)"
  by (simp add: Get_def emits_perform)

lemma emits_List: "Q [ListCall (rcKind rc) opts] \<Longrightarrow> emits' Q (ListObjs rc opts)"
  by (simp add: ListObjs_def emits_perform)

lemma emits_Create: "(\<And>e. Q [CreateCall (toObj obj) e]) \<Longrightarrow> emits' Q (Create toObj rc obj)"
  by (simp add: Create_def emits_perform)

lemma emits_Delete: "(\<And>e. Q [DeleteCall (toObj obj) e]) \<Longrightarrow> emits' Q (Delete toObj rc obj)"
  by (simp add: Delete_def emits_perform)

lemma emits_Patch:
  "(\<And>e. Q [PatchCall (toObj obj) (toObj orig) e]) \<Longrightarrow> emits' Q (Patch toObj rc obj orig)"
  by (auto simp: Patch_def intro!: emits_bind' emits_perform emits_ret)

lemma emits_StatusPatch:
  "(\<And>e. Q [StatusPatchCall (toObj obj) (toObj orig) e]) \<Longrightarrow> emits' Q (StatusPatch toObj rc obj orig)"
  by (auto simp: StatusPatch_def intro!: emits_bind' emits_perform emits_ret)

lemma emits_metric: "Q [MetricCall m] \<Longrightarrow> emits' Q (metric m)"
  by (simp add: metric_def emits_logCall)

lemma emits_Event: "Q [EventCall obj ty reason msg] \<Longrightarrow> emits' Q (Event obj ty reason msg)"
  by (simp add: Event_def emits_logCall)

lemma Q_each: "list_all (\<lambda>c. Q [c]) cs \<Longrightarrow> Q cs"
proof (induction cs)
  case Nil
  show ?case by (rule Q_Nil)
next
  case (Cons c cs)
  then have "Q ([c] @ cs)" by (intro Q_append) simp_all
  then show ?case by simp
qed

lemma emits_each:
  assumes "emits (list_all (\<lambda>c. Q [c])) m R"
  shows "emits Q m R"
proof (rule emitsI)
  fix s x s'
  assume r: "run_state m s = (x, s')"
  from emitsD [OF assms r] Q_each show "R x \<and> (\<exists>cs. trace s' = trace s @ cs \<and> Q cs)"
    by blast
qed

end

lemma emits_if:
  "(b \<Longrightarrow> emits Q m R) \<Longrightarrow> (\<not> b \<Longrightarrow> emits Q n R) \<Longrightarrow> emits Q (if b then m else n) R"
  by simp

lemma emits_case_option:
  "(x = None \<Longrightarrow> emits Q m R) \<Longrightarrow> (\<And>y. x = Some y \<Longrightarrow> emits Q (f y) R)
    \<Longrightarrow> emits Q (case x of None \<Rightarrow> m | Some y \<Rightarrow> f y) R"
  by (cases x) simp_all

lemma emits_case_sum:
  "(\<And>a. x = Inl a \<Longrightarrow> emits Q (f a) R) \<Longrightarrow> (\<And>b. x = Inr b \<Longrightarrow> emits Q (g b) R)
    \<Longrightarrow> emits Q (case x of Inl a \<Rightarrow> f a | Inr b \<Rightarrow> g b) R"
  by (cases x) simp_all

lemma emits_case_prod:
  "(\<And>a b. x = (a, b) \<Longrightarrow> emits Q (f a b) R) \<Longrightarrow> emits Q (case x of (a, b) \<Rightarrow> f a b) R"
  by (cases x) simp

lemma emits_case_prod_app:
  "(\<And>a b. x = (a, b) \<Longrightarrow> emits Q (f a b y) R) \<Longrightarrow> emits Q ((case x of (a, b) \<Rightarrow> f a b) y) R"
  by (cases x) simp

lemma emits_case_list:
  "(x = [] \<Longrightarrow> emits Q m R) \<Longrightarrow> (\<And>y ys. x = y # ys \<Longrightarrow> emits Q (f y ys) R)
    \<Longrightarrow> emits Q (case x of [] \<Rightarrow> m | y # ys \<Rightarrow> f y ys) R"
  by (cases x) simp_all

lemma emits_case_Step:
  "(\<And>a. x = Next a \<Longrightarrow> emits Q (f a) R) \<Longrightarrow> (\<And>b. x = Exit b \<Longrightarrow> emits Q (g b) R)
    \<Longrightarrow> emits Q (case x of Next a \<Rightarrow> f a | Exit b \<Rightarrow> g b) R"
  by (cases x) simp_all

lemma emits_Let: "(\<And>x. x = t \<Longrightarrow> emits Q (f x) R) \<Longrightarrow> emits Q (Let t f) R"
  by (simp add: Let_def)

lemmas emits_cases [emit_rules] =
  emits_if emits_case_option emits_case_sum emits_case_prod emits_case_prod_app emits_case_list
  emits_case_Step emits_Let

text \<open>The properties of each single call are such a set.\<close>

interpretation each_call: call_sequences "list_all P" for P
  by unfold_locales auto

lemmas each_call_rules =
  each_call.emits_bind' each_call.emits_ret each_call.emits_Get each_call.emits_List
  each_call.emits_Create each_call.emits_Delete each_call.emits_Patch
  each_call.emits_StatusPatch each_call.emits_metric each_call.emits_Event

text \<open>The objects a sequence of calls asks to delete, in order.\<close>

fun deletedObjs :: "Call list \<Rightarrow> Object list" where
  "deletedObjs [] = []"
| "deletedObjs (call # cs) =
     (case call of DeleteCall obj e \<Rightarrow> obj # deletedObjs cs | _ \<Rightarrow> deletedObjs cs)"

lemma deletedObjs_append [simp]: "deletedObjs (cs @ ds) = deletedObjs cs @ deletedObjs ds"
  by (induction cs) (auto split: Call.splits)

interpretation no_delete: call_sequences "\<lambda>cs. deletedObjs cs = []"
  by unfold_locales auto

text \<open>
  So are the sequences in which two kinds of calls occur equally often.
\<close>

definition callCount :: "(Call \<Rightarrow> bool) \<Rightarrow> Call list \<Rightarrow> nat" where
  "callCount P cs = length (filter P cs)"

lemma callCount_simps [simp]:
  "callCount P [] = 0"
  "callCount P (c # cs) = (if P c then Suc (callCount P cs) else callCount P cs)"
  "callCount P (cs @ ds) = callCount P cs + callCount P ds"
  by (simp_all add: callCount_def)

interpretation balanced: call_sequences "\<lambda>cs. callCount P cs = callCount P' cs" for P P'
  by unfold_locales auto

section \<open>A logic of returned values\<close>

text \<open>\<open>returns m R\<close>: from any environment, the value of \<open>m\<close> satisfies \<open>R\<close>.\<close>

definition returns :: "('s, 'a) state \<Rightarrow> ('a \<Rightarrow> bool) \<Rightarrow> bool" where
  "returns m R \<longleftrightarrow> (\<forall>s. R (fst (run_state m s)))"

lemma returns_resultOf: "returns m R \<Longrightarrow> R (resultOf m w)"
  by (simp add: returns_def resultOf_def)

lemma returns_mono: "returns m R \<Longrightarrow> (\<And>x. R x \<Longrightarrow> R' x) \<Longrightarrow> returns m R'"
  by (simp add: returns_def)

lemma returns_ret: "R x \<Longrightarrow> returns (ret x) R"
  by (simp add: returns_def)

lemma returns_bind:
  assumes "returns m S" and "\<And>x. S x \<Longrightarrow> returns (f x) R"
  shows "returns (State_Monad.bind m f) R"
  using assms by (auto simp: returns_def split: prod.splits) (metis fst_conv)

lemma returns_bind': "(\<And>x. returns (f x) R) \<Longrightarrow> returns (State_Monad.bind m f) R"
  by (rule returns_bind [of m "\<lambda>_. True"]) (simp_all add: returns_def)

lemma returns_if:
  "(b \<Longrightarrow> returns m R) \<Longrightarrow> (\<not> b \<Longrightarrow> returns n R) \<Longrightarrow> returns (if b then m else n) R"
  by simp

lemma returns_case_option:
  "(x = None \<Longrightarrow> returns m R) \<Longrightarrow> (\<And>y. x = Some y \<Longrightarrow> returns (f y) R)
    \<Longrightarrow> returns (case x of None \<Rightarrow> m | Some y \<Rightarrow> f y) R"
  by (cases x) simp_all

lemma returns_case_sum:
  "(\<And>a. x = Inl a \<Longrightarrow> returns (f a) R) \<Longrightarrow> (\<And>b. x = Inr b \<Longrightarrow> returns (g b) R)
    \<Longrightarrow> returns (case x of Inl a \<Rightarrow> f a | Inr b \<Rightarrow> g b) R"
  by (cases x) simp_all

lemma returns_case_prod:
  "(\<And>a b. x = (a, b) \<Longrightarrow> returns (f a b) R) \<Longrightarrow> returns (case x of (a, b) \<Rightarrow> f a b) R"
  by (cases x) simp

lemma returns_case_prod_app:
  "(\<And>a b. x = (a, b) \<Longrightarrow> returns (f a b y) R) \<Longrightarrow> returns ((case x of (a, b) \<Rightarrow> f a b) y) R"
  by (cases x) simp

lemma returns_case_list:
  "(x = [] \<Longrightarrow> returns m R) \<Longrightarrow> (\<And>y ys. x = y # ys \<Longrightarrow> returns (f y ys) R)
    \<Longrightarrow> returns (case x of [] \<Rightarrow> m | y # ys \<Rightarrow> f y ys) R"
  by (cases x) simp_all

lemma returns_case_Step:
  "(\<And>a. x = Next a \<Longrightarrow> returns (f a) R) \<Longrightarrow> (\<And>b. x = Exit b \<Longrightarrow> returns (g b) R)
    \<Longrightarrow> returns (case x of Next a \<Rightarrow> f a | Exit b \<Rightarrow> g b) R"
  by (cases x) simp_all

lemma returns_Let: "(\<And>x. x = t \<Longrightarrow> returns (f x) R) \<Longrightarrow> returns (Let t f) R"
  by (simp add: Let_def)

lemmas returns_cases [return_rules] =
  returns_if returns_case_option returns_case_sum returns_case_prod returns_case_prod_app
  returns_case_list returns_case_Step returns_Let

text \<open>What is known of the object that a get or a patch leaves in memory.\<close>

definition answers :: "('o \<Rightarrow> bool) \<Rightarrow> error + 'o \<Rightarrow> bool" where
  "answers I r = (case r of Inl e \<Rightarrow> True | Inr x \<Rightarrow> I x)"

lemma answers_simps [simp]: "answers I (Inl e)" "answers I (Inr x) = I x"
  by (simp_all add: answers_def)

lemma returns_perform: "(\<And>w r w'. f w = (r, w') \<Longrightarrow> R r) \<Longrightarrow> returns (perform f c) R"
  by (auto simp: returns_def split: prod.split)

lemma Get_returns:
  "(\<And>w x w'. doGet rc key w = (Inr x, w') \<Longrightarrow> I x) \<Longrightarrow> returns (Get rc key) (answers I)"
  unfolding Get_def by (rule returns_perform) (auto simp: answers_def split: sum.split)

lemma inMemory_answers: "I obj \<Longrightarrow> answers I r \<Longrightarrow> I (snd (inMemory r obj))"
  by (cases r) simp_all

lemma Patch_returns:
  assumes "I obj" and "\<And>w x w'. doPatch rc obj orig w = (Inr x, w') \<Longrightarrow> I x"
  shows "returns (Patch toObj rc obj orig) (\<lambda>(_, x). I x)"
proof -
  have "returns (perform (doPatch rc obj orig) c) (answers I)" for c
    by (rule returns_perform) (auto simp: answers_def split: sum.split dest: assms(2))
  then show ?thesis
    unfolding Patch_def
    by (rule returns_bind) (simp add: returns_def case_prod_unfold inMemory_answers assms(1))
qed

lemma StatusPatch_returns:
  assumes "I obj" and "\<And>w x w'. doStatusPatch rc obj orig w = (Inr x, w') \<Longrightarrow> I x"
  shows "returns (StatusPatch toObj rc obj orig) (\<lambda>(_, x). I x)"
proof -
  have "returns (perform (doStatusPatch rc obj orig) c) (answers I)" for c
    by (rule returns_perform) (auto simp: answers_def split: sum.split dest: assms(2))
  then show ?thesis
    unfolding StatusPatch_def
    by (rule returns_bind) (simp add: returns_def case_prod_unfold inMemory_answers assms(1))
qed

lemma emits_returns: "emits' Q m \<Longrightarrow> returns m R \<Longrightarrow> emits Q m R"
  by (auto simp: emits_def returns_def) (metis fst_conv)

section \<open>Stages\<close>

text \<open>What is known when a stage goes on, and when it has ended the handler.\<close>

definition stepOk :: "('a \<Rightarrow> bool) \<Rightarrow> (Outcome \<Rightarrow> bool) \<Rightarrow> 'a Step \<Rightarrow> bool" where
  "stepOk S X st = (case st of Next a \<Rightarrow> S a | Exit out \<Rightarrow> X out)"

lemma stepOk_simps [simp]: "stepOk S X (Next a) = S a" "stepOk S X (Exit out) = X out"
  by (simp_all add: stepOk_def)

lemma stepOk_True [simp]: "stepOk (\<lambda>_. True) (\<lambda>_. True) st"
  by (cases st) simp_all

lemma returns_andThen:
  assumes "returns m (stepOk S X)" and "\<And>a. S a \<Longrightarrow> returns (f a) (stepOk S' X)"
  shows "returns (andThen m f) (stepOk S' X)"
  unfolding andThen_def
  by (rule returns_bind [OF assms(1)]) (auto intro!: return_rules returns_ret assms(2))

lemma run_andThen [simp]:
  "run_state (andThen m f) s =
     (case run_state m s of (st, s') \<Rightarrow>
        (case st of Next a \<Rightarrow> run_state (f a) s' | Exit out \<Rightarrow> (Exit out, s')))"
  by (simp add: andThen_def split: prod.split Step.split)

text \<open>The calls of two stages, and of a body whose stages are done.\<close>

context call_sequences begin

lemma emits_andThen:
  assumes "emits Q m (stepOk S (\<lambda>_. True))" and "\<And>a. S a \<Longrightarrow> emits' Q (f a)"
  shows "emits' Q (andThen m f)"
  unfolding andThen_def
  by (rule emits_bind [OF assms(1)]) (auto intro!: emit_rules emits_ret assms(2))

lemma emits_andThen_ok:
  assumes "emits Q m (stepOk S X)" and "\<And>a. S a \<Longrightarrow> emits Q (f a) (stepOk S' X)"
  shows "emits Q (andThen m f) (stepOk S' X)"
  unfolding andThen_def
  by (rule emits_bind [OF assms(1)]) (auto intro!: emit_rules emits_ret assms(2))

lemma emits_andThen': "emits' Q m \<Longrightarrow> (\<And>a. emits' Q (f a)) \<Longrightarrow> emits' Q (andThen m f)"
  by (rule emits_andThen [of m "\<lambda>_. True"]) (auto elim: emits_weaken)

end

section \<open>A concrete client\<close>

text \<open>
  A cluster that never changes and accepts every write, for evaluating handlers: a get returns
  the object of its kind, when there is one, a list returns the objects given for it, a create
  and a patch return the object as it was sent.
\<close>

definition notFound :: error where
  "notFound = StatusError ''NotFound'' ''not found''"

definition staticResource :: "string \<Rightarrow> 'o option \<Rightarrow> 'o list \<Rightarrow> ('o, unit) ResourceClient" where
  "staticResource k obj objs =
     \<lparr>rcKind = k,
      doGet = (\<lambda>_ w. (case obj of None \<Rightarrow> Inl notFound | Some x \<Rightarrow> Inr x, w)),
      doList = (\<lambda>_ w. (Inr objs, w)),
      doCreate = (\<lambda>x w. (Inr x, w)),
      doDelete = (\<lambda>_ w. (None, w)),
      doPatch = (\<lambda>x _ w. (Inr x, w)),
      doStatusPatch = (\<lambda>x _ w. (Inr x, w))\<rparr>"

definition staticIgnoreNotFound :: "error option \<Rightarrow> error option" where
  "staticIgnoreNotFound e = (if e = Some notFound then None else e)"

definition staticSetCondition :: "Condition list \<Rightarrow> Condition \<Rightarrow> Condition list" where
  "staticSetCondition cs c =
     (if list_ex (\<lambda>x. cType x = cType c) cs
      then map (\<lambda>x. if cType x = cType c then c else x) cs else cs @ [c])"

definition staticClient :: "unit Client" where
  "staticClient =
     \<lparr>Pods = staticResource ''Pod'' None [], Tests = staticResource ''Test'' None [],
      TestRuns = staticResource ''TestRun'' None [],
      TestSuites = staticResource ''TestSuite'' None [],
      HelmPolicies = staticResource ''HelmPolicy'' None [],
      Secrets = staticResource ''Secret'' None [],
      IgnoreNotFound = staticIgnoreNotFound, SetStatusCondition = staticSetCondition\<rparr>"

lemma staticResource_simps [simp]:
  "rcKind (staticResource k obj objs) = k"
  "doGet (staticResource k obj objs) key w =
     (case obj of None \<Rightarrow> Inl notFound | Some x \<Rightarrow> Inr x, w)"
  "doList (staticResource k obj objs) opts w = (Inr objs, w)"
  "doCreate (staticResource k obj objs) x w = (Inr x, w)"
  "doDelete (staticResource k obj objs) x w = (None, w)"
  "doPatch (staticResource k obj objs) x orig w = (Inr x, w)"
  "doStatusPatch (staticResource k obj objs) x orig w = (Inr x, w)"
  by (simp_all add: staticResource_def)

lemma staticClient_simps [simp]:
  "Pods staticClient = staticResource ''Pod'' None []"
  "Tests staticClient = staticResource ''Test'' None []"
  "TestRuns staticClient = staticResource ''TestRun'' None []"
  "TestSuites staticClient = staticResource ''TestSuite'' None []"
  "HelmPolicies staticClient = staticResource ''HelmPolicy'' None []"
  "Secrets staticClient = staticResource ''Secret'' None []"
  "IgnoreNotFound staticClient = staticIgnoreNotFound"
  "SetStatusCondition staticClient = staticSetCondition"
  by (simp_all add: staticClient_def)

end
