(* ===== verification/Helpers.thy ===== *)
theory Helpers
  imports Cluster_Client
begin

text \<open>
  src/controllers/errors.go and the object helpers of src/controllers/helpers.go: the list of
  errors a loop collects, the lookup of conditions, finalizers and the cleaning up of objects,
  and the hash of a test run's specification.

  A helper takes any \<open>client.Object\<close>: here, an object whose record extends \<open>KObject\<close>, the
  constructor that makes it an \<open>Object\<close>, and the client at its kind. It returns what the Go
  function returns, and the object as the function leaves it in memory.
\<close>

section \<open>ErrorList\<close>

type_synonym ErrorList = "error list"

definition ErrorList_Append :: "ErrorList \<Rightarrow> error \<Rightarrow> ErrorList" where
  "ErrorList_Append es e = es @ [e]"

definition ErrorList_HasError :: "ErrorList \<Rightarrow> bool" where
  "ErrorList_HasError es \<longleftrightarrow> 0 < length es"

definition newline :: char where
  "newline = CHR 0x0A"

definition ErrorList_Error :: "ErrorList \<Rightarrow> error option" where
  "ErrorList_Error es =
     (case es of
        [] \<Rightarrow> None
      | e # rest \<Rightarrow>
          Some (ErrorString (errorText e @ concat (map (\<lambda>e. errorText e @ [newline]) rest))))"

section \<open>Conditions\<close>

fun getCondition :: "string \<Rightarrow> Condition list \<Rightarrow> Condition option" where
  "getCondition condition [] = None"
| "getCondition condition (c # cs) =
     (if cType c = condition then Some c else getCondition condition cs)"

definition hasCondition :: "string \<Rightarrow> string \<Rightarrow> Condition list \<Rightarrow> bool" where
  "hasCondition condition matching from =
     (case getCondition condition from of None \<Rightarrow> False | Some c \<Rightarrow> cStatus c = matching)"

section \<open>Finalizers\<close>

definition addFinalizer ::
  "('a KObject_scheme \<Rightarrow> Object) \<Rightarrow> ('a KObject_scheme, 'w) ResourceClient \<Rightarrow> string
    \<Rightarrow> 'a KObject_scheme \<Rightarrow> ('w Env, (bool \<times> error option) \<times> 'a KObject_scheme) state" where
  "addFinalizer toObj rc finalizer obj =
     (if list_all (\<lambda>f. f \<noteq> finalizer) (GetFinalizers obj)
      then do {
        (err, obj') \<leftarrow> Patch toObj rc (SetFinalizers (GetFinalizers obj @ [finalizer]) obj) obj;
        ret ((True, err), obj')
      }
      else ret ((False, None), obj))"

definition removeFinalizer ::
  "('a KObject_scheme \<Rightarrow> Object) \<Rightarrow> ('a KObject_scheme, 'w) ResourceClient \<Rightarrow> string
    \<Rightarrow> 'a KObject_scheme \<Rightarrow> ('w Env, (bool \<times> error option) \<times> 'a KObject_scheme) state" where
  "removeFinalizer toObj rc finalizer obj =
     (let newFinalizers = filter (\<lambda>f. f \<noteq> finalizer) (GetFinalizers obj)
      in if list_ex (\<lambda>f. f = finalizer) (GetFinalizers obj)
         then do {
           (err, obj') \<leftarrow> Patch toObj rc (SetFinalizers newFinalizers obj) obj;
           ret ((True, err), obj')
         }
         else ret ((False, None), obj))"

section \<open>Cleaning up\<close>

text \<open>The end of \<open>cleanUp\<close>: what \<open>modified\<close> is when the finalizer's turn comes.\<close>

definition cleanUpFinalizer ::
  "'w Client \<Rightarrow> ('a KObject_scheme \<Rightarrow> Object) \<Rightarrow> ('a KObject_scheme, 'w) ResourceClient \<Rightarrow> string
    \<Rightarrow> bool \<Rightarrow> 'a KObject_scheme
    \<Rightarrow> ('w Env, (bool \<times> error option) \<times> 'a KObject_scheme) state" where
  "cleanUpFinalizer c toObj rc finalizer modified obj = do {
     ((patched, err), obj') \<leftarrow> removeFinalizer toObj rc finalizer obj;
     (case err of
        Some e \<Rightarrow> ret ((modified, Some e), obj')
      | None \<Rightarrow> ret ((modified \<or> patched, IgnoreNotFound c None), obj'))
   }"

definition cleanUp ::
  "'w Client \<Rightarrow> ('a KObject_scheme \<Rightarrow> Object) \<Rightarrow> ('a KObject_scheme, 'w) ResourceClient \<Rightarrow> string
    \<Rightarrow> 'a KObject_scheme \<Rightarrow> ('w Env, (bool \<times> error option) \<times> 'a KObject_scheme) state" where
  "cleanUp c toObj rc finalizer obj =
     (if GetDeletionTimestamp obj = None
      then do {
        err \<leftarrow> Delete toObj rc obj;
        (case err of
           None \<Rightarrow> cleanUpFinalizer c toObj rc finalizer True obj
         | Some e \<Rightarrow> ret ((False, IgnoreNotFound c (Some e)), obj))
      }
      else cleanUpFinalizer c toObj rc finalizer False obj)"

text \<open>
  The loop over objects that collects the errors of \<open>cleanUp\<close>: the loop of \<open>cleanUpAll\<close>, and
  the loops of the test controller over its pods. No caller reads the objects afterwards.
\<close>

fun cleanUpLoop ::
  "'w Client \<Rightarrow> ('a KObject_scheme \<Rightarrow> Object) \<Rightarrow> ('a KObject_scheme, 'w) ResourceClient \<Rightarrow> string
    \<Rightarrow> 'a KObject_scheme list \<Rightarrow> bool \<Rightarrow> ErrorList \<Rightarrow> ('w Env, bool \<times> ErrorList) state" where
  "cleanUpLoop c toObj rc finalizer [] modified errs = ret (modified, errs)"
| "cleanUpLoop c toObj rc finalizer (obj # objs) modified errs = do {
     ((m, err), _) \<leftarrow> cleanUp c toObj rc finalizer obj;
     cleanUpLoop c toObj rc finalizer objs (modified \<or> m)
       (case err of None \<Rightarrow> errs | Some e \<Rightarrow> ErrorList_Append errs e)
   }"

definition cleanUpAll ::
  "'w Client \<Rightarrow> ('a KObject_scheme \<Rightarrow> Object) \<Rightarrow> ('a KObject_scheme, 'w) ResourceClient \<Rightarrow> string
    \<Rightarrow> 'a KObject_scheme list \<Rightarrow> ('w Env, bool \<times> error option) state" where
  "cleanUpAll c toObj rc finalizer objs = do {
     (modified, errs) \<leftarrow> cleanUpLoop c toObj rc finalizer objs False [];
     ret (modified, ErrorList_Error errs)
   }"

section \<open>The hash of a test run's specification\<close>

text \<open>
  The printer of go-spew and \<open>rand.SafeEncodeString\<close> of apimachinery are parameters.
\<close>

definition computeTestRunHash ::
  "(TestRunSpec \<Rightarrow> string) \<Rightarrow> (string \<Rightarrow> string) \<Rightarrow> TestRunSpec \<Rightarrow> string" where
  "computeTestRunHash spewPrint SafeEncodeString testRun =
     (let digest = Itoa (uint (fnv32a (spewPrint testRun))) in SafeEncodeString digest)"

section \<open>Lemmas on errors and conditions\<close>

lemma ErrorList_Error_None_iff: "ErrorList_Error es = None \<longleftrightarrow> \<not> ErrorList_HasError es"
  by (cases es) (simp_all add: ErrorList_Error_def ErrorList_HasError_def)

lemma ErrorList_Append_HasError [simp]: "ErrorList_HasError (ErrorList_Append es e)"
  by (simp add: ErrorList_Append_def ErrorList_HasError_def)

lemma getCondition_find: "getCondition t cs = find (\<lambda>c. cType c = t) cs"
  by (induction cs) auto

lemma getCondition_type: "getCondition t cs = Some c \<Longrightarrow> cType c = t \<and> c \<in> set cs"
  by (auto simp: getCondition_find find_Some_iff)

section \<open>The calls of the helpers\<close>

text \<open>
  The interface \<open>client.Object\<close>: what a kind must give for the helpers to work on it, that the
  metadata of the interface value is the metadata the record holds. The lemmas say which calls
  the helpers make on an object of such a kind.
\<close>

text \<open>A patch that only takes the finalizer away, and that does take it away.\<close>

definition dropsFinalizer :: "string \<Rightarrow> Object \<Rightarrow> Object \<Rightarrow> bool" where
  "dropsFinalizer finalizer new orig \<longleftrightarrow>
     finalizer \<in> set (Finalizers (objMeta orig)) \<and>
     new = withMeta ((objMeta orig)\<lparr>Finalizers := filter (\<lambda>f. f \<noteq> finalizer) (Finalizers (objMeta orig))\<rparr>) orig"

definition addsFinalizer :: "string \<Rightarrow> Object \<Rightarrow> Object \<Rightarrow> bool" where
  "addsFinalizer finalizer new orig \<longleftrightarrow>
     finalizer \<notin> set (Finalizers (objMeta orig)) \<and>
     new = withMeta ((objMeta orig)\<lparr>Finalizers := Finalizers (objMeta orig) @ [finalizer]\<rparr>) orig"

text \<open>
  The calls \<open>cleanUp\<close> may make on an object: its deletion, when it is not being deleted yet,
  and the patch that drops the finalizer.
\<close>

fun cleanUpCall :: "string \<Rightarrow> Object \<Rightarrow> Call \<Rightarrow> bool" where
  "cleanUpCall finalizer obj (DeleteCall o' e) \<longleftrightarrow>
     o' = obj \<and> DeletionTimestamp (objMeta obj) = None"
| "cleanUpCall finalizer obj (PatchCall new orig e) \<longleftrightarrow>
     orig = obj \<and> dropsFinalizer finalizer new orig"
| "cleanUpCall finalizer obj _ \<longleftrightarrow> False"

locale client_object =
  fixes toObj :: "'a KObject_scheme \<Rightarrow> Object"
  assumes objMeta_toObj: "objMeta (toObj o') = Meta o'"
    and withMeta_toObj: "withMeta m (toObj o') = toObj (o'\<lparr>Meta := m\<rparr>)"
begin

lemma toObj_finalizers: "Finalizers (objMeta (toObj o')) = GetFinalizers o'"
  by (simp add: objMeta_toObj GetFinalizers_def)

lemma dropsFinalizer_filter:
  "finalizer \<in> set (GetFinalizers obj) \<Longrightarrow>
   dropsFinalizer finalizer (toObj (SetFinalizers (filter (\<lambda>f. f \<noteq> finalizer) (GetFinalizers obj)) obj))
     (toObj obj)"
  by (simp add: dropsFinalizer_def objMeta_toObj withMeta_toObj GetFinalizers_def SetFinalizers_def)

lemma addsFinalizer_append:
  "finalizer \<notin> set (GetFinalizers obj) \<Longrightarrow>
   addsFinalizer finalizer (toObj (SetFinalizers (GetFinalizers obj @ [finalizer]) obj)) (toObj obj)"
  by (simp add: addsFinalizer_def objMeta_toObj withMeta_toObj GetFinalizers_def SetFinalizers_def)

lemma removeFinalizer_calls:
  assumes "\<And>new e. dropsFinalizer finalizer (toObj new) (toObj obj)
    \<Longrightarrow> P (PatchCall (toObj new) (toObj obj) e)"
  shows "emits' (list_all P) (removeFinalizer toObj rc finalizer obj)"
  unfolding removeFinalizer_def
  by (intro emit_rules each_call_rules)
     (auto simp: list_ex_iff intro: assms dropsFinalizer_filter)

lemma addFinalizer_calls:
  assumes "\<And>new e. addsFinalizer finalizer (toObj new) (toObj obj)
    \<Longrightarrow> P (PatchCall (toObj new) (toObj obj) e)"
  shows "emits' (list_all P) (addFinalizer toObj rc finalizer obj)"
  unfolding addFinalizer_def
  by (intro emit_rules each_call_rules)
     (auto simp: list_all_iff intro!: assms addsFinalizer_append)

lemma cleanUp_calls:
  assumes "\<And>call. cleanUpCall finalizer (toObj obj) call \<Longrightarrow> P call"
  shows "emits' (list_all P) (cleanUp c toObj rc finalizer obj)"
  unfolding cleanUp_def cleanUpFinalizer_def
  by (intro emit_rules each_call_rules removeFinalizer_calls)
     (auto simp: objMeta_toObj GetDeletionTimestamp_def intro: assms)

lemma cleanUpLoop_calls:
  assumes "\<And>obj call. obj \<in> set objs \<Longrightarrow> cleanUpCall finalizer (toObj obj) call \<Longrightarrow> P call"
  shows "emits' (list_all P) (cleanUpLoop c toObj rc finalizer objs modified errs)"
  using assms
proof (induction objs arbitrary: modified errs)
  case Nil
  then show ?case by (simp add: each_call.emits_ret)
next
  case (Cons obj objs)
  then show ?case
    by (auto intro!: each_call.emits_bind' emit_rules cleanUp_calls)
qed

lemma cleanUpAll_calls:
  assumes "\<And>obj call. obj \<in> set objs \<Longrightarrow> cleanUpCall finalizer (toObj obj) call \<Longrightarrow> P call"
  shows "emits' (list_all P) (cleanUpAll c toObj rc finalizer objs)"
  unfolding cleanUpAll_def
  by (intro emit_rules each_call_rules cleanUpLoop_calls) (auto intro: assms)

end

lemma addFinalizer_returns:
  assumes "I obj" and "I (SetFinalizers (GetFinalizers obj @ [finalizer]) obj)"
    and "\<And>new w x w'. I new \<Longrightarrow> doPatch rc new obj w = (Inr x, w') \<Longrightarrow> I x"
  shows "returns (addFinalizer toObj rc finalizer obj) (\<lambda>(_, x). I x)"
  unfolding addFinalizer_def
  by (intro return_rules returns_bind [OF Patch_returns [where I = I]])
     (auto intro!: returns_ret return_rules intro: assms)

text \<open>
  \<open>cleanUp\<close> deletes an object exactly when it is not being deleted already, and \<open>cleanUpAll\<close>
  gets to every object, in order, whatever errors the earlier ones gave.
\<close>

definition deletionsOf ::
  "('a KObject_scheme \<Rightarrow> Object) \<Rightarrow> 'a KObject_scheme list \<Rightarrow> Object list" where
  "deletionsOf toObj objs = map toObj (filter (\<lambda>o'. GetDeletionTimestamp o' = None) objs)"

lemma deletionsOf_simps [simp]:
  "deletionsOf toObj [] = []"
  "deletionsOf toObj (o' # os) =
     (if GetDeletionTimestamp o' = None then toObj o' # deletionsOf toObj os
      else deletionsOf toObj os)"
  by (simp_all add: deletionsOf_def)

lemma removeFinalizer_no_delete:
  "emits' (\<lambda>cs. deletedObjs cs = []) (removeFinalizer toObj rc finalizer obj)"
  unfolding removeFinalizer_def
  by (intro emit_rules no_delete.emits_bind' no_delete.emits_ret no_delete.emits_Patch) simp_all

lemma cleanUpFinalizer_no_delete:
  "emits' (\<lambda>cs. deletedObjs cs = []) (cleanUpFinalizer c toObj rc finalizer modified obj)"
  unfolding cleanUpFinalizer_def
  by (intro emit_rules no_delete.emits_bind' no_delete.emits_ret removeFinalizer_no_delete)
     simp_all

lemma Delete_deletes: "emits' (\<lambda>cs. deletedObjs cs = [toObj obj]) (Delete toObj rc obj)"
  by (rule emitsI) (auto simp: Delete_def split: prod.splits)

lemma cleanUp_deletes:
  "emits' (\<lambda>cs. deletedObjs cs = deletionsOf toObj [obj]) (cleanUp c toObj rc finalizer obj)"
proof (cases "GetDeletionTimestamp obj")
  case None
  then show ?thesis
    by (auto simp: cleanUp_def
        intro!: emits_seq [OF Delete_deletes] emit_rules cleanUpFinalizer_no_delete
          no_delete.emits_ret)
next
  case (Some t)
  then show ?thesis by (simp add: cleanUp_def cleanUpFinalizer_no_delete)
qed

lemma cleanUpLoop_deletes:
  "emits' (\<lambda>cs. deletedObjs cs = deletionsOf toObj objs)
     (cleanUpLoop c toObj rc finalizer objs modified errs)"
proof (induction objs arbitrary: modified errs)
  case Nil
  then show ?case by (simp add: no_delete.emits_ret)
next
  case (Cons obj objs)
  then show ?case
    by (auto intro!: emits_seq [OF cleanUp_deletes] emit_rules)
qed

lemma cleanUpAll_deletes:
  "emits' (\<lambda>cs. deletedObjs cs = deletionsOf toObj objs) (cleanUpAll c toObj rc finalizer objs)"
  unfolding cleanUpAll_def
  by (rule emits_seq [OF cleanUpLoop_deletes]) (auto intro!: emit_rules no_delete.emits_ret)

interpretation pod_object: client_object PodObj
  by unfold_locales simp_all

interpretation test_object: client_object TestObj
  by unfold_locales simp_all

interpretation run_object: client_object TestRunObj
  by unfold_locales simp_all

interpretation suite_object: client_object TestSuiteObj
  by unfold_locales simp_all

end
