(* ===== verification/Test_Controller.thy ===== *)
theory Test_Controller
  imports Helpers
begin

text \<open>
  src/controllers/test_controller.go: the reconciler of Tests. A Test owns at most one useful
  Pod; the reconciler creates it, follows its phase and records the verdict in the status of
  the Test, counts it in the metrics, and applies the retention policy once the Test is final.

  The theory gives the handler with all its branches, the calls it can make (the phases it
  writes, the pods it creates, the objects it deletes), and what it does on the paths that
  matter: the choice of the pod, the verdicts, the retention policy, the deletion of a Test.
\<close>

section \<open>Constants and the reconciler\<close>

definition podIndexKey :: string where "podIndexKey = ''.metadata.controller''"
definition PodCreatedCondition :: string where "PodCreatedCondition = ''PodCreated''"
definition TestCompletedCondition :: string where "TestCompletedCondition = ''TestCompleted''"
definition TestStartingEvent :: string where "TestStartingEvent = ''PodCreated''"
definition TestPassedEvent :: string where "TestPassedEvent = ''TestPassed''"
definition TestFailedEvent :: string where "TestFailedEvent = ''TestFailed''"
definition TestErrorEvent :: string where "TestErrorEvent = ''ErrorCreatingPod''"

definition TestControllerFinalizer :: string where
  "TestControllerFinalizer = GroupName @ ''/test-controller''"

record 'w TestReconciler =
  trClient :: "'w Client"
  trErrRequeueDelay :: Duration

definition errResult :: "'w TestReconciler \<Rightarrow> Result" where
  "errResult r = \<lparr>Requeue = True, RequeueAfter = trErrRequeueDelay r\<rparr>"

text \<open>\<open>client.IgnoreNotFound\<close> on the error of a loop's body, appended when it is left.\<close>

definition appendUnlessNotFound :: "'w Client \<Rightarrow> ErrorList \<Rightarrow> error option \<Rightarrow> ErrorList" where
  "appendUnlessNotFound c errs err =
     (case err of
        None \<Rightarrow> errs
      | Some e \<Rightarrow> (case IgnoreNotFound c (Some e) of
            None \<Rightarrow> errs
          | Some e' \<Rightarrow> ErrorList_Append errs e'))"

section \<open>A Test that is running\<close>

text \<open>
  Remove unfinished, deleted pods from the list. The phase of a deleted pod is read after the
  patch that drops its finalizer.
\<close>

fun dropDeletedPods ::
  "'w Client \<Rightarrow> Pod list \<Rightarrow> Pod list \<Rightarrow> ErrorList \<Rightarrow> ('w Env, Pod list \<times> ErrorList) state" where
  "dropDeletedPods c [] newPods errs = ret (newPods, errs)"
| "dropDeletedPods c (p # pods) newPods errs =
     (if GetDeletionTimestamp p \<noteq> None
      then do {
        ((patched, err), p') \<leftarrow> removeFinalizer PodObj (Pods c) TestControllerFinalizer p;
        (let phase = psPhase (pod_Status p') in
         dropDeletedPods c pods
           (if phase = PodSucceeded \<or> phase = PodFailed then newPods @ [p'] else newPods)
           (appendUnlessNotFound c errs err))
      }
      else dropDeletedPods c pods (newPods @ [p]) errs)"

text \<open>
  Reduce the list of controlled pods to no more than one: \<open>pod\<close> is the pod kept so far.
\<close>

fun selectPod ::
  "'w Client \<Rightarrow> Pod \<Rightarrow> Pod list \<Rightarrow> ErrorList \<Rightarrow> ('w Env, Pod \<times> ErrorList) state" where
  "selectPod c pod [] errs = ret (pod, errs)"
| "selectPod c pod (q # qs) errs =
     (if GetDeletionTimestamp q = None \<and> GetDeletionTimestamp pod \<noteq> None
      then selectPod c q qs errs
      else do {
        ((_, err), _) \<leftarrow> cleanUp c PodObj (Pods c) TestControllerFinalizer q;
        selectPod c pod qs (appendUnlessNotFound c errs err)
      })"

text \<open>The pod a Test is run with.\<close>

definition newPod :: "Test \<Rightarrow> Pod" where
  "newPod test =
     \<lparr>APIVersion = '''', Kind = '''',
      Meta = (ptMeta (tsTemplate (test_Spec test)))
        \<lparr>Name := '''', Namespace := Namespace (Meta test),
         GenerateName := Name (Meta test) @ ''-'',
         OwnerReferences :=
           [\<lparr>orAPIVersion = APIVersion test, orKind = Kind test, orName = Name (Meta test),
             orUID = UID (Meta test), orController = Some True,
             orBlockOwnerDeletion = Some True\<rparr>],
         Finalizers := [TestControllerFinalizer]\<rparr>,
      pod_Spec = (ptSpec (tsTemplate (test_Spec test)))\<lparr>RestartPolicy := RestartPolicyNever\<rparr>,
      pod_Status = \<lparr>psPhase = '''', ContainerStatuses = []\<rparr>\<rparr>"

definition setTestCondition ::
  "'w Client \<Rightarrow> string \<Rightarrow> string \<Rightarrow> string \<Rightarrow> string \<Rightarrow> Test \<Rightarrow> Test" where
  "setTestCondition c ty st reason msg test =
     test\<lparr>test_Status := (test_Status test)\<lparr>tstConditions :=
       SetStatusCondition c (tstConditions (test_Status test))
         (newCondition ty st (Generation (Meta test)) reason msg)\<rparr>\<rparr>"

definition setTestPhase :: "TestPhase \<Rightarrow> Test \<Rightarrow> Test" where
  "setTestPhase p test = test\<lparr>test_Status := (test_Status test)\<lparr>tstPhase := p\<rparr>\<rparr>"

text \<open>The messages of the containers of a pod that have terminated.\<close>

fun terminationMessages :: "ContainerStatus list \<Rightarrow> gomap \<Rightarrow> gomap" where
  "terminationMessages [] msgs = msgs"
| "terminationMessages (cs # css) msgs =
     terminationMessages css
       (case csTerminated cs of None \<Rightarrow> msgs | Some m \<Rightarrow> mapPut msgs (csName cs) m)"

definition setTestMessages :: "Pod \<Rightarrow> Test \<Rightarrow> Test" where
  "setTestMessages pod test = test\<lparr>test_Status := (test_Status test)\<lparr>tstMessages :=
     terminationMessages (ContainerStatuses (pod_Status pod)) (Some Map.empty)\<rparr>\<rparr>"

abbreviation podName :: "Pod \<Rightarrow> string" where
  "podName pod \<equiv> Name (Meta pod)"

definition startingTest :: "'w Client \<Rightarrow> Test \<Rightarrow> Pod \<Rightarrow> Test" where
  "startingTest c test pod =
     setTestCondition c TestCompletedCondition ''False'' ''PodNotCompleted''
       (''Pod '' @ podName pod @ '' is pending'')
     (setTestCondition c PodCreatedCondition ''True'' ''PodCreated'' (''Created pod '' @ podName pod)
       (setTestPhase TestStarting test))"

definition runningTest :: "'w Client \<Rightarrow> Test \<Rightarrow> Pod \<Rightarrow> Test" where
  "runningTest c test pod =
     setTestCondition c TestCompletedCondition ''False'' ''PodNotCompleted''
       (''Pod '' @ podName pod @ '' is running'')
     (setTestCondition c PodCreatedCondition ''True'' ''PodCreated'' (''Created pod '' @ podName pod)
       (setTestPhase TestRunning test))"

definition passedTest :: "'w Client \<Rightarrow> Test \<Rightarrow> Pod \<Rightarrow> Test" where
  "passedTest c test pod =
     setTestCondition c TestCompletedCondition ''True'' ''PodSucceeded''
       (''Pod '' @ podName pod @ '' completed successfully'')
     (setTestMessages pod (setTestPhase TestPassed test))"

definition failedTest :: "'w Client \<Rightarrow> Test \<Rightarrow> Pod \<Rightarrow> Test" where
  "failedTest c test pod =
     setTestCondition c TestCompletedCondition ''True'' ''PodFailed''
       (''Pod '' @ podName pod @ '' failed'')
     (setTestMessages pod (setTestPhase TestFailed test))"

text \<open>The switch on the phase of the pod.\<close>

definition observePod ::
  "'w TestReconciler \<Rightarrow> Test \<Rightarrow> Pod \<Rightarrow> ('w Env, Result \<times> error option) state" where
  "observePod r test pod =
     (let c = trClient r; phase = psPhase (pod_Status pod) in
      if phase = PodPending then
        (if tstPhase (test_Status test) \<noteq> TestStarting
         then do {
           (err, test') \<leftarrow> StatusPatch TestObj (Tests c) (startingTest c test pod) test;
           Event (TestObj test') ''Normal'' TestStartingEvent (''Created pod '' @ podName pod);
           ret (if err \<noteq> None then errResult r else emptyResult, err)
         }
         else ret (emptyResult, None))
      else if phase = PodRunning then
        (if tstPhase (test_Status test) \<noteq> TestRunning
         then do {
           (err, test') \<leftarrow> StatusPatch TestObj (Tests c) (runningTest c test pod) test;
           ret (if err \<noteq> None then errResult r else emptyResult, err)
         }
         else ret (emptyResult, None))
      else if phase = PodSucceeded then do {
        (err, test') \<leftarrow> StatusPatch TestObj (Tests c) (passedTest c test pod) test;
        (if err \<noteq> None then ret (errResult r, err)
         else do {
           metric (PassedInc (Namespace (Meta test')));
           Event (TestObj test') ''Normal'' TestPassedEvent (''Pod '' @ podName pod @ '' succeeded'');
           ret (emptyResult, None)
         })
      }
      else if phase = PodFailed then do {
        (err, test') \<leftarrow> StatusPatch TestObj (Tests c) (failedTest c test pod) test;
        (if err \<noteq> None then ret (errResult r, err)
         else do {
           metric (FailedInc (Namespace (Meta test')));
           Event (TestObj test') ''Normal'' TestFailedEvent (''Pod '' @ podName pod @ '' failed'');
           ret (emptyResult, None)
         })
      }
      else ret (emptyResult, None))"

text \<open>The pods that are left, when there are any, decide; otherwise a pod is created.\<close>

definition choosePod ::
  "'w TestReconciler \<Rightarrow> Pod list \<Rightarrow> ('w Env, (Result \<times> error option) + Pod option) state" where
  "choosePod r pods =
     (let c = trClient r in
      if 0 < length pods then do {
        (newPods, errs) \<leftarrow> dropDeletedPods c pods [] [];
        (if ErrorList_HasError errs then ret (Inl (errResult r, ErrorList_Error errs))
         else case newPods of
             [] \<Rightarrow> ret (Inr None)
           | p # ps \<Rightarrow> do {
               (pod, errs) \<leftarrow> selectPod c p ps [];
               (if ErrorList_HasError errs then ret (Inl (errResult r, ErrorList_Error errs))
                else ret (Inr (Some pod)))
             })
      }
      else ret (Inr None))"

definition TestReconciler_isRunning ::
  "'w TestReconciler \<Rightarrow> Test \<Rightarrow> Pod list \<Rightarrow> ('w Env, Result \<times> error option) state" where
  "TestReconciler_isRunning r test pods = do {
     chosen \<leftarrow> choosePod r pods;
     (case chosen of
        Inl out \<Rightarrow> ret out
      | Inr (Some pod) \<Rightarrow> observePod r test pod
      | Inr None \<Rightarrow> do {
          created \<leftarrow> Create PodObj (Pods (trClient r)) (newPod test);
          (case created of
             Inl err \<Rightarrow> do {
               Event (TestObj test) ''Warning'' TestErrorEvent
                 ''An error occurred while creating a test pod'';
               ret (errResult r, Some err)
             }
           | Inr pod \<Rightarrow> observePod r test pod)
        })
   }"

section \<open>A Test that is final\<close>

text \<open>Remove finalizers from deleted pods; the pods are as the patches leave them.\<close>

fun releaseDeletedPods ::
  "'w Client \<Rightarrow> Pod list \<Rightarrow> ErrorList \<Rightarrow> ('w Env, Pod list \<times> ErrorList) state" where
  "releaseDeletedPods c [] errs = ret ([], errs)"
| "releaseDeletedPods c (p # pods) errs =
     (if GetDeletionTimestamp p \<noteq> None
      then do {
        ((patched, err), p') \<leftarrow> removeFinalizer PodObj (Pods c) TestControllerFinalizer p;
        (pods', errs') \<leftarrow> releaseDeletedPods c pods (appendUnlessNotFound c errs err);
        ret (p' # pods', errs')
      }
      else do {
        (pods', errs') \<leftarrow> releaseDeletedPods c pods errs;
        ret (p # pods', errs')
      })"

text \<open>When the pods of a final Test are not to be kept.\<close>

definition discardsPods :: "Test \<Rightarrow> bool" where
  "discardsPods test \<longleftrightarrow>
     (let policy = tsRetentionPolicy (test_Spec test) in
      policy = RetainNever \<or>
      (policy = RetainOnFailure \<and> tstPhase (test_Status test) = TestPassed))"

definition TestReconciler_isComplete ::
  "'w TestReconciler \<Rightarrow> Test \<Rightarrow> Pod list \<Rightarrow> ('w Env, Result \<times> error option) state" where
  "TestReconciler_isComplete r test pods = do {
     (pods, errs) \<leftarrow> releaseDeletedPods (trClient r) pods [];
     (if ErrorList_HasError errs then ret (errResult r, ErrorList_Error errs)
      else if discardsPods test \<and> 0 < length pods then do {
        (_, errs) \<leftarrow> cleanUpLoop (trClient r) PodObj (Pods (trClient r)) TestControllerFinalizer
                      pods False [];
        (if ErrorList_HasError errs then ret (errResult r, ErrorList_Error errs)
         else ret (emptyResult, None))
      }
      else ret (emptyResult, None))
   }"

section \<open>The handler\<close>

text \<open>
  A Test that is being deleted. The error of the last patch is held by a variable of the
  \<open>if\<close> statement and is not the one the handler returns.
\<close>

definition TestReconciler_release ::
  "'w TestReconciler \<Rightarrow> Test \<Rightarrow> ('w Env, Result \<times> error option) state" where
  "TestReconciler_release r test = do {
     ((patched, err), test') \<leftarrow>
       removeFinalizer TestObj (Tests (trClient r)) TestControllerFinalizer test;
     ret (emptyResult, None)
   }"

definition TestReconciler_deleted ::
  "'w TestReconciler \<Rightarrow> Test \<Rightarrow> Pod list \<Rightarrow> ('w Env, Result \<times> error option) state" where
  "TestReconciler_deleted r test pods =
     (if 0 < length pods then do {
        (_, errs) \<leftarrow> cleanUpLoop (trClient r) PodObj (Pods (trClient r)) TestControllerFinalizer
                      pods False [];
        (if ErrorList_HasError errs then ret (errResult r, ErrorList_Error errs)
         else TestReconciler_release r test)
      }
      else TestReconciler_release r test)"

text \<open>A Test that is not: the finalizer, the first phase, and the phase's own logic.\<close>

definition ensurePending ::
  "'w TestReconciler \<Rightarrow> Test \<Rightarrow> ('w Env, error option \<times> Test) state" where
  "ensurePending r test =
     (if tstPhase (test_Status test) = ''''
      then StatusPatch TestObj (Tests (trClient r)) (setTestPhase TestPending test) test
      else ret (None, test))"

definition TestReconciler_active ::
  "'w TestReconciler \<Rightarrow> Test \<Rightarrow> Pod list \<Rightarrow> ('w Env, Result \<times> error option) state" where
  "TestReconciler_active r test pods = do {
     ((patched, e), test) \<leftarrow>
       addFinalizer TestObj (Tests (trClient r)) TestControllerFinalizer test;
     (case e of
        Some e \<Rightarrow> (case IgnoreNotFound (trClient r) (Some e) of
            Some err \<Rightarrow> ret (errResult r, Some err)
          | None \<Rightarrow> ret (emptyResult, None))
      | None \<Rightarrow> do {
          (err, test) \<leftarrow> ensurePending r test;
          (if err \<noteq> None then ret (errResult r, err)
           else if TestPhase_IsFinal (tstPhase (test_Status test))
           then TestReconciler_isComplete r test pods
           else TestReconciler_isRunning r test pods)
        })
   }"

definition TestReconciler_Reconcile ::
  "'w TestReconciler \<Rightarrow> NamespacedName \<Rightarrow> ('w Env, Result \<times> error option) state" where
  "TestReconciler_Reconcile r req = do {
     got \<leftarrow> Get (Tests (trClient r)) req;
     (case got of
        Inl e \<Rightarrow> (case IgnoreNotFound (trClient r) (Some e) of
            Some err \<Rightarrow> ret (errResult r, Some err)
          | None \<Rightarrow> ret (emptyResult, None))
      | Inr test \<Rightarrow> do {
          metric (PassedWithLabelValues (Namespace (Meta test)));
          metric (PassedWithLabelValues (Namespace (Meta test)));
          listed \<leftarrow> ListObjs (Pods (trClient r))
            [InNamespace (nnNamespace req), MatchingFields podIndexKey (nnName req)];
          (case listed of
             Inl e \<Rightarrow> ret (errResult r, Some e)
           | Inr pods \<Rightarrow>
               (if GetDeletionTimestamp test \<noteq> None then TestReconciler_deleted r test pods
                else TestReconciler_active r test pods))
        })
   }"

text \<open>
  The key under which a pod is indexed; \<open>metav1.GetControllerOf\<close> is a parameter.
\<close>

definition TestReconciler_podIndex :: "(Pod \<Rightarrow> OwnerReference option) \<Rightarrow> Pod \<Rightarrow> string list" where
  "TestReconciler_podIndex GetControllerOf pod =
     (case GetControllerOf pod of
        None \<Rightarrow> []
      | Some owner \<Rightarrow>
          (if orAPIVersion owner = GroupVersion \<and> orKind owner = ''Test'' then [orName owner]
           else []))"

section \<open>What the handler writes\<close>

text \<open>The phase changes the controller may ask for.\<close>

definition testTransition :: "TestPhase \<Rightarrow> TestPhase \<Rightarrow> bool" where
  "testTransition p q \<longleftrightarrow>
     \<not> TestPhase_IsFinal p \<and>
     (p = '''' \<and> q = TestPending \<or> p \<noteq> TestStarting \<and> q = TestStarting \<or>
      p \<noteq> TestRunning \<and> q = TestRunning \<or> q = TestPassed \<or> q = TestFailed)"

definition statusOnly :: "Test \<Rightarrow> Test \<Rightarrow> bool" where
  "statusOnly new orig \<longleftrightarrow>
     APIVersion new = APIVersion orig \<and> Kind new = Kind orig \<and> Meta new = Meta orig \<and>
     test_Spec new = test_Spec orig"

definition testStatusWrite :: "Call \<Rightarrow> bool" where
  "testStatusWrite call =
     (case call of
        StatusPatchCall (TestObj new) (TestObj orig) e \<Rightarrow>
          testTransition (tstPhase (test_Status orig)) (tstPhase (test_Status new)) \<and>
          statusOnly new orig
      | StatusPatchCall _ _ e \<Rightarrow> False
      | _ \<Rightarrow> True)"

text \<open>The pods the controller may create.\<close>

definition testPod :: "Pod \<Rightarrow> bool" where
  "testPod p \<longleftrightarrow>
     RestartPolicy (pod_Spec p) = RestartPolicyNever \<and> Name (Meta p) = '''' \<and>
     Finalizers (Meta p) = [TestControllerFinalizer] \<and>
     (case OwnerReferences (Meta p) of
        [owner] \<Rightarrow> orController owner = Some True \<and> orBlockOwnerDeletion owner = Some True \<and>
          GenerateName (Meta p) = orName owner @ ''-''
      | _ \<Rightarrow> False)"

definition testCreation :: "Call \<Rightarrow> bool" where
  "testCreation call =
     (case call of CreateCall (PodObj p) e \<Rightarrow> testPod p | CreateCall _ e \<Rightarrow> False | _ \<Rightarrow> True)"

text \<open>
  The metadata the controller patches: its own finalizer, put on a Test that is not being
  deleted, and taken from a Test or a Pod.
\<close>

definition testMetaWrite :: "Call \<Rightarrow> bool" where
  "testMetaWrite call =
     (case call of
        PatchCall (TestObj new) (TestObj orig) e \<Rightarrow>
          dropsFinalizer TestControllerFinalizer (TestObj new) (TestObj orig) \<or>
          addsFinalizer TestControllerFinalizer (TestObj new) (TestObj orig) \<and>
            GetDeletionTimestamp orig = None
      | PatchCall new orig e \<Rightarrow> dropsFinalizer TestControllerFinalizer new orig
      | DeleteCall (PodObj p) e \<Rightarrow> GetDeletionTimestamp p = None
      | DeleteCall _ e \<Rightarrow> False
      | _ \<Rightarrow> True)"

lemma test_update_simps [simp]:
  "tstPhase (test_Status (setTestCondition c ty st re msg test)) = tstPhase (test_Status test)"
  "tstPhase (test_Status (setTestMessages pod test)) = tstPhase (test_Status test)"
  "tstPhase (test_Status (setTestPhase p test)) = p"
  "tstMessages (test_Status (setTestCondition c ty st re msg test)) = tstMessages (test_Status test)"
  "tstMessages (test_Status (setTestMessages pod test)) =
     terminationMessages (ContainerStatuses (pod_Status pod)) (Some Map.empty)"
  "tstConditions (test_Status (setTestPhase p test)) = tstConditions (test_Status test)"
  "tstConditions (test_Status (setTestMessages pod test)) = tstConditions (test_Status test)"
  "tstConditions (test_Status (setTestCondition c ty st re msg test)) =
     SetStatusCondition c (tstConditions (test_Status test))
       (newCondition ty st (Generation (Meta test)) re msg)"
  by (simp_all add: setTestCondition_def setTestMessages_def setTestPhase_def)

lemma statusOnly_refl [simp]: "statusOnly test test"
  by (simp add: statusOnly_def)

lemma statusOnly_updates [simp]:
  "statusOnly (setTestCondition c ty st re msg test) orig = statusOnly test orig"
  "statusOnly (setTestMessages pod test) orig = statusOnly test orig"
  "statusOnly (setTestPhase p test) orig = statusOnly test orig"
  by (simp_all add: statusOnly_def setTestCondition_def setTestMessages_def setTestPhase_def)

lemmas test_writes = startingTest_def runningTest_def passedTest_def failedTest_def

lemma newPod_testPod: "testPod (newPod test)"
  by (simp add: testPod_def newPod_def)

text \<open>
  One walk over the handler serves every property of its call sequences: it is enough that the
  property holds of the single calls of each kind that the handler makes, and of what it does
  when it observes a pod. The part that deals with the pods needs the calls of \<open>cleanUp\<close> only.
\<close>

locale pod_walk = call_sequences Q for Q :: "Call list \<Rightarrow> bool" +
  assumes Q_cleanUp: "cleanUpCall TestControllerFinalizer (PodObj pod) call \<Longrightarrow> Q [call]"
begin

lemma dropPod_calls: "emits' Q (removeFinalizer PodObj rc TestControllerFinalizer p)"
  by (intro emits_each pod_object.removeFinalizer_calls) (auto intro: Q_cleanUp)

lemma dropDeletedPods_calls: "emits' Q (dropDeletedPods c pods newPods errs)"
proof (induction pods arbitrary: newPods errs)
  case Nil
  then show ?case by (simp add: emits_ret)
next
  case (Cons p pods)
  then show ?case by (auto intro!: emit_rules emits_bind' dropPod_calls)
qed

lemma selectPod_calls: "emits' Q (selectPod c pod qs errs)"
proof (induction qs arbitrary: pod errs)
  case Nil
  then show ?case by (simp add: emits_ret)
next
  case (Cons q qs)
  have "emits' Q (cleanUp c PodObj (Pods c) TestControllerFinalizer q)"
    by (intro emits_each pod_object.cleanUp_calls) (rule Q_cleanUp)
  with Cons show ?case by (auto intro!: emit_rules emits_bind')
qed

lemma releaseDeletedPods_calls: "emits' Q (releaseDeletedPods c pods errs)"
proof (induction pods arbitrary: errs)
  case Nil
  then show ?case by (simp add: emits_ret)
next
  case (Cons p pods)
  then show ?case by (auto intro!: emit_rules emits_bind' emits_ret dropPod_calls)
qed

lemma cleanUpPods_calls:
  "emits' Q (cleanUpLoop c PodObj rc TestControllerFinalizer pods modified errs)"
  by (intro emits_each pod_object.cleanUpLoop_calls) (rule Q_cleanUp)

lemma choosePod_calls: "emits' Q (choosePod r pods)"
  unfolding choosePod_def
  by (intro emit_rules emits_bind' emits_ret dropDeletedPods_calls selectPod_calls) simp_all

end

text \<open>
  What is known of the Test that the handler works on: a predicate that the answer to the request
  has, and that the answers to its patches keep.
\<close>

locale test_invariant =
  fixes I :: "Test \<Rightarrow> bool"
    and r :: "'w TestReconciler"
    and req :: NamespacedName
  assumes I_get: "doGet (Tests (trClient r)) req w = (Inr test, w') \<Longrightarrow> I test"
    and I_patch: "I new \<Longrightarrow> doPatch (Tests (trClient r)) new orig w = (Inr test, w') \<Longrightarrow> I test"
    and I_status: "I new \<Longrightarrow> doStatusPatch (Tests (trClient r)) new orig w = (Inr test, w') \<Longrightarrow> I test"
    and I_finalizers: "I test \<Longrightarrow> I (SetFinalizers fs test)"
    and I_pending: "I test \<Longrightarrow> I (setTestPhase TestPending test)"
begin

lemma ensurePending_keeps: "I test \<Longrightarrow> returns (ensurePending r test) (\<lambda>(_, test'). I test')"
  unfolding ensurePending_def
  by (intro return_rules StatusPatch_returns returns_ret) (auto intro: I_pending I_status)

lemma addFinalizer_keeps:
  "I test \<Longrightarrow> returns (addFinalizer TestObj (Tests (trClient r)) f test) (\<lambda>(_, test'). I test')"
  by (intro addFinalizer_returns) (auto intro: I_finalizers I_patch)

end

locale test_walk = pod_walk Q + test_invariant I r req
  for Q :: "Call list \<Rightarrow> bool" and I and r :: "'w TestReconciler" and req +
  assumes Q_read: "Q [GetCall (rcKind (Tests (trClient r))) req]"
      "Q [ListCall (rcKind (Pods (trClient r)))
        [InNamespace (nnNamespace req), MatchingFields podIndexKey (nnName req)]]"
    and Q_init: "I test \<Longrightarrow> Q [MetricCall (PassedWithLabelValues (Namespace (Meta test)))]"
    and Q_warning: "I test \<Longrightarrow> Q [EventCall (TestObj test) ''Warning'' reason msg]"
    and Q_drop: "I test \<Longrightarrow> dropsFinalizer TestControllerFinalizer (TestObj new) (TestObj test)
      \<Longrightarrow> Q [PatchCall (TestObj new) (TestObj test) e]"
    and Q_add: "I test \<Longrightarrow> addsFinalizer TestControllerFinalizer (TestObj new) (TestObj test)
      \<Longrightarrow> GetDeletionTimestamp test = None \<Longrightarrow> Q [PatchCall (TestObj new) (TestObj test) e]"
    and Q_create: "I test \<Longrightarrow> Q [CreateCall (PodObj (newPod test)) e]"
    and Q_pending: "I test \<Longrightarrow> tstPhase (test_Status test) = ''''
      \<Longrightarrow> Q [StatusPatchCall (TestObj (setTestPhase TestPending test)) (TestObj test) e]"
    and Q_observe: "I test \<Longrightarrow> \<not> TestPhase_IsFinal (tstPhase (test_Status test))
      \<Longrightarrow> emits' Q (observePod r test pod)"
begin

lemmas walk_rules =
  emits_bind' emits_ret emits_Get emits_List emits_Create emits_StatusPatch emits_metric
  emits_Event

lemma isRunning_calls:
  assumes "I test" and "\<not> TestPhase_IsFinal (tstPhase (test_Status test))"
  shows "emits' Q (TestReconciler_isRunning r test pods)"
  unfolding TestReconciler_isRunning_def
  by (intro emit_rules walk_rules choosePod_calls Q_observe assms)
     (simp_all add: Q_create Q_warning assms)

lemma isComplete_calls: "emits' Q (TestReconciler_isComplete r test pods)"
  unfolding TestReconciler_isComplete_def
  by (intro emit_rules walk_rules releaseDeletedPods_calls cleanUpPods_calls) simp_all

lemma release_calls: "I test \<Longrightarrow> emits' Q (TestReconciler_release r test)"
  unfolding TestReconciler_release_def
  by (intro emit_rules walk_rules emits_each [OF test_object.removeFinalizer_calls])
     (simp_all add: Q_drop)

lemma deleted_calls: "I test \<Longrightarrow> emits' Q (TestReconciler_deleted r test pods)"
  unfolding TestReconciler_deleted_def
  by (intro emit_rules walk_rules cleanUpPods_calls release_calls) simp_all

lemma ensurePending_calls:
  "I test \<Longrightarrow> emits Q (ensurePending r test) (\<lambda>(_, test'). I test')"
proof (rule emits_returns [OF _ ensurePending_keeps])
  assume "I test"
  then show "emits' Q (ensurePending r test)"
    unfolding ensurePending_def by (intro emit_rules walk_rules) (simp_all add: Q_pending)
qed

lemma addFinalizer_calls:
  assumes "I test" and "GetDeletionTimestamp test = None"
  shows "emits Q (addFinalizer TestObj (Tests (trClient r)) TestControllerFinalizer test)
    (\<lambda>(_, test'). I test')"
  using assms
  by (intro emits_returns [OF emits_each [OF test_object.addFinalizer_calls] addFinalizer_keeps])
     (simp_all add: Q_add)

lemma active_calls:
  assumes "I test" and "GetDeletionTimestamp test = None"
  shows "emits' Q (TestReconciler_active r test pods)"
  unfolding TestReconciler_active_def
  by (rule emits_bind [OF addFinalizer_calls [OF assms]])
     (auto intro!: emit_rules walk_rules emits_bind [OF ensurePending_calls] isComplete_calls
       isRunning_calls)

lemma Reconcile_calls: "emits' Q (TestReconciler_Reconcile r req)"
  unfolding TestReconciler_Reconcile_def
proof (rule emits_bind)
  show "emits Q (Get (Tests (trClient r)) req) (answers I)"
    by (intro emits_returns [OF emits_Get Get_returns]) (auto intro: Q_read I_get)
qed (intro emit_rules walk_rules deleted_calls active_calls; simp add: Q_read Q_init)

end

text \<open>A property of single calls gives one of their sequences.\<close>

locale test_call_property = test_invariant I r req
  for I and r :: "'w TestReconciler" and req +
  fixes P :: "Call \<Rightarrow> bool"
  assumes P_read: "P (GetCall (rcKind (Tests (trClient r))) req)"
      "P (ListCall (rcKind (Pods (trClient r)))
        [InNamespace (nnNamespace req), MatchingFields podIndexKey (nnName req)])"
    and P_report: "P (MetricCall m)" "P (EventCall (TestObj test) ty reason msg)"
    and P_cleanUp: "cleanUpCall TestControllerFinalizer (PodObj pod) call \<Longrightarrow> P call"
    and P_drop: "I test \<Longrightarrow> dropsFinalizer TestControllerFinalizer (TestObj new) (TestObj test)
      \<Longrightarrow> P (PatchCall (TestObj new) (TestObj test) e)"
    and P_add: "I test \<Longrightarrow> addsFinalizer TestControllerFinalizer (TestObj new) (TestObj test)
      \<Longrightarrow> GetDeletionTimestamp test = None \<Longrightarrow> P (PatchCall (TestObj new) (TestObj test) e)"
    and P_create: "I test \<Longrightarrow> P (CreateCall (PodObj (newPod test)) e)"
    and P_status: "I test \<Longrightarrow> testTransition (tstPhase (test_Status test)) (tstPhase (test_Status new))
      \<Longrightarrow> statusOnly new test \<Longrightarrow> P (StatusPatchCall (TestObj new) (TestObj test) e)"
begin

lemma observePod_calls:
  assumes "I test" and "\<not> TestPhase_IsFinal (tstPhase (test_Status test))"
  shows "emits' (list_all P) (observePod r test pod)"
  unfolding observePod_def
  by (intro emit_rules each_call_rules)
     (auto simp: testTransition_def test_writes assms intro!: P_report P_status)

end

sublocale test_call_property \<subseteq> test_walk "list_all P" I r req
  by unfold_locales
     (auto simp: testTransition_def
       intro: P_read P_report P_cleanUp P_drop P_add P_create P_status observePod_calls)

context test_call_property begin

lemma reconcile_each: "emits' (list_all P) (TestReconciler_Reconcile r req)"
  by (rule Reconcile_calls)

end

interpretation test_status_write: test_call_property "\<lambda>_. True" r req testStatusWrite for r req
  by unfold_locales
     (auto simp: testStatusWrite_def testTransition_def elim!: cleanUpCall.elims)

interpretation test_creation: test_call_property "\<lambda>_. True" r req testCreation for r req
  by unfold_locales (auto simp: testCreation_def newPod_testPod elim!: cleanUpCall.elims)

lemma cleanUpCall_testMetaWrite:
  "cleanUpCall TestControllerFinalizer (PodObj pod) call \<Longrightarrow> testMetaWrite call"
  by (cases call) (auto simp: testMetaWrite_def GetDeletionTimestamp_def split: Object.splits)

interpretation test_meta_write: test_call_property "\<lambda>_. True" r req testMetaWrite for r req
  by (unfold_locales; (erule cleanUpCall_testMetaWrite | simp add: testMetaWrite_def))

section \<open>What the handler counts\<close>

definition passedInc :: "Call \<Rightarrow> bool" where
  "passedInc call = (case call of MetricCall (PassedInc ns) \<Rightarrow> True | _ \<Rightarrow> False)"

definition failedInc :: "Call \<Rightarrow> bool" where
  "failedInc call = (case call of MetricCall (FailedInc ns) \<Rightarrow> True | _ \<Rightarrow> False)"

text \<open>A status patch that the cluster accepted, and that set the given phase.\<close>

definition acceptedPhase :: "TestPhase \<Rightarrow> Call \<Rightarrow> bool" where
  "acceptedPhase p call =
     (case call of
        StatusPatchCall (TestObj new) orig e \<Rightarrow> e = None \<and> tstPhase (test_Status new) = p
      | _ \<Rightarrow> False)"

lemma cleanUpCall_not_counted:
  "cleanUpCall f obj call \<Longrightarrow>
   \<not> passedInc call \<and> \<not> failedInc call \<and> \<not> acceptedPhase p call"
  by (cases call) (auto simp: passedInc_def failedInc_def acceptedPhase_def)

lemma test_writes_phase [simp]:
  "tstPhase (test_Status (startingTest c test pod)) = TestStarting"
  "tstPhase (test_Status (runningTest c test pod)) = TestRunning"
  "tstPhase (test_Status (passedTest c test pod)) = TestPassed"
  "tstPhase (test_Status (failedTest c test pod)) = TestFailed"
  by (simp_all add: test_writes)

lemma observePod_passed_balanced:
  "emits' (\<lambda>cs. callCount passedInc cs = callCount (acceptedPhase TestPassed) cs)
     (observePod r test pod)"
  by (rule emitsI)
     (auto simp: observePod_def Let_def go_defs passedInc_def acceptedPhase_def
         inMemory_def errOf_def
       split: if_splits prod.splits sum.splits)

lemma observePod_failed_balanced:
  "emits' (\<lambda>cs. callCount failedInc cs = callCount (acceptedPhase TestFailed) cs)
     (observePod r test pod)"
  by (rule emitsI)
     (auto simp: observePod_def Let_def go_defs failedInc_def acceptedPhase_def
         inMemory_def errOf_def
       split: if_splits prod.splits sum.splits)

interpretation passed_walk:
  test_walk "\<lambda>cs. callCount passedInc cs = callCount (acceptedPhase TestPassed) cs" "\<lambda>_. True" r req
  for r req
  by unfold_locales
     (auto simp: passedInc_def acceptedPhase_def observePod_passed_balanced
       dest: cleanUpCall_not_counted)

interpretation failed_walk:
  test_walk "\<lambda>cs. callCount failedInc cs = callCount (acceptedPhase TestFailed) cs" "\<lambda>_. True" r req
  for r req
  by unfold_locales
     (auto simp: failedInc_def acceptedPhase_def observePod_failed_balanced
       dest: cleanUpCall_not_counted)

section \<open>What the handler returns\<close>

definition requeuesOnError :: "'w TestReconciler \<Rightarrow> Result \<times> error option \<Rightarrow> bool" where
  "requeuesOnError r out \<longleftrightarrow>
     (case out of (res, err) \<Rightarrow> res = (if err = None then emptyResult else errResult r))"

lemma requeuesOnError_simps [simp]:
  "requeuesOnError r (emptyResult, None)"
  "requeuesOnError r (errResult r, Some e)"
  "requeuesOnError r (errResult r, ErrorList_Error errs) \<longleftrightarrow>
     ErrorList_HasError errs \<or> errResult r = emptyResult"
  by (auto simp: requeuesOnError_def ErrorList_Error_None_iff)

lemma observePod_returns: "returns (observePod r test pod) (requeuesOnError r)"
  unfolding observePod_def
  by (intro return_rules returns_bind' returns_ret) (auto simp: requeuesOnError_def)

lemma choosePod_returns:
  "returns (choosePod r pods) (\<lambda>x. case x of Inl out \<Rightarrow> requeuesOnError r out | Inr _ \<Rightarrow> True)"
  unfolding choosePod_def by (intro return_rules returns_bind' returns_ret) simp_all

lemma isRunning_returns: "returns (TestReconciler_isRunning r test pods) (requeuesOnError r)"
  unfolding TestReconciler_isRunning_def
  by (rule returns_bind [OF choosePod_returns], intro return_rules returns_bind' returns_ret)
     (auto intro: observePod_returns)

lemma isComplete_returns: "returns (TestReconciler_isComplete r test pods) (requeuesOnError r)"
  unfolding TestReconciler_isComplete_def
  by (intro return_rules returns_bind' returns_ret) simp_all

lemma release_returns: "returns (TestReconciler_release r test) (\<lambda>out. out = (emptyResult, None))"
  unfolding TestReconciler_release_def by (intro return_rules returns_bind' returns_ret) simp

lemma deleted_returns: "returns (TestReconciler_deleted r test pods) (requeuesOnError r)"
  unfolding TestReconciler_deleted_def TestReconciler_release_def
  by (intro return_rules returns_bind' returns_ret) simp_all

lemma active_returns: "returns (TestReconciler_active r test pods) (requeuesOnError r)"
  unfolding TestReconciler_active_def
  by (intro return_rules returns_bind' returns_ret isComplete_returns isRunning_returns)
     (auto simp: requeuesOnError_def)

lemma Reconcile_returns: "returns (TestReconciler_Reconcile r req) (requeuesOnError r)"
  unfolding TestReconciler_Reconcile_def
  by (intro return_rules returns_bind' returns_ret deleted_returns active_returns) simp_all

section \<open>The choice of the pod\<close>

abbreviation notDeleted :: "Pod \<Rightarrow> bool" where
  "notDeleted p \<equiv> GetDeletionTimestamp p = None"

definition keptPod :: "Pod \<Rightarrow> Pod list \<Rightarrow> Pod" where
  "keptPod p ps = (case filter notDeleted (p # ps) of [] \<Rightarrow> p | q # _ \<Rightarrow> q)"

lemma selectPod_result: "returns (selectPod c p ps errs) (\<lambda>(q, _). q = keptPod p ps)"
proof (induction ps arbitrary: p errs)
  case Nil
  show ?case by (simp add: returns_ret keptPod_def)
next
  case (Cons q ps)
  have "keptPod q ps = keptPod p (q # ps)" if "notDeleted q" "\<not> notDeleted p"
    using that by (auto simp: keptPod_def)
  moreover have "keptPod p ps = keptPod p (q # ps)" if "\<not> (notDeleted q \<and> \<not> notDeleted p)"
    using that by (auto simp: keptPod_def)
  ultimately show ?case
    using Cons.IH [of q errs] Cons.IH [of p]
    by (auto intro!: return_rules returns_bind')
qed

lemma selectPod_deletes:
  "emits' (\<lambda>cs. deletedObjs cs = map PodObj (tl (filter notDeleted (p # ps))))
     (selectPod c p ps errs)"
proof (induction ps arbitrary: p errs)
  case Nil
  show ?case by (simp add: no_delete.emits_ret)
next
  case (Cons q ps)
  show ?case
  proof (cases "notDeleted q \<and> \<not> notDeleted p")
    case True
    then show ?thesis using Cons.IH [of q errs] by auto
  next
    case False
    then show ?thesis
      by (auto intro!: emits_seq [OF cleanUp_deletes] emit_rules Cons.IH split: if_splits)
  qed
qed

text \<open>A pod that is not being deleted is never dropped, so a second one is never created.\<close>

lemma dropDeletedPods_keeps:
  "p \<in> set newPods \<or> p \<in> set pods \<and> notDeleted p \<Longrightarrow>
   returns (dropDeletedPods c pods newPods errs) (\<lambda>(newPods', _). newPods' \<noteq> [])"
proof (induction pods arbitrary: newPods errs)
  case Nil
  then show ?case by (auto intro: returns_ret)
next
  case (Cons q pods)
  then show ?case by (auto intro!: return_rules returns_bind')
qed

lemma choosePod_finds:
  assumes "p \<in> set pods" and "notDeleted p"
  shows "returns (choosePod r pods) (\<lambda>x. x \<noteq> Inr None)"
proof -
  from assms have "pods \<noteq> []" by auto
  moreover from assms have
    "returns (dropDeletedPods (trClient r) pods [] []) (\<lambda>(newPods', _). newPods' \<noteq> [])"
    by (intro dropDeletedPods_keeps [of p]) simp
  ultimately show ?thesis
    unfolding choosePod_def Let_def
    by (simp, elim returns_bind, intro return_rules returns_bind' returns_ret) auto
qed

definition isCreate :: "Call \<Rightarrow> bool" where
  "isCreate call = (case call of CreateCall _ _ \<Rightarrow> True | _ \<Rightarrow> False)"

interpretation pods_no_create: pod_walk "list_all (\<lambda>call. \<not> isCreate call)"
proof (unfold_locales, simp)
  fix pod call
  assume "cleanUpCall TestControllerFinalizer (PodObj pod) call"
  then show "\<not> isCreate call" by (cases call) (auto simp: isCreate_def)
qed

lemma observePod_no_create: "emits' (list_all (\<lambda>call. \<not> isCreate call)) (observePod r test pod)"
  unfolding observePod_def
  by (intro emit_rules each_call_rules) (simp_all add: isCreate_def)

lemma isRunning_no_create:
  assumes "p \<in> set pods" and "notDeleted p"
  shows "emits' (list_all (\<lambda>call. \<not> isCreate call)) (TestReconciler_isRunning r test pods)"
  unfolding TestReconciler_isRunning_def
  by (rule each_call.emits_bind
        [OF emits_returns [OF pods_no_create.choosePod_calls choosePod_finds [OF assms]]],
      intro emit_rules observePod_no_create each_call_rules) simp_all

section \<open>Messages, deletion and retention\<close>

definition terminated :: "ContainerStatus list \<Rightarrow> (string \<times> string) list" where
  "terminated css = [(csName cs, m). cs \<leftarrow> css, m \<leftarrow> (case csTerminated cs of None \<Rightarrow> [] | Some m \<Rightarrow> [m])]"

lemma terminationMessages_lookup:
  "mapLookup (terminationMessages css msgs) n =
     (case map_of (rev (terminated css)) n of None \<Rightarrow> mapLookup msgs n | Some m \<Rightarrow> Some m)"
  by (induction css arbitrary: msgs)
     (auto simp: terminated_def map_add_def split: option.splits)

lemma terminationMessages_terminated:
  "terminationMessages css (Some f) = Some (f ++ map_of (rev (terminated css)))"
  by (induction css arbitrary: f) (auto simp: terminated_def mapPut_def split: option.splits)

lemma releaseDeletedPods_none:
  assumes "list_all notDeleted pods"
  shows "releaseDeletedPods c pods errs = ret (pods, errs)"
  using assms by (induction pods) simp_all

lemma isComplete_retains:
  assumes "\<not> discardsPods test"
  shows "emits' (\<lambda>cs. deletedObjs cs = []) (TestReconciler_isComplete r test pods)"
proof -
  have "emits' (\<lambda>cs. deletedObjs cs = []) (releaseDeletedPods (trClient r) pods errs)" for errs
  proof (induction pods arbitrary: errs)
    case Nil
    show ?case by (simp add: no_delete.emits_ret)
  next
    case (Cons p pods)
    then show ?case
      by (auto intro!: emit_rules no_delete.emits_bind' no_delete.emits_ret
          removeFinalizer_no_delete)
  qed
  with assms show ?thesis
    unfolding TestReconciler_isComplete_def
    by (auto intro!: emit_rules no_delete.emits_bind' no_delete.emits_ret)
qed

lemma isComplete_discards:
  assumes "discardsPods test" and "list_all notDeleted pods"
  shows "emits' (\<lambda>cs. deletedObjs cs = map PodObj pods) (TestReconciler_isComplete r test pods)"
proof -
  have "deletionsOf PodObj pods = map PodObj pods"
    using assms(2) by (simp add: deletionsOf_def filter_id_conv list_all_iff)
  with assms show ?thesis
    by (auto simp: TestReconciler_isComplete_def releaseDeletedPods_none ErrorList_HasError_def
        intro!: emits_seq [OF cleanUpLoop_deletes] emit_rules no_delete.emits_ret)
qed

definition patchesTest :: "Call \<Rightarrow> bool" where
  "patchesTest call = (case call of PatchCall new (TestObj orig) e \<Rightarrow> True | _ \<Rightarrow> False)"

lemma release_no_delete: "emits' (\<lambda>cs. deletedObjs cs = []) (TestReconciler_release r test)"
  unfolding TestReconciler_release_def
  by (intro emit_rules no_delete.emits_bind' no_delete.emits_ret removeFinalizer_no_delete) simp

lemma deleted_deletes:
  "emits' (\<lambda>cs. deletedObjs cs = deletionsOf PodObj pods) (TestReconciler_deleted r test pods)"
  unfolding TestReconciler_deleted_def
  by (intro emit_rules emits_seq [OF cleanUpLoop_deletes] no_delete.emits_ret release_no_delete)
     (auto intro!: release_no_delete no_delete.emits_ret emit_rules)

interpretation pods_only: pod_walk "list_all (\<lambda>call. \<not> patchesTest call)"
proof (unfold_locales, simp)
  fix pod call
  assume "cleanUpCall TestControllerFinalizer (PodObj pod) call"
  then show "\<not> patchesTest call"
    by (cases call) (auto simp: patchesTest_def dropsFinalizer_def split: Object.splits)
qed

text \<open>
  The calls with which cleaning up a pod failed: a delete whose error \<open>IgnoreNotFound\<close> does not ignore,
  and a patch that was refused. The loop has an error exactly when there was such a call.
\<close>

definition podCleanUpFailed :: "'w Client \<Rightarrow> Call \<Rightarrow> bool" where
  "podCleanUpFailed c call =
     (case call of
        DeleteCall (PodObj pod) (Some e) \<Rightarrow> IgnoreNotFound c (Some e) \<noteq> None
      | PatchCall (PodObj new) orig (Some e) \<Rightarrow> True
      | _ \<Rightarrow> False)"

lemma podCleanUpFailed_simps [simp]:
  "podCleanUpFailed c (DeleteCall (PodObj p) None) = False"
  "podCleanUpFailed c (DeleteCall (PodObj p) (Some e)) \<longleftrightarrow> IgnoreNotFound c (Some e) \<noteq> None"
  "podCleanUpFailed c (PatchCall (PodObj p) orig res) \<longleftrightarrow> res \<noteq> None"
  "podCleanUpFailed c (PatchCall (TestObj t) orig res) = False"
  by (simp_all add: podCleanUpFailed_def split: option.split)

lemma cleanUp_pod_errors:
  assumes "IgnoreNotFound c None = None"
  shows "\<exists>m err p' s' cs. run_state (cleanUp c PodObj rc f p) s = (((m, err), p'), s') \<and>
    trace s' = trace s @ cs \<and> (err \<noteq> None \<longleftrightarrow> list_ex (podCleanUpFailed c) cs)"
proof -
  let ?del = "doDelete rc p (cluster s)"
  let ?w = "if GetDeletionTimestamp p = None then snd ?del else cluster s"
  let ?patch = "doPatch rc (SetFinalizers (filter (\<lambda>g. g \<noteq> f) (GetFinalizers p)) p) p ?w"
  show ?thesis
    using assms
    by (cases ?del; cases "fst ?del"; cases ?patch; cases "fst ?patch")
       (auto simp: cleanUp_def cleanUpFinalizer_def removeFinalizer_def go_defs Let_def split: if_splits)
qed

lemma cleanUpPods_errors:
  assumes "IgnoreNotFound c None = None"
  shows "\<exists>m' errs' s' cs. run_state (cleanUpLoop c PodObj rc f pods m errs) s = ((m', errs'), s') \<and>
    trace s' = trace s @ cs \<and>
    (ErrorList_HasError errs' \<longleftrightarrow> ErrorList_HasError errs \<or> list_ex (podCleanUpFailed c) cs)"
proof (induction pods arbitrary: m errs s)
  case Nil
  show ?case by simp
next
  case (Cons p pods)
  obtain m1 err p' s1 cs1 where 1: "run_state (cleanUp c PodObj rc f p) s = (((m1, err), p'), s1)"
    "trace s1 = trace s @ cs1" "err \<noteq> None \<longleftrightarrow> list_ex (podCleanUpFailed c) cs1"
    using cleanUp_pod_errors [OF assms, of rc f p s] by (elim exE conjE) (rule that; assumption)
  let ?errs = "case err of None \<Rightarrow> errs | Some e \<Rightarrow> ErrorList_Append errs e"
  obtain m2 errs2 s2 cs2 where
    2: "run_state (cleanUpLoop c PodObj rc f pods (m \<or> m1) ?errs) s1 = ((m2, errs2), s2)"
      "trace s2 = trace s1 @ cs2"
      "ErrorList_HasError errs2 \<longleftrightarrow> ErrorList_HasError ?errs \<or> list_ex (podCleanUpFailed c) cs2"
    using Cons.IH [of "m \<or> m1" ?errs s1] by (elim exE conjE) (rule that; assumption)
  have "ErrorList_HasError ?errs \<longleftrightarrow> ErrorList_HasError errs \<or> list_ex (podCleanUpFailed c) cs1"
    using 1(3) by (cases err) simp_all
  with 1 2 show ?case by (intro exI [of _ m2] exI [of _ errs2] exI [of _ s2] exI [of _ "cs1 @ cs2"]) simp
qed

text \<open>The Test is released, once, when the pods are cleaned up, and keeps its finalizer when they are not.\<close>

lemma release_run:
  "\<exists>s' cs. run_state (TestReconciler_release r test) s = ((emptyResult, None), s') \<and> trace s' = trace s @ cs \<and>
    callCount patchesTest cs = (if TestControllerFinalizer \<in> set (GetFinalizers test) then 1 else 0) \<and>
    list_all (\<lambda>call. \<not> podCleanUpFailed c call) cs"
proof -
  let ?patch = "doPatch (Tests (trClient r))
    (SetFinalizers (filter (\<lambda>g. g \<noteq> TestControllerFinalizer) (GetFinalizers test)) test) test (cluster s)"
  show ?thesis
    by (cases ?patch; cases "fst ?patch")
       (auto simp: TestReconciler_release_def removeFinalizer_def go_defs patchesTest_def list_ex_iff Let_def)
qed

lemma deleted_releases:
  fixes r :: "'w TestReconciler" and test :: Test and pods :: "Pod list" and w :: 'w
  assumes "IgnoreNotFound (trClient r) None = None"
  defines "calls \<equiv> callsOf (TestReconciler_deleted r test pods) w"
  shows "if list_ex (podCleanUpFailed (trClient r)) calls
    then snd (resultOf (TestReconciler_deleted r test pods) w) \<noteq> None \<and> callCount patchesTest calls = 0
    else resultOf (TestReconciler_deleted r test pods) w = (emptyResult, None) \<and>
      callCount patchesTest calls = (if TestControllerFinalizer \<in> set (GetFinalizers test) then 1 else 0)"
proof -
  let ?s = "\<lparr>cluster = w, trace = []\<rparr>" and ?c = "trClient r"
  let ?loop = "cleanUpLoop ?c PodObj (Pods ?c) TestControllerFinalizer pods False []"
  obtain m errs s1 cs where 1: "run_state ?loop ?s = ((m, errs), s1)" "trace s1 = cs"
    "ErrorList_HasError errs \<longleftrightarrow> list_ex (podCleanUpFailed ?c) cs"
    using cleanUpPods_errors [OF assms(1), of "Pods ?c" TestControllerFinalizer pods False "[]" ?s]
    by (auto simp: ErrorList_HasError_def)
  have none: "callCount patchesTest cs = 0"
    using emitsD(2) [OF pods_only.cleanUpPods_calls 1(1)] 1(2) by (auto simp: callCount_def list_all_iff)
  obtain s2 ds where 2: "run_state (TestReconciler_release r test) s1 = ((emptyResult, None), s2)"
    "trace s2 = cs @ ds" "list_all (\<lambda>call. \<not> podCleanUpFailed ?c call) ds"
    "callCount patchesTest ds = (if TestControllerFinalizer \<in> set (GetFinalizers test) then 1 else 0)"
    using release_run [of r test s1 ?c] 1(2) by auto
  have empty: "run_state ?loop ?s = ((False, []), ?s)" if "pods = []" using that by simp
  have ds: "\<not> list_ex (podCleanUpFailed ?c) ds" using 2(3) by (auto simp: list_ex_iff list_all_iff)
  show ?thesis
    using 1 2 none ds empty ErrorList_Error_None_iff [of errs]
    by (cases "pods = []"; cases "ErrorList_HasError errs")
       (auto simp: calls_def TestReconciler_deleted_def resultOf_def callsOf_def)
qed

section \<open>Sample objects\<close>

text \<open>Objects and a reconciler at which the properties with hypotheses are evaluated.\<close>

definition samplePod :: "string \<Rightarrow> string \<Rightarrow> Pod" where
  "samplePod n phase =
     \<lparr>APIVersion = ''v1'', Kind = ''Pod'',
      Meta = emptyMeta\<lparr>Name := n, Namespace := ''ns'', Finalizers := [TestControllerFinalizer]\<rparr>,
      pod_Spec = \<lparr>RestartPolicy = RestartPolicyNever, Containers = []\<rparr>,
      pod_Status = \<lparr>psPhase = phase,
        ContainerStatuses = [\<lparr>csName = ''test'', csTerminated = Some ''done''\<rparr>]\<rparr>\<rparr>"

definition sampleTest :: "TestPhase \<Rightarrow> RetainPolicy \<Rightarrow> Test" where
  "sampleTest phase policy =
     \<lparr>APIVersion = GroupVersion, Kind = ''Test'',
      Meta = emptyMeta\<lparr>Name := ''t'', Namespace := ''ns'', Finalizers := [TestControllerFinalizer]\<rparr>,
      test_Spec = \<lparr>tsRetentionPolicy = policy,
        tsTemplate = \<lparr>ptMeta = emptyMeta, ptSpec = \<lparr>RestartPolicy = '''', Containers = []\<rparr>\<rparr>\<rparr>,
      test_Status = \<lparr>tstConditions = [], tstPhase = phase, tstMessages = None\<rparr>\<rparr>"

definition sampleTestReconciler :: "Test \<Rightarrow> Pod list \<Rightarrow> unit TestReconciler" where
  "sampleTestReconciler test pods =
     \<lparr>trClient = staticClient\<lparr>Tests := staticResource ''Test'' (Some test) [],
        Pods := staticResource ''Pod'' None pods\<rparr>,
      trErrRequeueDelay = Minute\<rparr>"

text \<open>The same cluster refusing deletions, or patches.\<close>

definition refused :: error where
  "refused = StatusError ''Forbidden'' ''refused''"

definition noDelete :: "('o, unit) ResourceClient \<Rightarrow> ('o, unit) ResourceClient" where
  "noDelete rc = rc\<lparr>doDelete := \<lambda>_ w. (Some refused, w)\<rparr>"

definition noPatch :: "('o, unit) ResourceClient \<Rightarrow> ('o, unit) ResourceClient" where
  "noPatch rc = rc\<lparr>doPatch := \<lambda>_ _ w. (Inl refused, w)\<rparr>"

lemma samplePod_simps [simp]:
  "GetDeletionTimestamp (samplePod n p) = None" "psPhase (pod_Status (samplePod n p)) = p"
  "Name (Meta (samplePod n p)) = n" "GetFinalizers (samplePod n p) = [TestControllerFinalizer]"
  by (simp_all add: samplePod_def GetDeletionTimestamp_def GetFinalizers_def emptyMeta_def)

lemma sampleTest_simps [simp]:
  "GetDeletionTimestamp (sampleTest p q) = None" "tstPhase (test_Status (sampleTest p q)) = p"
  "tsRetentionPolicy (test_Spec (sampleTest p q)) = q" "Name (Meta (sampleTest p q)) = ''t''"
  "Namespace (Meta (sampleTest p q)) = ''ns''" "APIVersion (sampleTest p q) = GroupVersion"
  "Kind (sampleTest p q) = ''Test''" "GetFinalizers (sampleTest p q) = [TestControllerFinalizer]"
  by (simp_all add: sampleTest_def GetDeletionTimestamp_def GetFinalizers_def emptyMeta_def)

lemma sampleTestReconciler_simps [simp]:
  "Tests (trClient (sampleTestReconciler test pods)) = staticResource ''Test'' (Some test) []"
  "Pods (trClient (sampleTestReconciler test pods)) = staticResource ''Pod'' None pods"
  "SetStatusCondition (trClient (sampleTestReconciler test pods)) = staticSetCondition"
  "IgnoreNotFound (trClient (sampleTestReconciler test pods)) = staticIgnoreNotFound"
  by (simp_all add: sampleTestReconciler_def)

section \<open>Properties\<close>

text \<open>
  C5. Every write to a status that the reconciler asks for is on a Test, changes nothing but the
  status, starts from a phase that is not final, and moves it to Pending (from the empty phase
  only), Starting, Running, Passed or Failed. So a verdict, once recorded, is never changed.
\<close>

theorem test_status_transitions:
  "list_all testStatusWrite (callsOf (TestReconciler_Reconcile r req) w)"
  by (rule emits_callsOf [OF test_status_write.Reconcile_calls])

text \<open>
  Every object the reconciler creates is a Pod that is never restarted, with the controller's
  finalizer, a generated name, and one owner, which controls it.
\<close>

theorem test_pods_created: "list_all testCreation (callsOf (TestReconciler_Reconcile r req) w)"
  by (rule emits_callsOf [OF test_creation.Reconcile_calls])

text \<open>
  C28. The metadata the reconciler patches is its own finalizer and nothing else: put on a Test
  that lacks it and is not being deleted, taken from a Test or Pod that has it. It deletes
  nothing but Pods, and only a Pod that is not being deleted already.
\<close>

theorem test_metadata_writes:
  "list_all testMetaWrite (callsOf (TestReconciler_Reconcile r req) w)"
  by (rule emits_callsOf [OF test_meta_write.Reconcile_calls])

text \<open>
  C22. The counters follow the verdicts: in one reconciliation the passed counter is incremented
  as often as the cluster accepted the phase Passed, and the failed counter as often as it
  accepted the phase Failed.
\<close>

theorem test_metrics:
  "callCount passedInc (callsOf (TestReconciler_Reconcile r req) w)
     = callCount (acceptedPhase TestPassed) (callsOf (TestReconciler_Reconcile r req) w) \<and>
   callCount failedInc (callsOf (TestReconciler_Reconcile r req) w)
     = callCount (acceptedPhase TestFailed) (callsOf (TestReconciler_Reconcile r req) w)"
  by (intro conjI emits_callsOf [OF passed_walk.Reconcile_calls]
      emits_callsOf [OF failed_walk.Reconcile_calls])

text \<open>
  The reconciler asks for a requeue after the configured delay exactly when it returns an
  error; otherwise it returns the zero result.
\<close>

theorem test_requeues_on_error:
  "requeuesOnError r (resultOf (TestReconciler_Reconcile r req) w)"
  by (rule returns_resultOf [OF Reconcile_returns])

text \<open>
  C15. Among several pods the reconciler keeps the first that is not being deleted, or the first of
  all when every one is, and it deletes every other pod that is not being deleted yet, in order.
\<close>

theorem test_pod_choice:
  "fst (resultOf (selectPod c p ps errs) w) = keptPod p ps \<and>
   deletedObjs (callsOf (selectPod c p ps errs) w) = map PodObj (tl (filter notDeleted (p # ps)))"
  using returns_resultOf [OF selectPod_result [of c p ps errs], of w]
    emits_callsOf [OF selectPod_deletes [of p ps c errs], of w]
  by (simp add: case_prod_unfold)

text \<open>
  While a pod of the Test is not being deleted, the reconciler creates no other.
\<close>

theorem test_single_pod:
  assumes "list_ex notDeleted pods"
  shows "list_all (\<lambda>call. \<not> isCreate call) (callsOf (TestReconciler_isRunning r test pods) w)"
proof -
  from assms obtain p where "p \<in> set pods" "notDeleted p" by (auto simp: list_ex_iff)
  then show ?thesis by (rule emits_callsOf [OF isRunning_no_create])
qed

theorem test_single_pod_witness:
  "list_all (\<lambda>call. \<not> isCreate call)
     (callsOf (TestReconciler_isRunning (sampleTestReconciler (sampleTest TestPending RetainNever) [])
        (sampleTest TestPending RetainNever) [samplePod ''p'' PodPending]) ())"
  by (rule test_single_pod) simp

text \<open>
  C2. The verdict. A Test with the finalizer and a phase that is not final, whose one pod has
  succeeded (failed), is patched to the phase Passed (Failed), with the messages of the pod's terminated
  containers (\<open>terminated\<close>) and nothing else of it changed but conditions; when the patch is accepted the
  counter of the verdict is incremented and the event is recorded, and when it fails the error is
  returned. Nothing else is called.
\<close>

theorem test_verdict:
  fixes r :: "'w TestReconciler"
  defines "c \<equiv> trClient r"
  defines "opts req \<equiv> [InNamespace (nnNamespace req), MatchingFields podIndexKey (nnName req)]"
  assumes get: "doGet (Tests c) req w = (Inr test, w\<^sub>1)"
    and pods: "doList (Pods c) (opts req) w\<^sub>1 = (Inr [pod], w\<^sub>2)"
    and alive: "GetDeletionTimestamp test = None" "notDeleted pod"
    and fin: "TestControllerFinalizer \<in> set (GetFinalizers test)"
    and phase: "tstPhase (test_Status test) \<noteq> ''''"
      "\<not> TestPhase_IsFinal (tstPhase (test_Status test))"
    and ended: "psPhase (pod_Status pod) = (if ok then PodSucceeded else PodFailed)"
  shows "\<exists>new conditions.
    new = test\<lparr>test_Status := \<lparr>tstConditions = conditions, tstPhase = (if ok then TestPassed else TestFailed),
      tstMessages = Some (map_of (rev (terminated (ContainerStatuses (pod_Status pod)))))\<rparr>\<rparr> \<and>
    resultOf (TestReconciler_Reconcile r req) w =
      (case fst (doStatusPatch (Tests c) new test w\<^sub>2) of
         Inr test' \<Rightarrow> (emptyResult, None)
       | Inl e \<Rightarrow> (\<lparr>Requeue = True, RequeueAfter = trErrRequeueDelay r\<rparr>, Some e)) \<and>
    callsOf (TestReconciler_Reconcile r req) w =
      [GetCall (rcKind (Tests c)) req,
       MetricCall (PassedWithLabelValues (Namespace (Meta test))),
       MetricCall (PassedWithLabelValues (Namespace (Meta test))),
       ListCall (rcKind (Pods c)) (opts req)] @
      (case fst (doStatusPatch (Tests c) new test w\<^sub>2) of
         Inl e \<Rightarrow> [StatusPatchCall (TestObj new) (TestObj test) (Some e)]
       | Inr test' \<Rightarrow>
           [StatusPatchCall (TestObj new) (TestObj test) None,
            MetricCall (if ok then PassedInc (Namespace (Meta test')) else FailedInc (Namespace (Meta test'))),
            EventCall (TestObj test') ''Normal'' (if ok then TestPassedEvent else TestFailedEvent)
              (''Pod '' @ podName pod @ (if ok then '' succeeded'' else '' failed''))])"
proof -
  let ?new = "if ok then passedTest c test pod else failedTest c test pod"
  let ?answer = "doStatusPatch (Tests c) ?new test w\<^sub>2"
  have new: "?new = test\<lparr>test_Status := \<lparr>tstConditions = tstConditions (test_Status ?new),
      tstPhase = (if ok then TestPassed else TestFailed),
      tstMessages = Some (map_of (rev (terminated (ContainerStatuses (pod_Status pod)))))\<rparr>\<rparr>"
    by (simp add: passedTest_def failedTest_def setTestCondition_def setTestMessages_def setTestPhase_def
        terminationMessages_terminated)
  have "addFinalizer TestObj (Tests c) TestControllerFinalizer test = ret ((False, None), test)"
    using fin by (auto simp: addFinalizer_def list_all_iff)
  moreover have "choosePod r [pod] = ret (Inr (Some pod))"
    using alive by (simp add: choosePod_def ErrorList_HasError_def)
  ultimately show ?thesis
    using get pods alive phase ended
    by (intro exI [of _ ?new] exI [of _ "tstConditions (test_Status ?new)"] conjI new;
        cases ok; cases ?answer; cases "fst ?answer")
      (simp_all add: TestReconciler_Reconcile_def TestReconciler_active_def ensurePending_def
        TestReconciler_isRunning_def observePod_def errResult_def go_defs resultOf_def callsOf_def
        c_def opts_def Let_def)
qed

theorem test_verdict_witness:
  "let test = sampleTest TestRunning RetainNever; pod = samplePod ''p'' PodSucceeded;
       r = sampleTestReconciler test [pod]; req = \<lparr>nnNamespace = ''ns'', nnName = ''t''\<rparr>
   in resultOf (TestReconciler_Reconcile r req) () = (emptyResult, None) \<and>
      (\<exists>new. StatusPatchCall (TestObj new) (TestObj test) None \<in> set (callsOf (TestReconciler_Reconcile r req) ()) \<and>
         tstPhase (test_Status new) = TestPassed \<and> mapGet (tstMessages (test_Status new)) ''test'' = ''done'') \<and>
      MetricCall (PassedInc ''ns'') \<in> set (callsOf (TestReconciler_Reconcile r req) ())"
proof -
  let ?test = "sampleTest TestRunning RetainNever"
  let ?pod = "samplePod ''p'' PodSucceeded"
  let ?r = "sampleTestReconciler ?test [?pod]"
  have "mapGet (Some (map_of (rev (terminated (ContainerStatuses (pod_Status ?pod)))))) ''test'' = ''done''"
    by (simp add: samplePod_def mapGet_def terminated_def)
  then show ?thesis
    using test_verdict [of ?r "\<lparr>nnNamespace = ''ns'', nnName = ''t''\<rparr>" "()" ?test "()" ?pod "()" True]
    by (auto simp: Let_def)
qed

text \<open>
  C23. The retention policy. Once a Test is final, the reconciler deletes its pods, all of them and
  in order, exactly when the policy is Never, or OnFailure and the Test passed.
\<close>

theorem test_retention:
  assumes "list_all notDeleted pods"
  shows "deletedObjs (callsOf (TestReconciler_isComplete r test pods) w)
    = (let policy = tsRetentionPolicy (test_Spec test) in
       if policy = ''Never'' \<or> policy = ''OnFailure'' \<and> tstPhase (test_Status test) = ''Passed''
       then map PodObj pods else [])"
proof -
  have "discardsPods test \<longleftrightarrow> tsRetentionPolicy (test_Spec test) = ''Never'' \<or>
      tsRetentionPolicy (test_Spec test) = ''OnFailure'' \<and> tstPhase (test_Status test) = ''Passed''"
    by (simp add: discardsPods_def RetainNever_def RetainOnFailure_def TestPassed_def Let_def)
  then show ?thesis
    using assms emits_callsOf [OF isComplete_discards [of test pods]]
      emits_callsOf [OF isComplete_retains [of test r pods]]
    by (auto simp: Let_def)
qed

theorem test_retention_witness:
  "let pods = [samplePod ''p'' PodSucceeded, samplePod ''q'' PodFailed];
       deleted = (\<lambda>phase policy. let test = sampleTest phase policy in
         deletedObjs (callsOf (TestReconciler_isComplete (sampleTestReconciler test pods) test pods) ()))
   in deleted TestPassed RetainOnFailure = map PodObj pods \<and> deleted TestFailed RetainOnFailure = [] \<and>
      deleted TestFailed RetainNever = map PodObj pods \<and> deleted TestPassed RetainAlways = []"
proof -
  let ?pods = "[samplePod ''p'' PodSucceeded, samplePod ''q'' PodFailed]"
  note ret = test_retention [of ?pods]
  show ?thesis
    by (simp add: ret Let_def RetainNever_def RetainOnFailure_def RetainAlways_def TestPassed_def TestFailed_def)
qed

text \<open>
  C25. A Test that is being deleted: the reconciler deletes each of its pods that is not being deleted
  yet. When a delete fails with more than NotFound, or a patch of a pod fails, it returns an error and
  leaves the Test its finalizer; otherwise it patches the Test once to remove the finalizer, if it has it.
\<close>

theorem test_deletion:
  fixes r :: "'w TestReconciler" and test :: Test and pods :: "Pod list" and w :: 'w
  assumes "IgnoreNotFound (trClient r) None = None"
  defines "calls \<equiv> callsOf (TestReconciler_deleted r test pods) w"
  shows "deletedObjs calls = deletionsOf PodObj pods \<and>
    (if list_ex (podCleanUpFailed (trClient r)) calls
     then snd (resultOf (TestReconciler_deleted r test pods) w) \<noteq> None \<and> callCount patchesTest calls = 0
     else resultOf (TestReconciler_deleted r test pods) w = (emptyResult, None) \<and>
       callCount patchesTest calls = (if TestControllerFinalizer \<in> set (GetFinalizers test) then 1 else 0))"
  using deleted_releases [OF assms(1), of test pods w] emits_callsOf [OF deleted_deletes [of pods r test], of w]
  by (simp add: calls_def)

theorem test_deletion_witness:
  "let test = sampleTest TestRunning RetainNever; pods = [samplePod ''p'' PodRunning];
       r = sampleTestReconciler test pods;
       r' = r\<lparr>trClient := (trClient r)\<lparr>Pods := noDelete (Pods (trClient r))\<rparr>\<rparr>
   in callCount patchesTest (callsOf (TestReconciler_deleted r test pods) ()) = 1 \<and>
      callCount patchesTest (callsOf (TestReconciler_deleted r' test pods) ()) = 0"
proof -
  let ?test = "sampleTest TestRunning RetainNever"
  let ?pods = "[samplePod ''p'' PodRunning]"
  let ?r = "sampleTestReconciler ?test ?pods"
  let ?r' = "?r\<lparr>trClient := (trClient ?r)\<lparr>Pods := noDelete (Pods (trClient ?r))\<rparr>\<rparr>"
  have ign: "IgnoreNotFound (trClient ?r) None = None" "IgnoreNotFound (trClient ?r') None = None"
    by (simp_all add: staticIgnoreNotFound_def)
  have "\<not> list_ex (podCleanUpFailed (trClient ?r)) (callsOf (TestReconciler_deleted ?r ?test ?pods) ())"
    by (simp add: TestReconciler_deleted_def TestReconciler_release_def cleanUp_def cleanUpFinalizer_def
        removeFinalizer_def go_defs callsOf_def ErrorList_HasError_def staticIgnoreNotFound_def Let_def)
  moreover have "list_ex (podCleanUpFailed (trClient ?r')) (callsOf (TestReconciler_deleted ?r' ?test ?pods) ())"
    by (simp add: TestReconciler_deleted_def cleanUp_def go_defs noDelete_def callsOf_def
        ErrorList_HasError_def ErrorList_Append_def staticIgnoreNotFound_def refused_def notFound_def)
  ultimately show ?thesis
    using test_deletion [OF ign(1), of ?test ?pods "()"] test_deletion [OF ign(2), of ?test ?pods "()"]
    by (simp add: Let_def)
qed

text \<open>
  An error of the patch that removes the finalizer of a deleted Test is not reported: the
  reconciler returns the zero result and no error, so the removal is not retried on its account.
\<close>

theorem test_release_error_lost:
  assumes "TestControllerFinalizer \<in> set (GetFinalizers test)"
    and "\<And>new. doPatch (Tests (trClient r)) new test w = (Inl e, w')"
  shows "resultOf (TestReconciler_deleted r test []) w = (emptyResult, None) \<and>
    callCount patchesTest (callsOf (TestReconciler_deleted r test []) w) = 1"
  using assms
  by (auto simp: TestReconciler_deleted_def TestReconciler_release_def removeFinalizer_def
      go_defs resultOf_def callsOf_def patchesTest_def list_ex_iff Let_def)

theorem test_release_error_lost_witness:
  "let test = sampleTest TestPassed RetainNever; r = sampleTestReconciler test [];
       r' = r\<lparr>trClient := (trClient r)\<lparr>Tests := noPatch (Tests (trClient r))\<rparr>\<rparr>
   in resultOf (TestReconciler_deleted r' test []) () = (emptyResult, None)"
proof -
  let ?test = "sampleTest TestPassed RetainNever"
  let ?r = "sampleTestReconciler ?test []"
  let ?r' = "?r\<lparr>trClient := (trClient ?r)\<lparr>Tests := noPatch (Tests (trClient ?r))\<rparr>\<rparr>"
  have "doPatch (Tests (trClient ?r')) new ?test () = (Inl refused, ())" for new
    by (simp add: noPatch_def)
  then show ?thesis using test_release_error_lost [of ?test ?r' "()" refused "()"]
    by (simp add: Let_def)
qed

text \<open>
  The messages recorded with a verdict: under the name of a container, the message of its last
  terminated status; containers that have not terminated have no message.
\<close>

theorem test_messages:
  "mapLookup (tstMessages (test_Status (passedTest c test pod))) n
     = map_of (rev (terminated (ContainerStatuses (pod_Status pod)))) n \<and>
   mapLookup (tstMessages (test_Status (failedTest c test pod))) n
     = map_of (rev (terminated (ContainerStatuses (pod_Status pod)))) n"
  by (simp add: passedTest_def failedTest_def terminationMessages_lookup split: option.split)

text \<open>
  The pods created for a Test are found again: with \<open>metav1.GetControllerOf\<close> returning the
  owner that is marked as controller, the index maps a created pod to the name of its Test.
\<close>

theorem test_pod_indexed:
  assumes "\<And>p owner. OwnerReferences (Meta p) = [owner] \<Longrightarrow> orController owner = Some True
      \<Longrightarrow> GetControllerOf p = Some owner"
    and "APIVersion test = GroupVersion" and "Kind test = ''Test''"
  shows "TestReconciler_podIndex GetControllerOf (newPod test) = [Name (Meta test)] \<and>
    Namespace (Meta (newPod test)) = Namespace (Meta test)"
proof -
  obtain owner where own: "OwnerReferences (Meta (newPod test)) = [owner]"
    "orController owner = Some True" "orAPIVersion owner = GroupVersion" "orKind owner = ''Test''"
    "orName owner = Name (Meta test)"
    using assms(2,3) by (simp add: newPod_def)
  then show ?thesis using assms(1) [OF own(1,2)]
    by (simp add: TestReconciler_podIndex_def) (simp add: newPod_def)
qed

definition sampleGetControllerOf :: "Pod \<Rightarrow> OwnerReference option" where
  "sampleGetControllerOf p = find (\<lambda>owner. orController owner = Some True) (OwnerReferences (Meta p))"

theorem test_pod_indexed_witness:
  "TestReconciler_podIndex sampleGetControllerOf (newPod (sampleTest TestPending RetainNever)) = [''t'']"
  using test_pod_indexed [of sampleGetControllerOf "sampleTest TestPending RetainNever"]
  by (simp add: sampleGetControllerOf_def)

end
