(* ===== verification/Compaction.thy ===== *)
theory Compaction
  imports Helpers
begin

text \<open>
  The block \<open>Handle deleted tests\<close> of src/controllers/testrun_controller.go, which the test suite
  controller repeats for its test runs: a slice is walked from both ends at once, the objects
  that are being deleted lose the controller's finalizer and are overwritten by objects from
  the end, and the slice is cut.

  The two nested loops are the two functions \<open>compactOuter\<close> and \<open>compactInner\<close>, with the loop
  variables and the slice as arguments. The theorems say that both loops end, that what is left
  is exactly the objects that are not being deleted, and which finalizer the inner loop removes.
\<close>

section \<open>The loops\<close>

function (sequential)
  compactOuter ::
    "('a KObject_scheme \<Rightarrow> Object) \<Rightarrow> ('a KObject_scheme, 'w) ResourceClient \<Rightarrow> string \<Rightarrow> nat \<Rightarrow> nat
      \<Rightarrow> 'a KObject_scheme list \<Rightarrow> ('w Env, error + 'a KObject_scheme list) state"
  and compactInner ::
    "('a KObject_scheme \<Rightarrow> Object) \<Rightarrow> ('a KObject_scheme, 'w) ResourceClient \<Rightarrow> string \<Rightarrow> nat \<Rightarrow> nat
      \<Rightarrow> 'a KObject_scheme list \<Rightarrow> ('w Env, error + 'a KObject_scheme list) state"
where
  "compactOuter toObj rc finalizer i j items =
     (if i < j then
        (if GetDeletionTimestamp (items ! i) \<noteq> None then do {
           ((_, err), obj) \<leftarrow> removeFinalizer toObj rc finalizer (items ! i);
           (case err of
              Some e \<Rightarrow> ret (Inl e)
            | None \<Rightarrow> compactInner toObj rc finalizer i (j - 1) (items[i := obj]))
         }
         else compactOuter toObj rc finalizer (i + 1) j items)
      else ret (Inr items))"
| "compactInner toObj rc finalizer i j items =
     (if i < j then
        (if GetDeletionTimestamp (items ! j) = None
         then compactOuter toObj rc finalizer (i + 1) j (take j (items[i := items ! j]))
         else do {
           ((_, err), obj) \<leftarrow> removeFinalizer toObj rc finalizer (items ! i);
           (case err of
              Some e \<Rightarrow> ret (Inl e)
            | None \<Rightarrow> compactInner toObj rc finalizer i (j - 1) (items[i := obj]))
         })
      else compactOuter toObj rc finalizer (i + 1) j (take j items))"
  by pat_completeness auto

termination
  by (relation "measure (\<lambda>x. case x of
        Inl (_, _, _, i, j, _) \<Rightarrow> 2 * (j - i)
      | Inr (_, _, _, i, j, _) \<Rightarrow> 2 * (j - i) + 1)") auto

declare compactOuter.simps [simp del] compactInner.simps [simp del]

definition handleDeleted ::
  "('a KObject_scheme \<Rightarrow> Object) \<Rightarrow> ('a KObject_scheme, 'w) ResourceClient \<Rightarrow> string
    \<Rightarrow> 'a KObject_scheme list \<Rightarrow> ('w Env, error + 'a KObject_scheme list) state" where
  "handleDeleted toObj rc finalizer items =
     compactOuter toObj rc finalizer 0 (length items) items"

section \<open>What is left\<close>

abbreviation live :: "'a KObject_scheme \<Rightarrow> bool" where
  "live obj \<equiv> GetDeletionTimestamp obj = None"

lemma live_overwrite:
  assumes "i < j" and "j < length items" and "live (items ! j)"
  shows "mset (filter live (take j (items[i := items ! j])))
    = mset (filter live (take i items @ drop (Suc i) (take (Suc j) items)))"
proof -
  have "take j (items[i := items ! j]) = take i items @ items ! j # drop (Suc i) (take j items)"
    using assms by (simp add: take_update_swap upd_conv_take_nth_drop min_def take_Cons' drop_take)
  moreover have "drop (Suc i) (take (Suc j) items) = drop (Suc i) (take j items) @ [items ! j]"
    using assms by (simp add: take_Suc_conv_app_nth)
  ultimately show ?thesis using assms(3) by simp
qed

lemma compact_live:
  "length items = j \<Longrightarrow> \<forall>x \<in> set (take i items). live x \<Longrightarrow>
     returns (compactOuter toObj rc f i j items)
       (\<lambda>x. \<forall>items'. x = Inr items' \<longrightarrow> mset items' = mset (filter live items))"
  "i \<le> j \<Longrightarrow> j < length items \<Longrightarrow> \<forall>x \<in> set (take i items). live x \<Longrightarrow>
     returns (compactInner toObj rc f i j items)
       (\<lambda>x. \<forall>items'. x = Inr items' \<longrightarrow>
          mset items' = mset (filter live (take i items @ drop (Suc i) (take (Suc j) items))))"
proof (induction toObj rc f i j items and toObj rc f i j items
    rule: compactOuter_compactInner.induct)
  case (1 toObj rc f i j items)
  show ?case
  proof (cases "i < j")
    case False
    with "1.prems" have "filter live items = items" by (simp add: filter_id_conv)
    with False show ?thesis by (simp add: compactOuter.simps returns_ret)
  next
    case True
    then have split: "items = take i items @ items ! i # drop (Suc i) items"
      using "1.prems" by (simp add: id_take_nth_drop)
    show ?thesis
    proof (cases "live (items ! i)")
      case True
      with \<open>i < j\<close> "1.prems" have "\<forall>x \<in> set (take (i + 1) items). live x"
        by (simp add: take_Suc_conv_app_nth)
      with "1.IH"(2) \<open>i < j\<close> True "1.prems" show ?thesis
        by (subst compactOuter.simps) simp
    next
      case False
      then have "filter live items = filter live (take i items @ drop (Suc i) items)"
        by (subst split) simp
      moreover have "Suc (j - 1) = j" using \<open>i < j\<close> by simp
      ultimately show ?thesis
        using False \<open>i < j\<close> "1.prems" "1.IH"(1)
        by (subst compactOuter.simps) (auto intro!: returns_bind' return_rules returns_ret)
    qed
  qed
next
  case (2 toObj rc f i j items)
  show ?case
  proof (cases "i < j")
    case False
    then show ?thesis using "2.IH"(3) "2.prems" by (subst compactInner.simps) auto
  next
    case True
    then have pred: "Suc (j - 1) = j" by simp
    show ?thesis
    proof (cases "live (items ! j)")
      case True
      let ?items = "take j (items[i := items ! j])"
      have "\<forall>x \<in> set (take (i + 1) ?items). live x"
        using True \<open>i < j\<close> "2.prems" by (auto simp: take_Suc_conv_app_nth nth_append)
      with True \<open>i < j\<close> "2.prems" "2.IH"(1) show ?thesis
        unfolding live_overwrite [OF \<open>i < j\<close> "2.prems"(2) True, symmetric]
        by (subst compactInner.simps) simp
    next
      case False
      have "filter live (drop (Suc i) (take (Suc j) items)) = filter live (drop (Suc i) (take j items))"
        using False \<open>i < j\<close> "2.prems" by (simp add: take_Suc_conv_app_nth)
      moreover have "drop (Suc i) (take j (items[i := obj])) = drop (Suc i) (take j items)" for obj
        by (simp add: drop_take)
      ultimately show ?thesis
        using False \<open>i < j\<close> "2.prems" "2.IH"(2) pred
        by (subst compactInner.simps) (auto intro!: returns_bind' return_rules returns_ret)
    qed
  qed
qed

section \<open>Which calls it makes\<close>

lemma compact_calls:
  assumes "client_object toObj"
    and "\<And>new obj e. dropsFinalizer f (toObj new) (toObj obj) \<Longrightarrow> P (PatchCall (toObj new) (toObj obj) e)"
  shows "emits' (list_all P) (compactOuter toObj rc f i j items)"
    and "emits' (list_all P) (compactInner toObj rc f i j items)"
  using assms
proof (induction toObj rc f i j items and toObj rc f i j items
    rule: compactOuter_compactInner.induct)
  case (1 toObj rc f i j items)
  then have "emits' (list_all P) (removeFinalizer toObj rc f obj)" for obj
    by (intro client_object.removeFinalizer_calls)
  with 1 show ?case
    by (subst compactOuter.simps) (auto intro!: emit_rules each_call_rules)
next
  case (2 toObj rc f i j items)
  then have "emits' (list_all P) (removeFinalizer toObj rc f obj)" for obj
    by (intro client_object.removeFinalizer_calls)
  with 2 show ?case
    by (subst compactInner.simps) (auto intro!: emit_rules each_call_rules)
qed

lemma handleDeleted_calls:
  assumes "client_object toObj"
    and "\<And>new obj e. dropsFinalizer f (toObj new) (toObj obj) \<Longrightarrow> P (PatchCall (toObj new) (toObj obj) e)"
  shows "emits' (list_all P) (handleDeleted toObj rc f items)"
  using assms by (simp add: handleDeleted_def compact_calls)

lemma handleDeleted_live:
  "returns (handleDeleted toObj rc f items)
     (\<lambda>x. \<forall>items'. x = Inr items' \<longrightarrow> mset items' = mset (filter live items))"
  unfolding handleDeleted_def by (rule compact_live) simp_all

lemma handleDeleted_all_live: "list_all live items \<Longrightarrow> handleDeleted toObj rc f items = ret (Inr items)"
proof -
  assume l: "list_all live items"
  have "compactOuter toObj rc f i (length items) items = ret (Inr items)" for i
  proof (induction "length items - i" arbitrary: i)
    case 0
    then show ?case by (simp add: compactOuter.simps)
  next
    case (Suc n)
    with l show ?case
      by (subst compactOuter.simps) (auto simp: list_all_length)
  qed
  then show ?thesis by (simp add: handleDeleted_def)
qed

section \<open>Properties\<close>

text \<open>
  C9. The compaction terminates, and when no patch fails it leaves exactly the objects that are not
  being deleted, each as often as it was there; when the objects are all of that kind it makes
  no call and keeps their order.
\<close>

theorem compaction_keeps_live:
  "(case resultOf (handleDeleted toObj rc f items) w of
      Inl e \<Rightarrow> True
    | Inr items' \<Rightarrow> mset items' = filter_mset live (mset items)) \<and>
   handleDeleted toObj rc f (filter live items) = ret (Inr (filter live items))"
  using returns_resultOf [OF handleDeleted_live [of toObj rc f items], of w]
  by (auto simp: handleDeleted_all_live list_all_iff split: sum.split)

text \<open>
  C38. The inner loop removes the finalizer of the object to be overwritten once more, not that of
  the deleted object it skips: of two objects that are being deleted only the first is patched, when
  the patch is accepted and its answer no longer has the finalizer, and both are dropped.
\<close>

theorem compaction_skips_finalizer:
  fixes a b :: "'a KObject_scheme" and finalizer :: string
  defines "new \<equiv> a\<lparr>Meta := (Meta a)\<lparr>Finalizers := filter (\<lambda>f. f \<noteq> finalizer) (Finalizers (Meta a))\<rparr>\<rparr>"
  assumes "\<not> live a" and "\<not> live b" and "finalizer \<in> set (GetFinalizers a)"
    and "doPatch rc new a w = (Inr a', w')" and "finalizer \<notin> set (GetFinalizers a')"
  shows "resultOf (handleDeleted toObj rc finalizer [a, b]) w = Inr [] \<and>
    callsOf (handleDeleted toObj rc finalizer [a, b]) w = [PatchCall (toObj new) (toObj a) None]"
  using assms
  by (auto simp: handleDeleted_def compactOuter.simps compactInner.simps removeFinalizer_def
      SetFinalizers_def GetFinalizers_def go_defs resultOf_def callsOf_def list_ex_iff Let_def)

definition deletedSecret :: "string \<Rightarrow> Secret" where
  "deletedSecret n = \<lparr>APIVersion = ''v1'', Kind = ''Secret'',
     Meta = emptyMeta\<lparr>Name := n, DeletionTimestamp := Some 1, Finalizers := [''f'']\<rparr>,
     secret_Type = ''Opaque''\<rparr>"

theorem compaction_skips_finalizer_witness:
  "let a = deletedSecret ''a''; b = deletedSecret ''b''; rc = staticResource ''Secret'' None []
   in resultOf (handleDeleted SecretObj rc ''f'' [a, b]) () = Inr [] \<and>
      callsOf (handleDeleted SecretObj rc ''f'' [a, b]) () = [PatchCall (SecretObj (SetFinalizers [] a)) (SecretObj a) None]"
proof -
  let ?a = "deletedSecret ''a''" and ?b = "deletedSecret ''b''" and ?rc = "staticResource ''Secret'' None []"
  have a: "Finalizers (Meta ?a) = [''f'']" "GetFinalizers ?a = [''f'']" "\<not> live ?a" "\<not> live ?b"
    by (simp_all add: deletedSecret_def GetFinalizers_def GetDeletionTimestamp_def)
  then show ?thesis
    using compaction_skips_finalizer [of ?a ?b "''f''" ?rc "()" "SetFinalizers [] ?a" "()" SecretObj]
    by (simp add: SetFinalizers_def GetFinalizers_def Let_def)
qed

end
