(* ===== verification/TestRun_Controller.thy ===== *)
theory TestRun_Controller
  imports Test_Controller Compaction
begin

text \<open>
  src/controllers/testrun_controller.go: the reconciler of TestRuns. It keeps one Test for each
  template of the run, finds them again by the index in their generated names, and once all of
  them are final records the verdict of the run.

  The loop that maps the Tests to their indices keeps pointers into the slice of Tests; here a
  pointer is the position in the slice, so that the mapped Tests are the ones the slice holds
  when they are read. A slice access that is out of range ends the handler with \<open>Panic\<close>.
\<close>

section \<open>Constants and the reconciler\<close>

definition testIndexKey :: string where "testIndexKey = ''.metadata.controller''"

definition TestRunControllerFinalizer :: string where
  "TestRunControllerFinalizer = GroupName @ ''/testrun-controller''"

definition TestRunStartedCondition :: string where "TestRunStartedCondition = ''RunStarted''"
definition TestRunCompletedCondition :: string where "TestRunCompletedCondition = ''RunCompleted''"

record 'w TestRunReconciler =
  rrClient :: "'w Client"
  rrErrRequeueDelay :: Duration

definition runErrResult :: "'w TestRunReconciler \<Rightarrow> Result" where
  "runErrResult r = \<lparr>Requeue = True, RequeueAfter = rrErrRequeueDelay r\<rparr>"

definition runFails :: "'w TestRunReconciler \<Rightarrow> error \<Rightarrow> Outcome" where
  "runFails r e = Return (runErrResult r) (Some e)"

definition done' :: Outcome where
  "done' = Return emptyResult None"

section \<open>Updates of the status\<close>

definition setRunPhase :: "TestRunPhase \<Rightarrow> string \<Rightarrow> TestRun \<Rightarrow> TestRun" where
  "setRunPhase p msg run =
     run\<lparr>run_Status := (run_Status run)\<lparr>trstPhase := p, trstMessage := msg\<rparr>\<rparr>"

definition setRunCondition ::
  "'w Client \<Rightarrow> string \<Rightarrow> string \<Rightarrow> string \<Rightarrow> string \<Rightarrow> TestRun \<Rightarrow> TestRun" where
  "setRunCondition c ty st reason msg run =
     run\<lparr>run_Status := (run_Status run)\<lparr>trstConditions :=
       SetStatusCondition c (trstConditions (run_Status run))
         (newCondition ty st (Generation (Meta run)) reason msg)\<rparr>\<rparr>"

definition setRunResults :: "TestResult list \<Rightarrow> TestRun \<Rightarrow> TestRun" where
  "setRunResults results run = run\<lparr>run_Status := (run_Status run)\<lparr>trstResults := results\<rparr>\<rparr>"

section \<open>Mapping the Tests\<close>

text \<open>What the loop over the Tests makes of a generated name.\<close>

datatype TestIndex = Index nat | BadIndex string

definition testIndex :: "int \<Rightarrow> string \<Rightarrow> TestIndex" where
  "testIndex maxIndex generateName =
     (let l = length generateName in
      if l \<ge> 4 then
        (case Atoi (slice (l - 2) (l - 1) generateName) of
           Some i \<Rightarrow>
             (if i \<le> maxIndex then Index (nat i) else BadIndex ''test index greater than max'')
         | None \<Rightarrow> BadIndex ''non-integer test index'')
      else BadIndex ''test name does not meet min length'')"

text \<open>
  The loop, from position \<open>k\<close>. The parsed index is used both for the slot and for the position in
  the slice of Tests.
\<close>

function mapTests ::
  "'w TestRunReconciler \<Rightarrow> int \<Rightarrow> nat \<Rightarrow> Test list \<Rightarrow> nat option list
    \<Rightarrow> ('w Env, (Test list \<times> nat option list) Step) state" where
  "mapTests r maxIndex k items mapped =
     (if k < length items then
        (case testIndex maxIndex (GenerateName (Meta (items ! k))) of
           Index i \<Rightarrow>
             (if i < length items then mapTests r maxIndex (k + 1) items (mapped[i := Some i])
              else ret (Exit Panic))
         | BadIndex reason \<Rightarrow> do {
             ((_, err), test) \<leftarrow>
               cleanUp (rrClient r) TestObj (Tests (rrClient r)) TestRunControllerFinalizer (items ! k);
             (case err of
                Some e \<Rightarrow> ret (Exit (runFails r e))
              | None \<Rightarrow> mapTests r maxIndex (k + 1) (items[k := test]) mapped)
           })
      else ret (Next (items, mapped)))"
  by pat_completeness auto

termination
  by (relation "measure (\<lambda>(_, _, k, items, _). length items - k)") auto

declare mapTests.simps [simp del]

section \<open>Ensuring each Test exists\<close>

definition newTest :: "TestRun \<Rightarrow> nat \<Rightarrow> Test" where
  "newTest run i =
     \<lparr>APIVersion = '''', Kind = '''',
      Meta = emptyMeta
        \<lparr>GenerateName := Name (Meta run) @ ''-'' @ Itoa (int i) @ ''-'',
         Namespace := Namespace (Meta run),
         OwnerReferences :=
           [\<lparr>orAPIVersion = APIVersion run, orKind = Kind run, orName = Name (Meta run),
             orUID = UID (Meta run), orController = Some True,
             orBlockOwnerDeletion = Some True\<rparr>],
         Finalizers := [TestControllerFinalizer]\<rparr>,
      test_Spec = \<lparr>tsRetentionPolicy = trsRetentionPolicy (run_Spec run),
        tsTemplate = ttTemplate (trsTests (run_Spec run) ! i)\<rparr>,
      test_Status = \<lparr>tstConditions = [], tstPhase = '''', tstMessages = None\<rparr>\<rparr>"

definition testResult :: "TestRun \<Rightarrow> nat \<Rightarrow> Test \<Rightarrow> TestResult" where
  "testResult run i test =
     \<lparr>resDescription = ttDescription (trsTests (run_Spec run) ! i),
      resPassed = TestPhase_IsSuccess (tstPhase (test_Status test)),
      resTest = Name (Meta test)\<rparr>"

text \<open>
  The loop over the mapped slots, from slot \<open>i\<close>, with its counters. The results it collects are
  the ones it appends to the status of the run.
\<close>

record Tally =
  completions :: int
  passes :: int
  failures :: int
  tallyResults :: "TestResult list"

definition tallyTest :: "TestRun \<Rightarrow> nat \<Rightarrow> Test \<Rightarrow> Tally \<Rightarrow> Tally" where
  "tallyTest run i test t =
     (if TestPhase_IsFinal (tstPhase (test_Status test)) then
        (let t = t\<lparr>completions := completions t + 1,
                   tallyResults := tallyResults t @ [testResult run i test]\<rparr>
         in if TestPhase_IsSuccess (tstPhase (test_Status test))
            then t\<lparr>passes := passes t + 1\<rparr> else t\<lparr>failures := failures t + 1\<rparr>)
      else t)"

fun ensureTests ::
  "'w TestRunReconciler \<Rightarrow> TestRun \<Rightarrow> Test list \<Rightarrow> nat \<Rightarrow> nat option list \<Rightarrow> Tally
    \<Rightarrow> ('w Env, Tally Step) state" where
  "ensureTests r run items i [] t = ret (Next t)"
| "ensureTests r run items i (slot # slots) t =
     (case slot of
        None \<Rightarrow> do {
          created \<leftarrow> Create TestObj (Tests (rrClient r)) (newTest run i);
          (case created of
             Inl e \<Rightarrow> ret (Exit (runFails r e))
           | Inr test \<Rightarrow> do {
               Event (TestRunObj (setRunResults (tallyResults t) run)) ''Normal'' ''CreatedTest''
                 (''Created test '' @ Name (Meta test));
               ensureTests r run items (i + 1) slots t
             })
        }
      | Some k \<Rightarrow> ensureTests r run items (i + 1) slots (tallyTest run i (items ! k) t))"

section \<open>A TestRun that is running\<close>

definition inProgressRun :: "'w Client \<Rightarrow> int \<Rightarrow> Tally \<Rightarrow> TestRun \<Rightarrow> TestRun" where
  "inProgressRun c mappedLen t run =
     setRunCondition c TestRunCompletedCondition ConditionFalse ''TestRunInProgress''
       ''Test run is executing''
     (setRunCondition c TestRunStartedCondition ConditionTrue ''TestRunStarted''
       ''Test run has started''
     (setRunPhase TestRunRunning
       (Itoa (mappedLen - completions t) @ '' test(s) in progress. '' @
        Itoa (passes t) @ '' test(s) passed. '' @ Itoa (failures t) @ '' test(s) failed.'') run))"

definition passedRun :: "'w Client \<Rightarrow> Tally \<Rightarrow> TestRun \<Rightarrow> TestRun" where
  "passedRun c t run =
     (let msg = Itoa (failures t) @ '' of '' @ Itoa (completions t) @ '' tests passed'' in
      setRunCondition c TestRunCompletedCondition ConditionTrue ''TestRunPassed'' msg
        (setRunPhase TestRunPassed msg run))"

definition failedRun :: "'w Client \<Rightarrow> Tally \<Rightarrow> TestRun \<Rightarrow> TestRun" where
  "failedRun c t run =
     (let msg = Itoa (failures t) @ '' of '' @ Itoa (completions t) @ '' tests failed'' in
      setRunCondition c TestRunCompletedCondition ConditionTrue ''TestRunFailed'' msg
        (setRunPhase TestRunFailed msg run))"

definition recordRun ::
  "'w TestRunReconciler \<Rightarrow> TestRun \<Rightarrow> nat \<Rightarrow> Tally \<Rightarrow> ('w Env, Outcome) state" where
  "recordRun r orig mappedLen t =
     (let c = rrClient r; run = setRunResults (tallyResults t) orig in
      if int mappedLen \<noteq> completions t then do {
        (err, _) \<leftarrow> StatusPatch TestRunObj (TestRuns c) (inProgressRun c (int mappedLen) t run) orig;
        (case err of None \<Rightarrow> ret done' | Some e \<Rightarrow> ret (runFails r e))
      }
      else do {
        run \<leftarrow> (if failures t = 0 then do {
                  Event (TestRunObj (passedRun c t run)) ''Normal'' ''TestRunPassed''
                    (trstMessage (run_Status (passedRun c t run)));
                  ret (passedRun c t run)
                }
                else do {
                  Event (TestRunObj (failedRun c t run)) ''Warning'' ''TestRunFailed''
                    (trstMessage (run_Status (failedRun c t run)));
                  ret (failedRun c t run)
                });
        (err, _) \<leftarrow> StatusPatch TestRunObj (TestRuns c) run orig;
        (case err of
           None \<Rightarrow> ret done'
         | Some e \<Rightarrow> (case IgnoreNotFound c (Some e) of
               None \<Rightarrow> ret done'
             | Some e' \<Rightarrow> ret (runFails r e')))
      })"

definition emptyTally :: Tally where
  "emptyTally = \<lparr>completions = 0, passes = 0, failures = 0, tallyResults = []\<rparr>"

definition TestRunReconciler_isRunning ::
  "'w TestRunReconciler \<Rightarrow> TestRun \<Rightarrow> Test list \<Rightarrow> ('w Env, Outcome) state" where
  "TestRunReconciler_isRunning r run tests =
     (let n = length (trsTests (run_Spec run)) in do {
        st \<leftarrow> mapTests r (int n - 1) 0 tests (replicate n None);
        (case st of
           Exit out \<Rightarrow> ret out
         | Next (items, mapped) \<Rightarrow> do {
             st \<leftarrow> ensureTests r run items 0 mapped emptyTally;
             (case st of
                Exit out \<Rightarrow> ret out
              | Next t \<Rightarrow> recordRun r run (length mapped) t)
           })
      })"

section \<open>A TestRun that is final\<close>

definition discardsTests :: "TestRun \<Rightarrow> bool" where
  "discardsTests run \<longleftrightarrow>
     (let policy = trsRetentionPolicy (run_Spec run) in
      policy = RetainNever \<or>
      (policy = RetainOnFailure \<and> trstPhase (run_Status run) = TestRunPassed))"

definition TestRunReconciler_isComplete ::
  "'w TestRunReconciler \<Rightarrow> TestRun \<Rightarrow> Test list \<Rightarrow> ('w Env, Outcome) state" where
  "TestRunReconciler_isComplete r run tests =
     (if discardsTests run then do {
        (_, err) \<leftarrow> cleanUpAll (rrClient r) TestObj (Tests (rrClient r)) TestRunControllerFinalizer tests;
        (case err of Some e \<Rightarrow> ret (runFails r e) | None \<Rightarrow> ret done')
      }
      else ret done')"

section \<open>The handler\<close>

text \<open>An error is ignored when the run no longer exists; otherwise it ends the handler.\<close>

definition runGone :: "'w TestRunReconciler \<Rightarrow> error \<Rightarrow> Outcome" where
  "runGone r e = (case IgnoreNotFound (rrClient r) (Some e) of None \<Rightarrow> done' | Some e' \<Rightarrow> runFails r e')"

definition ensureRunFinalizer ::
  "'w TestRunReconciler \<Rightarrow> TestRun \<Rightarrow> ('w Env, TestRun Step) state" where
  "ensureRunFinalizer r run =
     (if \<not> TestRunPhase_IsFinal (trstPhase (run_Status run)) \<and> GetDeletionTimestamp run = None
      then do {
        ((_, err), run') \<leftarrow>
          addFinalizer TestRunObj (TestRuns (rrClient r)) TestRunControllerFinalizer run;
        (case err of Some e \<Rightarrow> ret (Exit (runGone r e)) | None \<Rightarrow> ret (Next run'))
      }
      else ret (Next run))"

definition ensureStarting :: "'w TestRunReconciler \<Rightarrow> TestRun \<Rightarrow> ('w Env, TestRun Step) state" where
  "ensureStarting r run =
     (if trstPhase (run_Status run) = ''''
      then do {
        (err, run') \<leftarrow> StatusPatch TestRunObj (TestRuns (rrClient r))
          (setRunPhase TestRunStarting ''Test Run is starting'' run) run;
        (case err of
           Some e \<Rightarrow> ret (Exit (runGone r e))
         | None \<Rightarrow> do {
             Event (TestRunObj run') ''Normal'' ''TestRunCreated'' (trstMessage (run_Status run'));
             ret (Next run')
           })
      }
      else ret (Next run))"

definition TestRunReconciler_deleted ::
  "'w TestRunReconciler \<Rightarrow> TestRun \<Rightarrow> Test list \<Rightarrow> ('w Env, Outcome) state" where
  "TestRunReconciler_deleted r run tests =
     (if 0 < length tests then do {
        (_, err) \<leftarrow> cleanUpAll (rrClient r) TestObj (Tests (rrClient r)) TestRunControllerFinalizer tests;
        (case err of Some e \<Rightarrow> ret (runFails r e) | None \<Rightarrow> ret done')
      }
      else do {
        ((_, err), _) \<leftarrow>
          removeFinalizer TestRunObj (TestRuns (rrClient r)) TestRunControllerFinalizer run;
        (case err of Some e \<Rightarrow> ret (runFails r e) | None \<Rightarrow> ret done')
      })"

definition TestRunReconciler_active ::
  "'w TestRunReconciler \<Rightarrow> TestRun \<Rightarrow> Test list \<Rightarrow> ('w Env, Outcome) state" where
  "TestRunReconciler_active r run tests = do {
     left \<leftarrow> handleDeleted TestObj (Tests (rrClient r)) TestRunControllerFinalizer tests;
     (case left of
        Inl e \<Rightarrow> ret (runFails r e)
      | Inr tests \<Rightarrow>
          (if TestRunPhase_IsFinal (trstPhase (run_Status run))
           then TestRunReconciler_isComplete r run tests
           else TestRunReconciler_isRunning r run tests))
   }"

definition TestRunReconciler_Reconcile ::
  "'w TestRunReconciler \<Rightarrow> NamespacedName \<Rightarrow> ('w Env, Outcome) state" where
  "TestRunReconciler_Reconcile r req = do {
     got \<leftarrow> Get (TestRuns (rrClient r)) req;
     (case got of
        Inl e \<Rightarrow> ret (runGone r e)
      | Inr run \<Rightarrow> do {
          listed \<leftarrow> ListObjs (Tests (rrClient r))
            [InNamespace (nnNamespace req), MatchingFields testIndexKey (nnName req)];
          (case listed of
             Inl e \<Rightarrow> ret (Return emptyResult (Some e))
           | Inr tests \<Rightarrow> do {
               st \<leftarrow> ensureRunFinalizer r run;
               (case st of
                  Exit out \<Rightarrow> ret out
                | Next run \<Rightarrow> do {
                    st \<leftarrow> ensureStarting r run;
                    (case st of
                       Exit out \<Rightarrow> ret out
                     | Next run \<Rightarrow>
                         (if GetDeletionTimestamp run \<noteq> None
                          then TestRunReconciler_deleted r run tests
                          else TestRunReconciler_active r run tests))
                  })
             })
        })
   }"

definition TestRunReconciler_testIndex :: "(Test \<Rightarrow> OwnerReference option) \<Rightarrow> Test \<Rightarrow> string list" where
  "TestRunReconciler_testIndex GetControllerOf test =
     (case GetControllerOf test of
        None \<Rightarrow> []
      | Some owner \<Rightarrow>
          (if orAPIVersion owner = GroupVersion \<and> orKind owner = ''TestRun'' then [orName owner]
           else []))"

section \<open>The index in a name\<close>

lemma Atoi_single: "Atoi [ch] = map_option int (digitVal ch)"
proof -
  have "digitVal ch = Some d \<Longrightarrow> d \<le> 9" for d
    by (auto simp: digitVal_def Let_def split: if_splits)
  moreover have "digitVal (CHR ''-'') = None" "digitVal (CHR ''+'') = None"
    by (simp_all add: digitVal_def)
  ultimately show ?thesis
    by (cases "digitVal ch") (fastforce simp: Atoi_def Let_def)+
qed

lemma slice_last_but_one:
  "2 \<le> length s \<Longrightarrow> slice (length s - 2) (length s - 1) s = [s ! (length s - 2)]"
  by (simp add: slice_def take_Suc_conv_app_nth numeral_2_eq_2 Suc_diff_Suc)

lemma testIndex_cases:
  "testIndex m s =
     (if length s < 4 then BadIndex ''test name does not meet min length''
      else case digitVal (s ! (length s - 2)) of
          None \<Rightarrow> BadIndex ''non-integer test index''
        | Some d \<Rightarrow> if int d \<le> m then Index d else BadIndex ''test index greater than max'')"
proof (cases "length s < 4")
  case False
  then have "slice (length s - 2) (length s - 1) s = [s ! (length s - 2)]"
    by (intro slice_last_but_one) simp
  with False show ?thesis
    by (cases "digitVal (s ! (length s - 2))") (simp_all add: testIndex_def Let_def Atoi_single)
qed (simp add: testIndex_def)

lemma testIndex_bound: "testIndex m s = Index i \<Longrightarrow> i \<le> 9 \<and> int i \<le> m"
  by (auto simp: testIndex_cases digitVal_def Let_def split: if_splits option.splits)

lemma Itoa_zero: "Itoa 0 = ''0''"
  by code_simp

lemma Itoa_nat: "Itoa (int i) = Utoa i"
  by (simp add: Itoa_def)

lemma testIndex_newTest:
  assumes "Name (Meta run) \<noteq> ''''" and "int (i mod 10) \<le> m"
  shows "testIndex m (GenerateName (Meta (newTest run i))) = Index (i mod 10)"
proof -
  let ?u = "Utoa i"
  let ?s = "GenerateName (Meta (newTest run i))"
  have s: "?s = (Name (Meta run) @ ''-'' @ butlast ?u) @ [last ?u] @ ''-''"
    by (simp add: newTest_def Itoa_nat)
  have "0 < length ?u" "0 < length (Name (Meta run))" using assms by simp_all
  then have "length ?s \<ge> 4" unfolding s by (simp del: length_greater_0_conv)
  moreover have "?s ! (length ?s - 2) = last ?u" unfolding s by (simp add: nth_append)
  ultimately show ?thesis using assms by (simp add: testIndex_cases last_Utoa)
qed

section \<open>The loops\<close>

text \<open>Only the slots of the ten digits are ever filled.\<close>

definition slotsOk :: "nat option list \<Rightarrow> bool" where
  "slotsOk mapped \<longleftrightarrow> (\<forall>i < length mapped. mapped ! i \<noteq> None \<longrightarrow> i \<le> 9)"

lemma mapTests_result:
  "slotsOk mapped \<Longrightarrow> returns (mapTests r m k items mapped)
     (\<lambda>st. \<forall>items' mapped'. st = Next (items', mapped') \<longrightarrow>
        length mapped' = length mapped \<and> slotsOk mapped')"
proof (induction r m k items mapped rule: mapTests.induct)
  case (1 r m k items mapped)
  have "slotsOk (mapped[i := Some i])" if "testIndex m s = Index i" for i s
    using "1.prems" testIndex_bound [OF that]
    unfolding slotsOk_def by (metis length_list_update nth_list_update_neq)
  with 1 show ?case
    by (subst mapTests.simps)
       (auto intro!: return_rules returns_bind' returns_ret split: TestIndex.split)
qed

definition tallied :: "TestRun \<Rightarrow> nat \<Rightarrow> Tally \<Rightarrow> bool" where
  "tallied run i t \<longleftrightarrow>
     completions t = int (length (tallyResults t)) \<and>
     passes t = int (length (filter resPassed (tallyResults t))) \<and>
     failures t = int (length (filter (\<lambda>x. \<not> resPassed x) (tallyResults t))) \<and>
     length (tallyResults t) \<le> i \<and>
     (length (tallyResults t) = i \<longrightarrow>
        map resDescription (tallyResults t) = map ttDescription (take i (trsTests (run_Spec run))))"

lemma tallyResults_empty [simp]: "tallyResults emptyTally = []"
  by (simp add: emptyTally_def)

lemma tallied_empty [simp]: "tallied run 0 emptyTally"
  by (simp add: tallied_def emptyTally_def)

lemma tallied_skip: "tallied run i t \<Longrightarrow> tallied run (Suc i) t"
  by (simp add: tallied_def)

lemma tallied_tallyTest:
  assumes "tallied run i t" and "i < length (trsTests (run_Spec run))"
  shows "tallied run (Suc i) (tallyTest run i test t)"
  using assms
  by (auto simp: tallied_def tallyTest_def testResult_def Let_def take_Suc_conv_app_nth)

text \<open>After the loop the tally covers the slots, and it misses one when a slot was empty.\<close>

lemma ensureTests_result:
  assumes "tallied run i t" and "i + length slots \<le> length (trsTests (run_Spec run))"
  shows "returns (ensureTests r run items i slots t)
     (\<lambda>st. \<forall>t'. st = Next t' \<longrightarrow> tallied run (i + length slots) t' \<and>
        (None \<in> set slots \<or> length (tallyResults t) < i \<longrightarrow>
           length (tallyResults t') < i + length slots))"
  using assms
proof (induction slots arbitrary: i t)
  case Nil
  then show ?case by (simp add: returns_ret)
next
  case (Cons slot slots)
  then have lt: "length (tallyResults t) \<le> i" by (simp add: tallied_def)
  show ?case
  proof (cases slot)
    case None
    with Cons.IH [of "Suc i" t] Cons.prems lt show ?thesis
      by (auto simp: tallied_skip intro!: returns_bind' return_rules returns_ret)
  next
    case (Some k)
    let ?t = "tallyTest run i (items ! k) t"
    have "length (tallyResults ?t) \<le> Suc (length (tallyResults t))"
      by (simp add: tallyTest_def Let_def)
    with Cons.IH [of "Suc i" ?t] Cons.prems lt Some show ?thesis
      by (auto simp: tallied_tallyTest returns_def)
  qed
qed

section \<open>What the handler writes\<close>

definition runTransition :: "TestRunPhase \<Rightarrow> TestRunPhase \<Rightarrow> bool" where
  "runTransition p q \<longleftrightarrow>
     \<not> TestRunPhase_IsFinal p \<and>
     (p = '''' \<and> q = TestRunStarting \<or> q = TestRunRunning \<or> q = TestRunPassed \<or> q = TestRunFailed)"

definition runStatusOnly :: "TestRun \<Rightarrow> TestRun \<Rightarrow> bool" where
  "runStatusOnly new orig \<longleftrightarrow>
     APIVersion new = APIVersion orig \<and> Kind new = Kind orig \<and> Meta new = Meta orig \<and>
     run_Spec new = run_Spec orig"

text \<open>A run that is Passed or Failed for a reason: a result for each template, in order.\<close>

definition verdictSound :: "TestRun \<Rightarrow> bool" where
  "verdictSound run \<longleftrightarrow>
     (let results = trstResults (run_Status run); phase = trstPhase (run_Status run) in
      TestRunPhase_IsFinal phase \<longrightarrow>
        map resDescription results = map ttDescription (trsTests (run_Spec run)) \<and>
        (phase = TestRunPassed \<longleftrightarrow> list_all resPassed results))"

definition atMostTen :: "TestRun \<Rightarrow> bool" where
  "atMostTen run \<longleftrightarrow>
     (TestRunPhase_IsFinal (trstPhase (run_Status run)) \<longrightarrow> length (trsTests (run_Spec run)) \<le> 10)"

definition verdictMessage :: "TestRun \<Rightarrow> bool" where
  "verdictMessage run \<longleftrightarrow>
     (let results = trstResults (run_Status run); phase = trstPhase (run_Status run);
          n = Itoa (int (length (trsTests (run_Spec run))))
      in (phase = TestRunPassed \<longrightarrow> trstMessage (run_Status run) = ''0 of '' @ n @ '' tests passed'') \<and>
         (phase = TestRunFailed \<longrightarrow> trstMessage (run_Status run) =
            Itoa (int (length (filter (\<lambda>x. \<not> resPassed x) results))) @ '' of '' @ n @ '' tests failed''))"

definition runStatusWrite :: "TestRun \<Rightarrow> TestRun \<Rightarrow> bool" where
  "runStatusWrite new orig \<longleftrightarrow>
     runTransition (trstPhase (run_Status orig)) (trstPhase (run_Status new)) \<and>
     runStatusOnly new orig \<and> verdictSound new \<and> atMostTen new \<and> verdictMessage new"

lemma run_update_simps [simp]:
  "trstPhase (run_Status (setRunPhase p msg run)) = p"
  "trstMessage (run_Status (setRunPhase p msg run)) = msg"
  "trstResults (run_Status (setRunPhase p msg run)) = trstResults (run_Status run)"
  "trstPhase (run_Status (setRunCondition c ty st re msg run)) = trstPhase (run_Status run)"
  "trstMessage (run_Status (setRunCondition c ty st re msg run)) = trstMessage (run_Status run)"
  "trstResults (run_Status (setRunCondition c ty st re msg run)) = trstResults (run_Status run)"
  "trstResults (run_Status (setRunResults rs run)) = rs"
  "trstPhase (run_Status (setRunResults rs run)) = trstPhase (run_Status run)"
  by (simp_all add: setRunPhase_def setRunCondition_def setRunResults_def)

lemma run_spec_simps [simp]:
  "run_Spec (setRunPhase p msg run) = run_Spec run"
  "run_Spec (setRunCondition c ty st re msg run) = run_Spec run"
  "run_Spec (setRunResults rs run) = run_Spec run"
  by (simp_all add: setRunPhase_def setRunCondition_def setRunResults_def)

lemma runStatusOnly_updates [simp]:
  "runStatusOnly run run"
  "runStatusOnly (setRunPhase p msg run) orig = runStatusOnly run orig"
  "runStatusOnly (setRunCondition c ty st re msg run) orig = runStatusOnly run orig"
  "runStatusOnly (setRunResults rs run) orig = runStatusOnly run orig"
  by (simp_all add: runStatusOnly_def setRunPhase_def setRunCondition_def setRunResults_def)

lemma runStatusWrite_starting:
  "trstPhase (run_Status run) = '''' \<Longrightarrow> runStatusWrite (setRunPhase TestRunStarting msg run) run"
  by (simp add: runStatusWrite_def runTransition_def verdictSound_def atMostTen_def
      verdictMessage_def Let_def)

lemma runStatusWrite_progress:
  "\<not> TestRunPhase_IsFinal (trstPhase (run_Status run)) \<Longrightarrow>
   runStatusWrite (inProgressRun c n t (setRunResults rs run)) run"
  by (simp add: inProgressRun_def runStatusWrite_def runTransition_def verdictSound_def
      atMostTen_def verdictMessage_def Let_def)

text \<open>What is known of the tally when the verdict is recorded.\<close>

definition fullTally :: "TestRun \<Rightarrow> Tally \<Rightarrow> bool" where
  "fullTally run t \<longleftrightarrow>
     tallied run (length (trsTests (run_Spec run))) t \<and>
     (length (tallyResults t) = length (trsTests (run_Spec run))
        \<longrightarrow> length (trsTests (run_Spec run)) \<le> 10)"

lemma no_failures:
  "(filter (\<lambda>x. \<not> resPassed x) rs = []) = list_all resPassed rs"
  by (simp add: filter_empty_conv list_all_iff)

lemma runStatusWrite_verdict:
  assumes "\<not> TestRunPhase_IsFinal (trstPhase (run_Status run))" and "fullTally run t"
    and "completions t = int (length (trsTests (run_Spec run)))"
  shows "failures t = 0 \<Longrightarrow> runStatusWrite (passedRun c t (setRunResults (tallyResults t) run)) run"
    and "failures t \<noteq> 0 \<Longrightarrow> runStatusWrite (failedRun c t (setRunResults (tallyResults t) run)) run"
  using assms
  by (auto simp: passedRun_def failedRun_def runStatusWrite_def runTransition_def verdictSound_def
      atMostTen_def verdictMessage_def fullTally_def tallied_def Let_def no_failures Itoa_zero)

text \<open>
  A property of single calls holds of every call of the handler when it holds of the calls
  the handler makes on Tests and on its own run.
\<close>

locale run_invariant =
  fixes I :: "TestRun \<Rightarrow> bool"
    and r :: "'w TestRunReconciler"
    and req :: NamespacedName
  assumes I_get: "doGet (TestRuns (rrClient r)) req w = (Inr run, w') \<Longrightarrow> I run"
    and I_patch: "I new \<Longrightarrow> doPatch (TestRuns (rrClient r)) new orig w = (Inr run, w') \<Longrightarrow> I run"
    and I_status: "I new \<Longrightarrow> doStatusPatch (TestRuns (rrClient r)) new orig w = (Inr run, w') \<Longrightarrow> I run"
    and I_finalizers: "I run \<Longrightarrow> I (SetFinalizers fs run)"
    and I_starting: "I run \<Longrightarrow> I (setRunPhase TestRunStarting msg run)"
begin

lemma ensureRunFinalizer_keeps:
  "I run \<Longrightarrow> returns (ensureRunFinalizer r run) (stepOk I (\<lambda>_. True))"
  unfolding ensureRunFinalizer_def
  by (intro return_rules returns_bind [OF addFinalizer_returns [where I = I]])
     (auto intro!: return_rules returns_ret intro: I_finalizers I_patch)

lemma ensureStarting_keeps:
  "I run \<Longrightarrow> returns (ensureStarting r run) (stepOk I (\<lambda>_. True))"
  unfolding ensureStarting_def
  by (intro return_rules returns_bind [OF StatusPatch_returns [where I = I]])
     (auto intro!: return_rules returns_ret returns_bind' intro: I_starting I_status)

end

locale run_call_property = run_invariant I r req
  for I and r :: "'w TestRunReconciler" and req +
  fixes P :: "Call \<Rightarrow> bool"
  assumes P_read: "P (GetCall (rcKind (TestRuns (rrClient r))) req)"
      "P (ListCall (rcKind (Tests (rrClient r)))
        [InNamespace (nnNamespace req), MatchingFields testIndexKey (nnName req)])"
    and P_event: "P (EventCall (TestRunObj run) ty reason msg)"
    and P_cleanUp: "cleanUpCall TestRunControllerFinalizer (TestObj test) call \<Longrightarrow> P call"
    and P_drop: "I run \<Longrightarrow> dropsFinalizer TestRunControllerFinalizer (TestRunObj new) (TestRunObj run)
      \<Longrightarrow> P (PatchCall (TestRunObj new) (TestRunObj run) e)"
    and P_add: "I run \<Longrightarrow> addsFinalizer TestRunControllerFinalizer (TestRunObj new) (TestRunObj run)
      \<Longrightarrow> GetDeletionTimestamp run = None \<Longrightarrow> P (PatchCall (TestRunObj new) (TestRunObj run) e)"
    and P_create: "I run \<Longrightarrow> \<not> TestRunPhase_IsFinal (trstPhase (run_Status run))
      \<Longrightarrow> i < length (trsTests (run_Spec run)) \<Longrightarrow> P (CreateCall (TestObj (newTest run i)) e)"
    and P_status: "I run \<Longrightarrow> runStatusWrite new run
      \<Longrightarrow> P (StatusPatchCall (TestRunObj new) (TestRunObj run) e)"
begin

lemma mapTests_calls: "emits' (list_all P) (mapTests r m k items mapped)"
proof (induction r m k items mapped rule: mapTests.induct)
  case (1 r m k items mapped)
  have "emits' (list_all P) (cleanUp c TestObj rc TestRunControllerFinalizer t)" for c :: "'w Client" and rc t
    by (intro test_object.cleanUp_calls) (rule P_cleanUp)
  with 1 show ?case
    by (subst mapTests.simps) (auto intro!: emit_rules each_call_rules split: TestIndex.split)
qed

lemma ensureTests_calls:
  assumes "I run" and "\<not> TestRunPhase_IsFinal (trstPhase (run_Status run))"
    and "i + length slots \<le> length (trsTests (run_Spec run))"
  shows "emits' (list_all P) (ensureTests r run items i slots t)"
  using assms
proof (induction slots arbitrary: i t)
  case Nil
  then show ?case by (simp add: each_call.emits_ret)
next
  case (Cons slot slots)
  then show ?case
    by (auto intro!: emit_rules each_call_rules simp: P_event P_create)
qed

lemma recordRun_calls:
  assumes "I run" and "\<not> TestRunPhase_IsFinal (trstPhase (run_Status run))" and "fullTally run t"
    and "n = length (trsTests (run_Spec run))"
  shows "emits' (list_all P) (recordRun r run n t)"
  unfolding recordRun_def
  by (intro emit_rules each_call.emits_StatusPatch each_call.emits_ret each_call.emits_bind'
        each_call.emits_bind [where S = "\<lambda>new. runStatusWrite new run"] each_call.emits_Event)
     (use assms in \<open>auto intro!: P_status P_event runStatusWrite_progress runStatusWrite_verdict\<close>)

lemma isRunning_calls:
  assumes "I run" and "\<not> TestRunPhase_IsFinal (trstPhase (run_Status run))"
  shows "emits' (list_all P) (TestRunReconciler_isRunning r run tests)"
proof -
  let ?n = "length (trsTests (run_Spec run))"
  have "slotsOk (replicate ?n None)" by (simp add: slotsOk_def)
  note mapped = emits_returns [OF mapTests_calls mapTests_result [OF this]]
  have tally: "emits (list_all P) (ensureTests r run items 0 mapped emptyTally)
      (\<lambda>st. \<forall>t. st = Next t \<longrightarrow> fullTally run t)"
    if "length mapped = ?n" "slotsOk mapped" for items mapped
  proof -
    have "None \<in> set mapped" if "10 < ?n"
    proof -
      have "mapped ! 10 = None"
        using that \<open>slotsOk mapped\<close> \<open>length mapped = ?n\<close>
        by (cases "mapped ! 10") (auto simp: slotsOk_def)
      with that show ?thesis using nth_mem [of 10 mapped] \<open>length mapped = ?n\<close> by simp
    qed
    then have "returns (ensureTests r run items 0 mapped emptyTally)
        (\<lambda>st. \<forall>t. st = Next t \<longrightarrow> fullTally run t)"
      using that ensureTests_result [of run 0 emptyTally mapped r items]
      by (fastforce simp: fullTally_def intro: returns_mono)
    with assms that show ?thesis
      by (intro emits_returns [OF ensureTests_calls]) simp_all
  qed
  show ?thesis
    unfolding TestRunReconciler_isRunning_def Let_def
    by (rule each_call.emits_bind [OF mapped])
       (auto intro!: emit_rules each_call.emits_ret each_call.emits_bind [OF tally] recordRun_calls assms)
qed

lemma cleanUpTests_calls:
  "emits' (list_all P) (cleanUpAll c TestObj rc TestRunControllerFinalizer tests)"
  by (intro test_object.cleanUpAll_calls) (rule P_cleanUp)

lemma isComplete_calls: "emits' (list_all P) (TestRunReconciler_isComplete r run tests)"
  unfolding TestRunReconciler_isComplete_def
  by (intro emit_rules each_call_rules cleanUpTests_calls) simp_all

lemma deleted_calls: "I run \<Longrightarrow> emits' (list_all P) (TestRunReconciler_deleted r run tests)"
  unfolding TestRunReconciler_deleted_def
  by (intro emit_rules each_call_rules cleanUpTests_calls run_object.removeFinalizer_calls)
     (simp_all add: P_drop)

lemma active_calls: "I run \<Longrightarrow> emits' (list_all P) (TestRunReconciler_active r run tests)"
  unfolding TestRunReconciler_active_def
  by (intro emit_rules each_call_rules isComplete_calls isRunning_calls
        handleDeleted_calls [OF test_object.client_object_axioms])
     (auto intro: P_cleanUp)

lemma ensureRunFinalizer_calls:
  "I run \<Longrightarrow> emits (list_all P) (ensureRunFinalizer r run) (stepOk I (\<lambda>_. True))"
proof (rule emits_returns [OF _ ensureRunFinalizer_keeps])
  assume "I run"
  then show "emits' (list_all P) (ensureRunFinalizer r run)"
    unfolding ensureRunFinalizer_def
    by (intro emit_rules each_call_rules run_object.addFinalizer_calls) (simp_all add: P_add)
qed

lemma ensureStarting_calls:
  "I run \<Longrightarrow> emits (list_all P) (ensureStarting r run) (stepOk I (\<lambda>_. True))"
proof (rule emits_returns [OF _ ensureStarting_keeps])
  assume "I run"
  then show "emits' (list_all P) (ensureStarting r run)"
    unfolding ensureStarting_def
    by (intro emit_rules each_call_rules) (simp_all add: P_status P_event runStatusWrite_starting)
qed

lemma Reconcile_calls: "emits' (list_all P) (TestRunReconciler_Reconcile r req)"
  unfolding TestRunReconciler_Reconcile_def
proof (rule each_call.emits_bind)
  show "emits (list_all P) (Get (TestRuns (rrClient r)) req) (answers I)"
    by (intro emits_returns [OF each_call.emits_Get Get_returns]) (auto intro: P_read I_get)
qed (auto intro!: emit_rules each_call_rules each_call.emits_bind [OF ensureRunFinalizer_calls]
       each_call.emits_bind [OF ensureStarting_calls] deleted_calls active_calls
     simp: P_read)

end

definition runStatusCall :: "(TestRun \<Rightarrow> TestRun \<Rightarrow> bool) \<Rightarrow> Call \<Rightarrow> bool" where
  "runStatusCall S call =
     (case call of
        StatusPatchCall (TestRunObj new) (TestRunObj orig) e \<Rightarrow> S new orig
      | StatusPatchCall _ _ e \<Rightarrow> False
      | _ \<Rightarrow> True)"

lemma runStatusCall_mono: "runStatusCall S call \<Longrightarrow> (\<And>x y. S x y \<Longrightarrow> T x y) \<Longrightarrow> runStatusCall T call"
  by (auto simp: runStatusCall_def split: Call.splits Object.splits)

text \<open>The Tests the controller may create: one owner, which controls them, and no verdict yet.\<close>

definition runTest :: "Test \<Rightarrow> bool" where
  "runTest t \<longleftrightarrow>
     Name (Meta t) = '''' \<and> Finalizers (Meta t) = [TestControllerFinalizer] \<and>
     DeletionTimestamp (Meta t) = None \<and> tstPhase (test_Status t) = '''' \<and>
     (case OwnerReferences (Meta t) of
        [owner] \<Rightarrow> orController owner = Some True \<and> orBlockOwnerDeletion owner = Some True
      | _ \<Rightarrow> False)"

text \<open>What the controller may create, patch outside the status, and delete.\<close>

definition runObjectWrite :: "Call \<Rightarrow> bool" where
  "runObjectWrite call =
     (case call of
        CreateCall (TestObj t) e \<Rightarrow> runTest t
      | CreateCall _ e \<Rightarrow> False
      | PatchCall (TestRunObj new) (TestRunObj orig) e \<Rightarrow>
          dropsFinalizer TestRunControllerFinalizer (TestRunObj new) (TestRunObj orig) \<or>
          addsFinalizer TestRunControllerFinalizer (TestRunObj new) (TestRunObj orig) \<and>
            GetDeletionTimestamp orig = None
      | PatchCall new orig e \<Rightarrow> dropsFinalizer TestRunControllerFinalizer new orig
      | DeleteCall (TestObj t) e \<Rightarrow> GetDeletionTimestamp t = None
      | DeleteCall _ e \<Rightarrow> False
      | _ \<Rightarrow> True)"

interpretation run_status_write: run_call_property "\<lambda>_. True" r req "runStatusCall runStatusWrite"
  for r req
  by unfold_locales (auto simp: runStatusCall_def elim!: cleanUpCall.elims)

lemma cleanUpCall_runObjectWrite:
  "cleanUpCall TestRunControllerFinalizer (TestObj test) call \<Longrightarrow> runObjectWrite call"
  by (cases call) (auto simp: runObjectWrite_def GetDeletionTimestamp_def split: Object.splits)

interpretation run_object_write: run_call_property "\<lambda>_. True" r req runObjectWrite for r req
  by (unfold_locales; (erule cleanUpCall_runObjectWrite
        | simp add: runObjectWrite_def runTest_def newTest_def emptyMeta_def))

section \<open>The mapping of the Tests\<close>

abbreviation indexOf :: "TestRun \<Rightarrow> Test \<Rightarrow> TestIndex" where
  "indexOf run test \<equiv> testIndex (int (length (trsTests (run_Spec run))) - 1) (GenerateName (Meta test))"

lemma mapTests_in_order:
  assumes "\<forall>i < length items. testIndex m (GenerateName (Meta (items ! i))) = Index i"
    and "length items \<le> length mapped" and "k \<le> length items"
  shows "mapTests r m k items mapped =
    ret (Next (items, take k mapped @ map Some [k..<length items] @ drop (length items) mapped))"
  using assms
proof (induction "length items - k" arbitrary: k mapped)
  case 0
  then show ?case by (simp add: mapTests.simps)
next
  case (Suc n)
  then have "k < length items" by simp
  with Suc have "mapTests r m (k + 1) items (mapped[k := Some k]) =
      ret (Next (items, take (Suc k) (mapped[k := Some k]) @ map Some [Suc k..<length items] @
        drop (length items) (mapped[k := Some k])))"
    using Suc.hyps(1) [of "k + 1" "mapped[k := Some k]"] by simp
  moreover have "take (Suc k) (mapped[k := Some k]) = take k mapped @ [Some k]"
    using \<open>k < length items\<close> Suc.prems by (simp add: take_Suc_conv_app_nth)
  ultimately show ?case
    using \<open>k < length items\<close> Suc.prems by (subst mapTests.simps) (simp add: upt_conv_Cons)
qed

lemma mapTests_no_panic:
  assumes "\<forall>i. k \<le> i \<longrightarrow> i < length items \<longrightarrow>
      (\<forall>j. testIndex m (GenerateName (Meta (items ! i))) = Index j \<longrightarrow> j < length items)"
  shows "returns (mapTests r m k items mapped) (\<lambda>st. st \<noteq> Exit Panic)"
  using assms
proof (induction r m k items mapped rule: mapTests.induct)
  case (1 r m k items mapped)
  have "\<forall>i. Suc k \<le> i \<longrightarrow> i < length items \<longrightarrow>
      (\<forall>j. testIndex m (GenerateName (Meta (items ! i))) = Index j \<longrightarrow> j < length items)"
    using "1.prems" Suc_leD by blast
  with 1 show ?case
    by (subst mapTests.simps)
       (auto simp: runFails_def intro!: return_rules returns_bind' returns_ret split: TestIndex.split)
qed

lemma ensureTests_no_panic: "returns (ensureTests r run items i slots t) (\<lambda>st. st \<noteq> Exit Panic)"
proof (induction slots arbitrary: i t)
  case Nil
  show ?case by (simp add: returns_ret)
next
  case (Cons slot slots)
  then show ?case
    by (auto simp: runFails_def intro!: return_rules returns_bind' returns_ret)
qed

lemma recordRun_no_panic: "returns (recordRun r run n t) (\<lambda>out. out \<noteq> Panic)"
  unfolding recordRun_def
  by (intro return_rules returns_bind' returns_ret) (simp_all add: runFails_def done'_def)

lemma run_isRunning_no_panic:
  assumes "list_all (\<lambda>t. case indexOf run t of Index i \<Rightarrow> i < length tests | BadIndex _ \<Rightarrow> True) tests"
  shows "returns (TestRunReconciler_isRunning r run tests) (\<lambda>out. out \<noteq> Panic)"
proof -
  let ?n = "length (trsTests (run_Spec run))"
  have "returns (mapTests r (int ?n - 1) 0 tests (replicate ?n None)) (\<lambda>st. st \<noteq> Exit Panic)"
    using assms by (intro mapTests_no_panic) (auto simp: list_all_length split: TestIndex.splits)
  then show ?thesis
    unfolding TestRunReconciler_isRunning_def Let_def
    by (rule returns_bind)
       (auto intro!: return_rules returns_ret returns_bind [OF ensureTests_no_panic]
         recordRun_no_panic)
qed

section \<open>A run whose Tests are all final\<close>

definition runResults :: "TestRun \<Rightarrow> Test list \<Rightarrow> nat \<Rightarrow> nat \<Rightarrow> TestResult list" where
  "runResults run tests i n = map (\<lambda>k. testResult run k (tests ! k)) [i..<n]"

lemma tallyTest_final:
  "TestPhase_IsFinal (tstPhase (test_Status test)) \<Longrightarrow>
   tallyResults (tallyTest run i test t) = tallyResults t @ [testResult run i test]"
  by (simp add: tallyTest_def Let_def)

lemma ensureTests_all_final:
  assumes "\<forall>k < n. TestPhase_IsFinal (tstPhase (test_Status (items ! k)))"
    and "n \<le> length (trsTests (run_Spec run))" and "i \<le> n" and "tallied run i t"
  shows "\<exists>t'. ensureTests r run items i (map Some [i..<n]) t = ret (Next t') \<and>
    tallyResults t' = tallyResults t @ runResults run items i n \<and> tallied run n t'"
  using assms
proof (induction "n - i" arbitrary: i t)
  case 0
  then show ?case by (intro exI [of _ t]) (simp add: runResults_def)
next
  case (Suc m)
  then have "i < n" by simp
  then have upt: "[i..<n] = i # [Suc i..<n]" by (rule upt_conv_Cons)
  let ?t = "tallyTest run i (items ! i) t"
  have "tallied run (Suc i) ?t" using Suc.prems \<open>i < n\<close> by (intro tallied_tallyTest) simp_all
  moreover have "m = n - Suc i" using Suc.hyps(2) by simp
  ultimately obtain t' where "ensureTests r run items (Suc i) (map Some [Suc i..<n]) ?t = ret (Next t')"
    "tallyResults t' = tallyResults ?t @ runResults run items (Suc i) n" "tallied run n t'"
    using Suc.hyps(1) [of "Suc i" ?t] Suc.prems \<open>i < n\<close> by auto
  moreover have "tallyResults ?t = tallyResults t @ [testResult run i (items ! i)]"
    using Suc.prems \<open>i < n\<close> by (simp add: tallyTest_final)
  ultimately show ?case by (intro exI [of _ t']) (simp add: upt runResults_def)
qed

text \<open>The run as it is recorded.\<close>

definition verdictRun :: "'w Client \<Rightarrow> Tally \<Rightarrow> TestRun \<Rightarrow> TestRun" where
  "verdictRun c t run = (if failures t = 0 then passedRun c t run else failedRun c t run)"

lemma verdictRun_simps:
  "trstResults (run_Status (verdictRun c t run)) = trstResults (run_Status run)"
  "trstPhase (run_Status (verdictRun c t run))
     = (if failures t = 0 then TestRunPassed else TestRunFailed)"
  by (simp_all add: verdictRun_def passedRun_def failedRun_def Let_def)

lemma recordRun_verdict:
  assumes "completions t = int n"
    and "\<And>new. \<exists>run' w'. doStatusPatch (TestRuns (rrClient r)) new run w = (Inr run', w')"
  shows "\<exists>ty reason msg. let new = verdictRun (rrClient r) t (setRunResults (tallyResults t) run) in
    fst (run_state (recordRun r run n t) \<lparr>cluster = w, trace = []\<rparr>) = done' \<and>
    trace (snd (run_state (recordRun r run n t) \<lparr>cluster = w, trace = []\<rparr>)) =
      [EventCall (TestRunObj new) ty reason msg, StatusPatchCall (TestRunObj new) (TestRunObj run) None]"
proof -
  let ?new = "verdictRun (rrClient r) t (setRunResults (tallyResults t) run)"
  obtain run' w' where p: "doStatusPatch (TestRuns (rrClient r)) ?new run w = (Inr run', w')"
    using assms(2) by blast
  show ?thesis
    using assms(1) p
    by (cases "failures t = 0") (auto simp: recordRun_def Let_def go_defs verdictRun_def)
qed

section \<open>Deletion and retention of Tests\<close>

definition patchesRun :: "Call \<Rightarrow> bool" where
  "patchesRun call = (case call of PatchCall new (TestRunObj orig) e \<Rightarrow> True | _ \<Rightarrow> False)"

lemma run_isComplete_deletes:
  "emits' (\<lambda>cs. deletedObjs cs = (if discardsTests run then deletionsOf TestObj tests else []))
     (TestRunReconciler_isComplete r run tests)"
  by (auto simp: TestRunReconciler_isComplete_def
      intro!: emits_seq [OF cleanUpAll_deletes] emit_rules no_delete.emits_ret)

lemma run_deleted_deletes:
  assumes "tests \<noteq> []"
  shows "emits' (\<lambda>cs. deletedObjs cs = deletionsOf TestObj tests) (TestRunReconciler_deleted r run tests)"
  using assms
  by (auto simp: TestRunReconciler_deleted_def
      intro!: emits_seq [OF cleanUpAll_deletes] emit_rules no_delete.emits_ret)

lemma run_deleted_keeps_finalizer:
  assumes "tests \<noteq> []"
  shows "emits' (list_all (\<lambda>call. \<not> patchesRun call)) (TestRunReconciler_deleted r run tests)"
proof -
  have "\<not> patchesRun call" if "cleanUpCall TestRunControllerFinalizer (TestObj test) call" for test call
    using that by (cases call) (auto simp: patchesRun_def)
  with assms show ?thesis
    by (auto simp: TestRunReconciler_deleted_def
        intro!: emit_rules each_call_rules test_object.cleanUpAll_calls)
qed

section \<open>Sample objects\<close>

definition sampleRun :: "TestRunPhase \<Rightarrow> RetainPolicy \<Rightarrow> string list \<Rightarrow> TestRun" where
  "sampleRun phase policy descriptions =
     \<lparr>APIVersion = GroupVersion, Kind = ''TestRun'',
      Meta = emptyMeta\<lparr>Name := ''run'', Namespace := ''ns'', Finalizers := [TestRunControllerFinalizer]\<rparr>,
      run_Spec = \<lparr>trsRetentionPolicy = policy,
        trsTests = map (\<lambda>d. \<lparr>ttDescription = d, ttRetentionPolicy = policy,
          ttTemplate = \<lparr>ptMeta = emptyMeta, ptSpec = \<lparr>RestartPolicy = '''', Containers = []\<rparr>\<rparr>\<rparr>)
          descriptions\<rparr>,
      run_Status = \<lparr>trstConditions = [], trstPhase = phase, trstMessage = '''', trstResults = []\<rparr>\<rparr>"

definition sampleRunTest :: "string \<Rightarrow> TestPhase \<Rightarrow> Test" where
  "sampleRunTest generateName phase =
     (sampleTest phase RetainAlways)\<lparr>Meta := emptyMeta\<lparr>Name := generateName @ ''x'',
        GenerateName := generateName, Finalizers := [TestControllerFinalizer]\<rparr>\<rparr>"

definition sampleRunReconciler :: "unit TestRunReconciler" where
  "sampleRunReconciler = \<lparr>rrClient = staticClient, rrErrRequeueDelay = Minute\<rparr>"

lemma sampleRun_simps [simp]:
  "length (trsTests (run_Spec (sampleRun p q ds))) = length ds"
  "trstPhase (run_Status (sampleRun p q ds)) = p"
  "trsRetentionPolicy (run_Spec (sampleRun p q ds)) = q"
  "Name (Meta (sampleRun p q ds)) = ''run''"
  by (simp_all add: sampleRun_def)

lemma sampleRunTest_simps [simp]:
  "GenerateName (Meta (sampleRunTest g p)) = g"
  "tstPhase (test_Status (sampleRunTest g p)) = p"
  "GetDeletionTimestamp (sampleRunTest g p) = None"
  by (simp_all add: sampleRunTest_def sampleTest_def GetDeletionTimestamp_def emptyMeta_def)

lemma sampleRunReconciler_simps [simp]: "rrClient sampleRunReconciler = staticClient"
  by (simp add: sampleRunReconciler_def)

lemma sample_names:
  "testIndex m ''run-0-'' = (if 0 \<le> m then Index 0 else BadIndex ''test index greater than max'')"
  "testIndex m ''run-1-'' = (if 1 \<le> m then Index 1 else BadIndex ''test index greater than max'')"
  by (simp_all add: testIndex_cases digitVal_def)

section \<open>Properties\<close>

text \<open>
  C6. Every write to a status that the reconciler asks for is on a TestRun whose phase is not final,
  changes nothing but its status, and moves the phase to Starting (from the empty phase only),
  Running, Passed or Failed. So the verdict of a run is never changed.
\<close>

theorem run_status_transitions:
  "list_all (runStatusCall (\<lambda>new orig.
       runTransition (trstPhase (run_Status orig)) (trstPhase (run_Status new)) \<and>
       runStatusOnly new orig))
     (callsOf (TestRunReconciler_Reconcile r req) w)"
  using emits_callsOf [OF run_status_write.Reconcile_calls]
  by (rule list.pred_mono_strong) (auto simp: runStatusWrite_def elim: runStatusCall_mono)

text \<open>
  C3. A verdict is sound: a run is set to Passed or Failed only with one result for each of its
  templates, in the order of the templates, and to Passed exactly when all of them passed. The
  message of a failed run says how many of its tests failed; that of a passed run, which counts the
  failures as well, says that none of them passed.
\<close>

theorem run_verdict_sound:
  "list_all (runStatusCall (\<lambda>new orig. verdictSound new \<and> verdictMessage new))
     (callsOf (TestRunReconciler_Reconcile r req) w)"
  using emits_callsOf [OF run_status_write.Reconcile_calls]
  by (rule list.pred_mono_strong) (auto simp: runStatusWrite_def elim: runStatusCall_mono)

text \<open>
  C33. A run of more than ten tests gets no verdict: the index of a Test is read from the last digit
  of its name, so the slots from the eleventh on are never filled and the run stays Running.
\<close>

theorem run_at_most_ten:
  "list_all (runStatusCall (\<lambda>new orig. atMostTen new))
     (callsOf (TestRunReconciler_Reconcile r req) w)"
  using emits_callsOf [OF run_status_write.Reconcile_calls]
  by (rule list.pred_mono_strong) (auto simp: runStatusWrite_def elim: runStatusCall_mono)

text \<open>
  C29. The reconciler creates nothing but Tests that one owner controls and that have no verdict,
  deletes nothing but Tests that are not being deleted, and patches no metadata but its own
  finalizer, which it adds to a run that is not being deleted only.
\<close>

theorem run_object_writes: "list_all runObjectWrite (callsOf (TestRunReconciler_Reconcile r req) w)"
  by (rule emits_callsOf [OF run_object_write.Reconcile_calls])

text \<open>
  C31. The name of the Test created for slot \<open>i\<close> reads back as the last digit of \<open>i\<close>: the round trip
  is exact for the first ten slots, and a Test beyond them is taken for one of the first ten.
\<close>

theorem run_index_roundtrip:
  assumes "Name (Meta run) \<noteq> ''''" and "i < length (trsTests (run_Spec run))"
  shows "indexOf run (newTest run i) = Index (i mod 10)"
proof -
  have "i mod 10 \<le> i" by simp
  with assms(2) show ?thesis by (intro testIndex_newTest [OF assms(1)]) linarith
qed

theorem run_index_roundtrip_witness:
  "indexOf (sampleRun '''' RetainNever [''a'', ''b'']) (newTest (sampleRun '''' RetainNever [''a'', ''b'']) 1)
     = Index 1"
  using run_index_roundtrip [of "sampleRun '''' RetainNever [''a'', ''b'']" 1] by simp

text \<open>
  C8. A run completes. When its Tests are listed in the order of their indices, one for each template,
  and all of them are final, the reconciler records the verdict: the results of the Tests in that
  order, and Passed when every Test passed, Failed otherwise.
\<close>

theorem run_completes:
  assumes "length tests = length (trsTests (run_Spec run))"
    and "\<forall>k < length tests. indexOf run (tests ! k) = Index k"
    and "list_all (\<lambda>t. TestPhase_IsFinal (tstPhase (test_Status t))) tests"
    and "\<And>new. \<exists>run' w'. doStatusPatch (TestRuns (rrClient r)) new run w = (Inr run', w')"
  shows "\<exists>new ty reason msg.
    resultOf (TestRunReconciler_isRunning r run tests) w = done' \<and>
    callsOf (TestRunReconciler_isRunning r run tests) w =
      [EventCall (TestRunObj new) ty reason msg, StatusPatchCall (TestRunObj new) (TestRunObj run) None] \<and>
    trstResults (run_Status new) = runResults run tests 0 (length tests) \<and>
    trstPhase (run_Status new) =
      (if list_all (\<lambda>t. tstPhase (test_Status t) = TestPassed) tests then TestRunPassed else TestRunFailed)"
proof -
  let ?n = "length tests"
  have mapped: "mapTests r (int ?n - 1) 0 tests (replicate ?n None) = ret (Next (tests, map Some [0..<?n]))"
    using assms(1,2) by (subst mapTests_in_order) simp_all
  obtain t where t: "ensureTests r run tests 0 (map Some [0..<?n]) emptyTally = ret (Next t)"
    "tallyResults t = runResults run tests 0 ?n" "tallied run ?n t"
    using ensureTests_all_final [of ?n tests run 0 emptyTally r] assms(1,3)
    by (auto simp: list_all_length tallyResults_empty)
  have run: "TestRunReconciler_isRunning r run tests = recordRun r run ?n t"
    using mapped t(1) assms(1) by (simp add: TestRunReconciler_isRunning_def Let_def)
  have "failures t = 0 \<longleftrightarrow> list_all resPassed (runResults run tests 0 ?n)"
    using t(2,3) by (simp add: tallied_def no_failures)
  then have "failures t = 0 \<longleftrightarrow> list_all (\<lambda>t. tstPhase (test_Status t) = TestPassed) tests"
    by (simp add: runResults_def testResult_def TestPhase_IsSuccess_def list_all_length)
  moreover have "completions t = int ?n" using t(2,3) by (simp add: tallied_def runResults_def)
  ultimately show ?thesis
    using recordRun_verdict [OF _ assms(4)] t(2)
    by (fastforce simp: run resultOf_def callsOf_def Let_def verdictRun_simps)
qed

theorem run_completes_witness:
  "\<exists>new. StatusPatchCall (TestRunObj new) (TestRunObj (sampleRun TestRunRunning RetainNever [''a'', ''b''])) None
      \<in> set (callsOf (TestRunReconciler_isRunning sampleRunReconciler (sampleRun TestRunRunning RetainNever [''a'', ''b''])
          [sampleRunTest ''run-0-'' TestPassed, sampleRunTest ''run-1-'' TestFailed]) ()) \<and>
     trstPhase (run_Status new) = TestRunFailed"
proof -
  let ?run = "sampleRun TestRunRunning RetainNever [''a'', ''b'']"
  let ?tests = "[sampleRunTest ''run-0-'' TestPassed, sampleRunTest ''run-1-'' TestFailed]"
  have "\<forall>k < length ?tests. indexOf ?run (?tests ! k) = Index k"
    by (auto simp: less_Suc_eq sample_names)
  then show ?thesis
    using run_completes [of ?tests ?run sampleRunReconciler "()"] by fastforce
qed

text \<open>
  The reconciler of a running TestRun panics only when a Test has an index that is not below the
  number of Tests listed.
\<close>

theorem run_no_panic:
  assumes "list_all (\<lambda>t. case indexOf run t of Index i \<Rightarrow> i < length tests | BadIndex _ \<Rightarrow> True) tests"
  shows "resultOf (TestRunReconciler_isRunning r run tests) w \<noteq> Panic"
  by (rule returns_resultOf [OF run_isRunning_no_panic [OF assms]])

theorem run_no_panic_witness:
  "resultOf (TestRunReconciler_isRunning sampleRunReconciler (sampleRun TestRunRunning RetainNever [''a'', ''b''])
     [sampleRunTest ''run-1-'' TestPassed, sampleRunTest ''run-0-'' TestRunning]) () \<noteq> Panic"
  by (rule run_no_panic) (simp add: sample_names)

text \<open>
  C34. It does panic then: a run of several tests of which only a later one is left, say after the
  first was removed, stops the reconciler with an index out of range before any call is made.
\<close>

theorem run_panics:
  assumes "indexOf run test = Index i" and "i \<noteq> 0"
  shows "resultOf (TestRunReconciler_isRunning r run [test]) w = Panic \<and>
    callsOf (TestRunReconciler_isRunning r run [test]) w = []"
  using assms
  by (simp add: TestRunReconciler_isRunning_def Let_def mapTests.simps resultOf_def callsOf_def)

theorem run_panics_witness:
  "resultOf (TestRunReconciler_isRunning sampleRunReconciler (sampleRun TestRunRunning RetainNever [''a'', ''b''])
     [sampleRunTest ''run-1-'' TestPassed]) () = Panic"
  using run_panics [of "sampleRun TestRunRunning RetainNever [''a'', ''b'']" "sampleRunTest ''run-1-'' TestPassed" 1
      sampleRunReconciler "()"]
  by (simp add: sample_names)

text \<open>
  C24. The retention policy. Once a run is final, the reconciler deletes those of its Tests that are
  not being deleted yet, in order, exactly when the policy is Never, or OnFailure and the run passed.
\<close>

theorem run_retention:
  "deletedObjs (callsOf (TestRunReconciler_isComplete r run tests) w)
     = (let policy = trsRetentionPolicy (run_Spec run) in
        if policy = ''Never'' \<or> policy = ''OnFailure'' \<and> trstPhase (run_Status run) = ''Passed''
        then deletionsOf TestObj tests else [])"
  using emits_callsOf [OF run_isComplete_deletes [of run tests r], of w]
  by (simp add: discardsTests_def RetainNever_def RetainOnFailure_def TestRunPassed_def Let_def)

text \<open>
  C26. A run that is being deleted keeps its finalizer for as long as it has Tests, and those that
  are not being deleted yet are deleted, in order.
\<close>

theorem run_deletion:
  assumes "tests \<noteq> []"
  shows "deletedObjs (callsOf (TestRunReconciler_deleted r run tests) w) = deletionsOf TestObj tests \<and>
    list_all (\<lambda>call. \<not> patchesRun call) (callsOf (TestRunReconciler_deleted r run tests) w)"
  by (intro conjI emits_callsOf [OF run_deleted_deletes [OF assms]]
      emits_callsOf [OF run_deleted_keeps_finalizer [OF assms]])

theorem run_deletion_witness:
  "deletedObjs (callsOf (TestRunReconciler_deleted sampleRunReconciler (sampleRun TestRunRunning RetainNever [''a''])
     [sampleRunTest ''run-0-'' TestPassed]) ()) = [TestObj (sampleRunTest ''run-0-'' TestPassed)]"
  using run_deletion [of "[sampleRunTest ''run-0-'' TestPassed]" sampleRunReconciler
      "sampleRun TestRunRunning RetainNever [''a'']" "()"] by simp

end
