(* ===== verification/Helm_Release.thy ===== *)
theory Helm_Release
  imports Helpers
begin

text \<open>
  The end of src/controllers/helpers.go: what the operator knows of a Helm release, the value of
  the label that subscribes a test suite to it, and the parsing of the Secret in which Helm keeps
  a release. \<open>HelmSecretType\<close> is a constant of src/controllers/helmrelease_watcher.go.
\<close>

section \<open>Releases\<close>

definition HelmSecretType :: string where
  "HelmSecretType = ''helm.sh/release.v1''"

record HelmReleaseMeta =
  hrNamespace :: string
  hrName :: string
  hrVersion :: int
  hrVersionString :: string
  hrStatus :: string

definition emptyRelease :: HelmReleaseMeta where
  "emptyRelease = \<lparr>hrNamespace = '''', hrName = '''', hrVersion = 0, hrVersionString = '''',
     hrStatus = ''''\<rparr>"

text \<open>The receiver of \<open>LabelValue\<close> is a pointer, which may be nil.\<close>

definition HelmReleaseMeta_LabelValue :: "HelmReleaseMeta option \<Rightarrow> string" where
  "HelmReleaseMeta_LabelValue hrm =
     (case hrm of
        None \<Rightarrow> ''''
      | Some h \<Rightarrow>
          (let val = hrName h in
           if hrNamespace h \<noteq> '''' then val @ ''.'' @ hrNamespace h else val))"

text \<open>
  The release and the boolean of \<open>ParseHelmReleaseSecret\<close>. On a secret of the right type the
  release is returned even when a label is missing, as far as it was filled in.
\<close>

definition ParseHelmReleaseSecret :: "Secret option \<Rightarrow> HelmReleaseMeta option \<times> bool" where
  "ParseHelmReleaseSecret secret =
     (case secret of
        None \<Rightarrow> (None, False)
      | Some s \<Rightarrow>
          (if secret_Type s \<noteq> HelmSecretType then (None, False)
           else
             (let labels = Labels (Meta s);
                  release = emptyRelease\<lparr>hrNamespace := Namespace (Meta s)\<rparr>;
                  release = release\<lparr>hrName := mapGet labels ''name''\<rparr>
              in if mapLookup labels ''name'' = None then (Some release, False)
                 else
                   (let release = release\<lparr>hrVersionString := mapGet labels ''version''\<rparr>
                    in if mapLookup labels ''version'' = None then (Some release, False)
                       else
                         (let release = release\<lparr>hrStatus := mapGet labels ''status''\<rparr>
                          in if mapLookup labels ''status'' = None then (Some release, False)
                             else
                               (case Atoi (hrVersionString release) of
                                  Some v \<Rightarrow> (Some (release\<lparr>hrVersion := v\<rparr>), True)
                                | None \<Rightarrow> (Some release, False)))))))"

text \<open>The parsed release, when the secret holds a valid one.\<close>

definition parsedRelease :: "Secret \<Rightarrow> HelmReleaseMeta option" where
  "parsedRelease s =
     (case ParseHelmReleaseSecret (Some s) of (release, ok) \<Rightarrow> if ok then release else None)"

section \<open>Lemmas\<close>

lemma Atoi_Itoa:
  assumes "- (2 ^ 63) \<le> i" and "i < 2 ^ 63"
  shows "Atoi (Itoa i) = Some i"
proof (cases "i < 0")
  case True
  with assms show ?thesis by (simp add: Atoi_def Itoa_def parseDigits_Utoa)
next
  case False
  have "hd (Utoa (nat i)) \<noteq> CHR ''-''" "hd (Utoa (nat i)) \<noteq> CHR ''+''"
    using hd_Utoa_not_sign by auto
  with False assms show ?thesis by (simp add: Atoi_def Itoa_def parseDigits_Utoa)
qed

lemma parsedRelease_Some_iff:
  "parsedRelease s = Some h \<longleftrightarrow>
     secret_Type s = HelmSecretType \<and>
     hrNamespace h = Namespace (Meta s) \<and>
     mapLookup (Labels (Meta s)) ''name'' = Some (hrName h) \<and>
     mapLookup (Labels (Meta s)) ''version'' = Some (hrVersionString h) \<and>
     mapLookup (Labels (Meta s)) ''status'' = Some (hrStatus h) \<and>
     Atoi (hrVersionString h) = Some (hrVersion h)"
  by (cases h)
     (auto simp: parsedRelease_def ParseHelmReleaseSecret_def Let_def mapGet_def emptyRelease_def
       split: option.splits if_splits)

lemma ParseHelmReleaseSecret_ok:
  "ParseHelmReleaseSecret (Some s) = (Some h, True) \<longleftrightarrow> parsedRelease s = Some h"
  by (auto simp: parsedRelease_def ParseHelmReleaseSecret_def Let_def split: option.splits if_splits)

lemma append_dot_inject:
  assumes "CHR ''.'' \<notin> set a" and "CHR ''.'' \<notin> set b" and "x @ ''.'' @ a = y @ ''.'' @ b"
  shows "x = y \<and> a = b"
proof -
  from assms(3) have "rev (x @ ''.'' @ a) = rev (y @ ''.'' @ b)" by (rule arg_cong)
  then have "rev a @ CHR ''.'' # rev x = rev b @ CHR ''.'' # rev y" by simp
  with assms(1,2) show ?thesis by (auto simp: append_sep_inject)
qed

definition sampleSecret :: "string \<Rightarrow> string \<Rightarrow> string \<Rightarrow> Secret" where
  "sampleSecret ns n version =
     \<lparr>APIVersion = ''v1'', Kind = ''Secret'',
      Meta = emptyMeta\<lparr>Namespace := ns,
        Labels := Some [''name'' \<mapsto> n, ''version'' \<mapsto> version, ''status'' \<mapsto> ''deployed'', ''owner'' \<mapsto> ''helm'']\<rparr>,
      secret_Type = HelmSecretType\<rparr>"

lemma sampleSecret_simps:
  "secret_Type (sampleSecret ns n v) = HelmSecretType"
  "Namespace (Meta (sampleSecret ns n v)) = ns"
  "mapLookup (Labels (Meta (sampleSecret ns n v))) ''name'' = Some n"
  "mapLookup (Labels (Meta (sampleSecret ns n v))) ''version'' = Some v"
  "mapLookup (Labels (Meta (sampleSecret ns n v))) ''status'' = Some ''deployed''"
  by (simp_all add: sampleSecret_def)

section \<open>Properties\<close>

text \<open>
  C37. A secret is parsed as a release exactly when it has the type of Helm's release secrets and the
  labels name, version and status, the version being a decimal integer of 64 bits; the release then
  has the namespace of the secret and these labels.
\<close>

theorem helm_parse:
  "ParseHelmReleaseSecret (Some s) = (Some h, True) \<longleftrightarrow>
     secret_Type s = HelmSecretType \<and>
     hrNamespace h = Namespace (Meta s) \<and>
     mapLookup (Labels (Meta s)) ''name'' = Some (hrName h) \<and>
     mapLookup (Labels (Meta s)) ''version'' = Some (hrVersionString h) \<and>
     mapLookup (Labels (Meta s)) ''status'' = Some (hrStatus h) \<and>
     Atoi (hrVersionString h) = Some (hrVersion h)"
  by (simp only: ParseHelmReleaseSecret_ok parsedRelease_Some_iff)

text \<open>
  The version of a release survives its label: a secret whose version label is the decimal text of
  a 64-bit integer is parsed back to that integer.
\<close>

theorem helm_version_roundtrip:
  assumes "parsedRelease s = Some h" and "mapLookup (Labels (Meta s)) ''version'' = Some (Itoa i)"
    and "- (2 ^ 63) \<le> i" and "i < 2 ^ 63"
  shows "hrVersion h = i"
  using assms(1,2) Atoi_Itoa [OF assms(3,4)] by (auto simp: parsedRelease_Some_iff)

theorem helm_version_roundtrip_witness:
  "\<exists>h. parsedRelease (sampleSecret ''ns'' ''app'' (Itoa 12)) = Some h \<and> hrVersion h = 12"
proof -
  let ?s = "sampleSecret ''ns'' ''app'' (Itoa 12)"
  let ?h = "\<lparr>hrNamespace = ''ns'', hrName = ''app'', hrVersion = 12, hrVersionString = Itoa 12,
    hrStatus = ''deployed''\<rparr>"
  have "Atoi (Itoa 12) = Some 12" by (rule Atoi_Itoa) simp_all
  then have p: "parsedRelease ?s = Some ?h"
    and v: "mapLookup (Labels (Meta ?s)) ''version'' = Some (Itoa 12)"
    by (simp_all add: parsedRelease_Some_iff sampleSecret_simps)
  have "hrVersion ?h = 12" by (rule helm_version_roundtrip [OF p v]) simp_all
  with p show ?thesis by (intro exI [of _ ?h] conjI)
qed

text \<open>
  The label value identifies the release: two releases in namespaces whose names are not empty
  and have no dot, as Kubernetes requires, have the same value only when both their names and
  their namespaces are the same.
\<close>

theorem helm_label_injective:
  assumes "hrNamespace h \<noteq> ''''" "hrNamespace h' \<noteq> ''''"
    and "CHR ''.'' \<notin> set (hrNamespace h)" "CHR ''.'' \<notin> set (hrNamespace h')"
    and "HelmReleaseMeta_LabelValue (Some h) = HelmReleaseMeta_LabelValue (Some h')"
  shows "hrName h = hrName h' \<and> hrNamespace h = hrNamespace h'"
  using assms
  by (intro append_dot_inject) (simp_all add: HelmReleaseMeta_LabelValue_def)

theorem helm_label_injective_witness:
  "HelmReleaseMeta_LabelValue (Some (emptyRelease\<lparr>hrNamespace := ''b'', hrName := ''a''\<rparr>))
     \<noteq> HelmReleaseMeta_LabelValue (Some (emptyRelease\<lparr>hrNamespace := ''a'', hrName := ''b''\<rparr>))"
  using helm_label_injective [of "emptyRelease\<lparr>hrNamespace := ''b'', hrName := ''a''\<rparr>"
      "emptyRelease\<lparr>hrNamespace := ''a'', hrName := ''b''\<rparr>"]
  by auto

end
