(* ===== verification/TestSuite_Controller.thy ===== *)
theory TestSuite_Controller
  imports TestRun_Controller Helm_Release
begin

text \<open>
  src/controllers/testsuite_controller.go: the reconciler of TestSuites. A suite waits to be
  triggered, by hand, by a new Helm release or by its schedule, creates a TestRun, follows it to
  its end, and keeps a bounded history of its runs.

  The cron parser, the clock, the printer and the encoder of the hash and the character
  \<open>types.Separator\<close> are parameters, fields of the reconciler. So is \<open>sort.Slice\<close>, which leaves the order of equal elements open: what the
  controller relies on is that the result is a permutation of its argument and sorted.

  Most errors are only logged: the handler returns a requeue delay and no error.
\<close>

section \<open>Constants and the reconciler\<close>

definition testRunIndexKey :: string where "testRunIndexKey = ''.metadata.controller''"

definition TestSuiteControllerFinalizer :: string where
  "TestSuiteControllerFinalizer = GroupName @ ''/testsuite-controller''"

definition TestSuiteScheduleAnnotation :: string where
  "TestSuiteScheduleAnnotation = GroupName @ ''/active-schedule''"

definition TestSuiteLastHelmReleaseAnnotation :: string where
  "TestSuiteLastHelmReleaseAnnotation = GroupName @ ''/last-helm-release''"

definition TestSuiteHelmTriggerLabel :: string where
  "TestSuiteHelmTriggerLabel = GroupName @ ''/helm-trigger''"

definition TestSuiteNeedsRunCondition :: string where "TestSuiteNeedsRunCondition = ''NeedsRun''"
definition TestSuiteRunStartedCondition :: string where "TestSuiteRunStartedCondition = ''RunStarted''"
definition TestSuiteHasScheduleCondition :: string where "TestSuiteHasScheduleCondition = ''HasSchedule''"
definition TestSuiteErrorCondition :: string where "TestSuiteErrorCondition = ''HasError''"

type_synonym Schedule = "Time \<Rightarrow> Time"

record 'w TestSuiteReconciler =
  srClient :: "'w Client"
  srErrRequeueDelay :: Duration
  CronParser :: "string \<Rightarrow> error + Schedule"
  ClockNow :: "'w \<Rightarrow> Time \<times> 'w"
  spewPrint :: "TestRunSpec \<Rightarrow> string"
  SafeEncodeString :: "string \<Rightarrow> string"
  sortSlice :: "TestRun list \<Rightarrow> TestRun list"
  Separator :: char

definition Now :: "'w TestSuiteReconciler \<Rightarrow> ('w Env, Time) state" where
  "Now r = State (\<lambda>s. case ClockNow r (cluster s) of (t, w) \<Rightarrow> (t, s\<lparr>cluster := w\<rparr>))"

text \<open>The result of a handler that gives up for now.\<close>

definition suiteRetry :: "'w TestSuiteReconciler \<Rightarrow> Outcome" where
  "suiteRetry r = Return \<lparr>Requeue = False, RequeueAfter = srErrRequeueDelay r\<rparr> None"

definition requeueAfter :: "Duration \<Rightarrow> Outcome" where
  "requeueAfter d = Return \<lparr>Requeue = False, RequeueAfter = d\<rparr> None"

section \<open>Updates of a suite\<close>

definition setSuiteStatus :: "(TestSuiteStatus \<Rightarrow> TestSuiteStatus) \<Rightarrow> TestSuite \<Rightarrow> TestSuite" where
  "setSuiteStatus f suite = suite\<lparr>suite_Status := f (suite_Status suite)\<rparr>"

definition setSuiteMeta :: "(ObjectMeta \<Rightarrow> ObjectMeta) \<Rightarrow> TestSuite \<Rightarrow> TestSuite" where
  "setSuiteMeta f suite = suite\<lparr>Meta := f (Meta suite)\<rparr>"

definition setSuiteCondition ::
  "'w Client \<Rightarrow> string \<Rightarrow> string \<Rightarrow> string \<Rightarrow> string \<Rightarrow> TestSuite \<Rightarrow> TestSuite" where
  "setSuiteCondition c ty st reason msg suite =
     setSuiteStatus (\<lambda>s. s\<lparr>tsstConditions :=
       SetStatusCondition c (tsstConditions s)
         (newCondition ty st (Generation (Meta suite)) reason msg)\<rparr>) suite"

definition patchSuite ::
  "'w TestSuiteReconciler \<Rightarrow> TestSuite \<Rightarrow> TestSuite \<Rightarrow> ('w Env, TestSuite Step) state" where
  "patchSuite r new orig = do {
     (err, suite) \<leftarrow> Patch TestSuiteObj (TestSuites (srClient r)) new orig;
     ret (if err = None then Next suite else Exit (suiteRetry r))
   }"

definition patchSuiteStatus ::
  "'w TestSuiteReconciler \<Rightarrow> TestSuite \<Rightarrow> TestSuite \<Rightarrow> ('w Env, TestSuite Step) state" where
  "patchSuiteStatus r new orig = do {
     (err, suite) \<leftarrow> StatusPatch TestSuiteObj (TestSuites (srClient r)) new orig;
     ret (if err = None then Next suite else Exit (suiteRetry r))
   }"

section \<open>Changes to the schedule and to the Helm trigger\<close>

definition clearNextRun :: "TestSuite \<Rightarrow> TestSuite" where
  "clearNextRun = setSuiteStatus (\<lambda>s. s\<lparr>NextRun := None\<rparr>)"

definition unscheduled :: "'w Client \<Rightarrow> TestSuite \<Rightarrow> TestSuite" where
  "unscheduled c suite =
     setSuiteCondition c TestSuiteHasScheduleCondition ConditionFalse ''ScheduleNotDefined''
       ''schedule is not defined'' (clearNextRun suite)"

definition dropSchedule :: "TestSuite \<Rightarrow> TestSuite" where
  "dropSchedule = setSuiteMeta (\<lambda>m. m\<lparr>Annotations := mapDelete (Annotations m) TestSuiteScheduleAnnotation\<rparr>)"

definition scheduleChanged ::
  "'w TestSuiteReconciler \<Rightarrow> TestSuite \<Rightarrow> ('w Env, TestSuite Step) state" where
  "scheduleChanged r suite =
     (let sched = whenSchedule (tssWhen (suite_Spec suite)) in
      if sched \<noteq> '''' then
        (if sched \<noteq> mapGet (Annotations (Meta suite)) TestSuiteScheduleAnnotation \<and>
            NextRun (suite_Status suite) \<noteq> None
         then do {
           (_, suite') \<leftarrow> StatusPatch TestSuiteObj (TestSuites (srClient r)) (clearNextRun suite) suite;
           ret (Next suite')
         }
         else ret (Next suite))
      else
        andThen
          (if mapLookup (Annotations (Meta suite)) TestSuiteScheduleAnnotation \<noteq> None
           then patchSuite r (dropSchedule suite) suite
           else ret (Next suite))
          (\<lambda>suite'. patchSuiteStatus r (unscheduled (srClient r) suite') suite))"

definition helmLabel :: "TestSuite \<Rightarrow> string" where
  "helmLabel suite =
     (let release = whenHelmRelease (tssWhen (suite_Spec suite)) in
      if indexByte release CHR ''.'' = None then Namespace (Meta suite) @ ''.'' @ release
      else release)"

definition labelHelm :: "string \<Rightarrow> TestSuite \<Rightarrow> TestSuite" where
  "labelHelm release = setSuiteMeta (\<lambda>m. m\<lparr>
     Labels := mapPut (Labels m) TestSuiteHelmTriggerLabel release,
     Annotations := mapDelete (Annotations m) ''TestSuiteLastHelmReleaseAnnotation''\<rparr>)"

definition helmTriggerChanged :: "'w TestSuiteReconciler \<Rightarrow> TestSuite \<Rightarrow> ('w Env, TestSuite) state" where
  "helmTriggerChanged r suite =
     (if whenHelmRelease (tssWhen (suite_Spec suite)) \<noteq> '''' \<and>
         mapGet (Labels (Meta suite)) TestSuiteHelmTriggerLabel \<noteq> helmLabel suite
      then do {
        (_, suite') \<leftarrow>
          Patch TestSuiteObj (TestSuites (srClient r)) (labelHelm (helmLabel suite) suite) suite;
        ret suite'
      }
      else ret suite)"

section \<open>The phase\<close>

definition focusRun :: "string \<Rightarrow> TestSuite \<Rightarrow> TestSuite" where
  "focusRun n = setSuiteStatus (\<lambda>s. s\<lparr>tsstPhase := TestSuiteRunning, CurrentTestRun := n\<rparr>)"

fun adoptRuns ::
  "'w TestSuiteReconciler \<Rightarrow> TestRun list \<Rightarrow> TestSuite \<Rightarrow> ('w Env, TestSuite Step) state" where
  "adoptRuns r [] suite = ret (Next suite)"
| "adoptRuns r (run # runs) suite =
     (if \<not> TestRunPhase_IsFinal (trstPhase (run_Status run))
      then andThen (patchSuiteStatus r (focusRun (Name (Meta run)) suite) suite) (adoptRuns r runs)
      else adoptRuns r runs suite)"

definition setSuitePhase :: "TestSuitePhase \<Rightarrow> TestSuite \<Rightarrow> TestSuite" where
  "setSuitePhase p = setSuiteStatus (\<lambda>s. s\<lparr>tsstPhase := p\<rparr>)"

definition ensurePhase ::
  "'w TestSuiteReconciler \<Rightarrow> TestRun list \<Rightarrow> TestSuite \<Rightarrow> ('w Env, TestSuite Step) state" where
  "ensurePhase r runs suite =
     (if \<not> TestSuitePhase_IsRunning (tsstPhase (suite_Status suite))
      then andThen (adoptRuns r runs suite)
        (\<lambda>suite. if tsstPhase (suite_Status suite) = ''''
                 then patchSuiteStatus r (setSuitePhase TestSuitePending suite) suite
                 else ret (Next suite))
      else ret (Next suite))"

section \<open>A suite that is not running\<close>

definition ensureReady ::
  "'w TestSuiteReconciler \<Rightarrow> TestSuite \<Rightarrow> ('w Env, TestSuite Step) state" where
  "ensureReady r suite =
     (if tsstPhase (suite_Status suite) = TestSuitePending
      then patchSuiteStatus r (setSuitePhase TestSuiteReady suite) suite
      else ret (Next suite))"

text \<open>The runs are sorted from the oldest to the newest: the oldest beyond the limit go.\<close>

definition enforceHistory ::
  "'w TestSuiteReconciler \<Rightarrow> TestSuite \<Rightarrow> TestRun list \<Rightarrow> ('w Env, TestRun list Step) state" where
  "enforceHistory r suite runs =
     (let l = length runs; m = unat (tssHistoryLimit (suite_Spec suite)) in
      if l > m then do {
        (_, err) \<leftarrow> cleanUpAll (srClient r) TestRunObj (TestRuns (srClient r))
          TestSuiteControllerFinalizer (take (l - m) runs);
        ret (if err \<noteq> None then Exit (suiteRetry r) else Next (drop (l - m) runs))
      }
      else ret (Next runs))"

definition annotateSchedule :: "TestSuite \<Rightarrow> TestSuite" where
  "annotateSchedule suite =
     setSuiteMeta (\<lambda>m. m\<lparr>Annotations := mapPut (Annotations m) TestSuiteScheduleAnnotation
       (whenSchedule (tssWhen (suite_Spec suite)))\<rparr>) suite"

definition scheduleSet :: "'w Client \<Rightarrow> Time \<Rightarrow> TestSuite \<Rightarrow> TestSuite" where
  "scheduleSet c next suite =
     setSuiteCondition c TestSuiteHasScheduleCondition ConditionTrue ''ScheduleSet''
       ''schedule is set'' (setSuiteStatus (\<lambda>s. s\<lparr>NextRun := Some next\<rparr>) suite)"

definition scheduleInvalid :: "'w Client \<Rightarrow> TestSuite \<Rightarrow> TestSuite" where
  "scheduleInvalid c suite =
     setSuiteCondition c TestSuiteHasScheduleCondition ConditionFalse ''InvalidSchedule''
       ''schedule is not a valid cron value'' (clearNextRun suite)"

text \<open>
  The schedule that is parsed is the one read before the annotation was patched, not the one of the
  suite as the patch answers it.
\<close>

definition parseSchedule ::
  "'w TestSuiteReconciler \<Rightarrow> string \<Rightarrow> TestSuite \<Rightarrow> ('w Env, (TestSuite \<times> Schedule option) Step) state" where
  "parseSchedule r when' suite =
     (case CronParser r when' of
        Inr sched \<Rightarrow>
          (if NextRun (suite_Status suite) = None then do {
             now \<leftarrow> Now r;
             andThen (patchSuiteStatus r (scheduleSet (srClient r) (sched now) suite) suite)
               (\<lambda>suite. ret (Next (suite, Some sched)))
           }
           else ret (Next (suite, Some sched)))
      | Inl e \<Rightarrow> do {
          (_, suite) \<leftarrow> StatusPatch TestSuiteObj (TestSuites (srClient r))
            (scheduleInvalid (srClient r) suite) suite;
          ret (Next (suite, None))
        })"

definition ensureSchedule ::
  "'w TestSuiteReconciler \<Rightarrow> TestSuite \<Rightarrow> ('w Env, (TestSuite \<times> Schedule option) Step) state" where
  "ensureSchedule r suite =
     (let when' = whenSchedule (tssWhen (suite_Spec suite)) in
      if when' \<noteq> '''' then
        andThen
          (if mapGet (Annotations (Meta suite)) TestSuiteScheduleAnnotation \<noteq> when'
           then patchSuite r (annotateSchedule suite) suite
           else ret (Next suite))
          (parseSchedule r when')
      else ret (Next (suite, None)))"

text \<open>The newest of the releases; of equal versions the first.\<close>

fun newestRelease :: "Secret list \<Rightarrow> HelmReleaseMeta option \<Rightarrow> HelmReleaseMeta option" where
  "newestRelease [] current = current"
| "newestRelease (s # ss) current =
     newestRelease ss
       (case parsedRelease s of
          None \<Rightarrow> current
        | Some parsed \<Rightarrow>
            (case current of
               None \<Rightarrow> Some parsed
             | Some cur \<Rightarrow> if hrVersion cur < hrVersion parsed then Some parsed else current))"

text \<open>
  Whether the release may be observed, and where it is: in another namespace only with a policy
  that exports it to the namespace of the suite.
\<close>

definition observableRelease ::
  "'w TestSuiteReconciler \<Rightarrow> TestSuite \<Rightarrow> string \<Rightarrow> ('w Env, (bool \<times> NamespacedName) Step) state" where
  "observableRelease r suite releaseName =
     (case indexByte releaseName (Separator r) of
        Some pos \<Rightarrow>
          (if int pos < int (length releaseName) - 1 then
             (let release = \<lparr>nnNamespace = take pos releaseName, nnName = drop (pos + 1) releaseName\<rparr> in do {
                got \<leftarrow> Get (HelmPolicies (srClient r)) release;
                ret (case got of
                   Inr policy \<Rightarrow>
                     Next (list_ex (\<lambda>ns. ns = Namespace (Meta suite)) (ExportTo (policy_Spec policy)), release)
                 | Inl e \<Rightarrow>
                     (if IgnoreNotFound (srClient r) (Some e) \<noteq> None then Exit (suiteRetry r)
                      else Next (False, release)))
              })
           else ret (Next (True, \<lparr>nnNamespace = Namespace (Meta suite), nnName = releaseName\<rparr>)))
      | None \<Rightarrow> ret (Next (True, \<lparr>nnNamespace = Namespace (Meta suite), nnName = releaseName\<rparr>)))"

definition currentHelmRelease ::
  "'w TestSuiteReconciler \<Rightarrow> TestSuite \<Rightarrow> ('w Env, HelmReleaseMeta option Step) state" where
  "currentHelmRelease r suite =
     (let releaseName = whenHelmRelease (tssWhen (suite_Spec suite)) in
      if releaseName \<noteq> '''' then
        andThen (observableRelease r suite releaseName)
          (\<lambda>(ok, release).
             if ok then do {
               listed \<leftarrow> ListObjs (Secrets (srClient r))
                 [InNamespace (nnNamespace release),
                  MatchingLabels [(''owner'', ''Helm''), (''name'', nnName release), (''status'', ''deployed'')]];
               ret (case listed of
                  Inl e \<Rightarrow> Exit (suiteRetry r)
                | Inr secrets \<Rightarrow> Next (newestRelease secrets None))
             }
             else ret (Next None))
      else ret (Next None))"

text \<open>
  A trigger: its reason, its message and the object that the patch of the status is diffed with.
\<close>

record testSuiteTrigger =
  trigReason :: string
  trigMessage :: string
  trigPatch :: TestSuite

definition resetTrigger :: "TestSuite \<Rightarrow> TestSuite" where
  "resetTrigger suite = suite\<lparr>suite_Trigger := (suite_Trigger suite)\<lparr>NeedsRun := False\<rparr>\<rparr>"

definition annotateHelm :: "HelmReleaseMeta \<Rightarrow> TestSuite \<Rightarrow> TestSuite" where
  "annotateHelm release =
     setSuiteMeta (\<lambda>m. m\<lparr>Annotations := mapPut (Annotations m) TestSuiteLastHelmReleaseAnnotation
       (mapGet (Annotations m) (hrVersionString release))\<rparr>)"

definition setNextRun :: "Time \<Rightarrow> TestSuite \<Rightarrow> TestSuite" where
  "setNextRun next = setSuiteStatus (\<lambda>s. s\<lparr>NextRun := Some next\<rparr>)"

definition triggered ::
  "'w TestSuiteReconciler \<Rightarrow> TestSuite \<Rightarrow> testSuiteTrigger \<Rightarrow> TestSuite" where
  "triggered r suite trigger =
     setSuiteCondition (srClient r) TestSuiteNeedsRunCondition ConditionTrue
       (trigReason trigger) (trigMessage trigger)
       (setSuiteStatus (\<lambda>s. s\<lparr>tsstPhase := TestSuiteRunning, CurrentTestRun := ''''\<rparr>) suite)"

definition quoteChar :: char where "quoteChar = CHR 0x27"

definition scheduledTrigger ::
  "'w TestSuiteReconciler \<Rightarrow> Schedule option \<Rightarrow> Time \<Rightarrow> TestSuite
    \<Rightarrow> ('w Env, (TestSuite \<times> testSuiteTrigger) Step) state" where
  "scheduledTrigger r schedule next suite = do {
     now \<leftarrow> Now r;
     (let until = timeSub next now in
      if until > 0 then ret (Exit (requeueAfter until))
      else if until < - 10 * Second then
        (case schedule of
           None \<Rightarrow> ret (Exit Panic)
         | Some sched \<Rightarrow> do {
             now \<leftarrow> Now r;
             andThen (patchSuiteStatus r (setNextRun (sched now) suite) suite)
               (\<lambda>_. do {
                  now' \<leftarrow> Now r;
                  ret (Exit (requeueAfter (timeSub (sched now) now')))
                })
           })
      else ret (Next (suite,
        \<lparr>trigReason = ''Scheduled'',
         trigMessage = ''test run triggered by schedule '' @ [quoteChar] @
           whenSchedule (tssWhen (suite_Spec suite)) @ [quoteChar],
         trigPatch = suite\<rparr>)))
   }"

definition chooseTrigger ::
  "'w TestSuiteReconciler \<Rightarrow> HelmReleaseMeta option \<Rightarrow> Schedule option \<Rightarrow> TestSuite
    \<Rightarrow> ('w Env, (TestSuite \<times> testSuiteTrigger) Step) state" where
  "chooseTrigger r release schedule suite =
     (if NeedsRun (suite_Trigger suite) then
        andThen (patchSuite r (resetTrigger suite) suite)
          (\<lambda>suite'. ret (Next (suite',
             \<lparr>trigReason = ''Manual'', trigMessage = ''Test suite was manually triggered'',
              trigPatch = suite\<rparr>)))
      else
        (case release of
           Some h \<Rightarrow>
             (if hrVersionString h \<noteq> mapGet (Annotations (Meta suite)) TestSuiteLastHelmReleaseAnnotation
              then andThen (patchSuite r (annotateHelm h suite) suite)
                (\<lambda>suite'. ret (Next (suite',
                   \<lparr>trigReason = ''Helm'', trigMessage = ''Test suite was triggered by a Helm release'',
                    trigPatch = suite\<rparr>)))
              else (case NextRun (suite_Status suite) of
                  Some next \<Rightarrow> scheduledTrigger r schedule next suite
                | None \<Rightarrow> ret (Exit done')))
         | None \<Rightarrow> (case NextRun (suite_Status suite) of
               Some next \<Rightarrow> scheduledTrigger r schedule next suite
             | None \<Rightarrow> ret (Exit done'))))"

definition pullTrigger ::
  "'w TestSuiteReconciler \<Rightarrow> TestSuite \<times> testSuiteTrigger \<Rightarrow> ('w Env, Outcome Step) state" where
  "pullTrigger r = (\<lambda>(suite, trigger).
     andThen (patchSuiteStatus r (triggered r suite trigger) (trigPatch trigger))
       (\<lambda>suite. do {
          Event (TestSuiteObj suite) ''Normal'' ''TestSuiteTriggered'' (trigMessage trigger);
          ret (Next done')
        }))"

text \<open>The value of a body all of whose stages may end it.\<close>

definition finish :: "('s, Outcome Step) state \<Rightarrow> ('s, Outcome) state" where
  "finish m = do {
     st \<leftarrow> m;
     ret (case st of Next out \<Rightarrow> out | Exit out \<Rightarrow> out)
   }"

definition TestSuiteReconciler_notRunning ::
  "'w TestSuiteReconciler \<Rightarrow> TestSuite \<Rightarrow> TestRun list \<Rightarrow> ('w Env, Outcome) state" where
  "TestSuiteReconciler_notRunning r suite runs = finish (
     andThen (ensureReady r suite) (\<lambda>suite.
     andThen (enforceHistory r suite runs) (\<lambda>_.
     andThen (ensureSchedule r suite) (\<lambda>(suite, schedule).
     andThen (currentHelmRelease r suite) (\<lambda>release.
     andThen (chooseTrigger r release schedule suite) (pullTrigger r))))))"

section \<open>A suite that is running\<close>

definition newRun :: "'w TestSuiteReconciler \<Rightarrow> TestSuite \<Rightarrow> TestRun" where
  "newRun r suite =
     (let template = tssTemplate (suite_Spec suite) in
      \<lparr>APIVersion = '''', Kind = '''',
       Meta = emptyMeta
         \<lparr>GenerateName := Name (Meta suite) @ ''-'',
          Namespace := Namespace (Meta suite),
          Annotations := Some [GroupName @ ''/template'' \<mapsto>
            computeTestRunHash (spewPrint r) (SafeEncodeString r) template],
          OwnerReferences :=
            [\<lparr>orAPIVersion = APIVersion suite, orKind = Kind suite, orName = Name (Meta suite),
              orUID = UID (Meta suite), orController = Some True,
              orBlockOwnerDeletion = Some True\<rparr>],
          Finalizers := [TestSuiteControllerFinalizer]\<rparr>,
       run_Spec = \<lparr>trsRetentionPolicy = trsRetentionPolicy template, trsTests = trsTests template\<rparr>,
       run_Status = \<lparr>trstConditions = [], trstPhase = '''', trstMessage = '''', trstResults = []\<rparr>\<rparr>)"

definition runStarted :: "'w Client \<Rightarrow> string \<Rightarrow> TestSuite \<Rightarrow> TestSuite" where
  "runStarted c n suite =
     setSuiteCondition c TestSuiteRunStartedCondition ConditionTrue ''TestRunStarted''
       (''created test run '' @ n)
     (setSuiteCondition c TestSuiteNeedsRunCondition ConditionFalse ''TestRunStarted''
       (''created test run '' @ n)
     (setSuiteStatus (\<lambda>s. s\<lparr>CurrentTestRun := n\<rparr>) suite))"

definition runCompleted :: "'w Client \<Rightarrow> string \<Rightarrow> TestSuite \<Rightarrow> TestSuite" where
  "runCompleted c n suite =
     setSuiteCondition c TestSuiteRunStartedCondition ConditionFalse ''TestRunCompleted''
       (''test run '' @ n @ '' completed'')
     (setSuiteStatus (\<lambda>s. s\<lparr>tsstPhase := TestSuiteReady, CurrentTestRun := ''''\<rparr>) suite)"

definition startRun ::
  "'w TestSuiteReconciler \<Rightarrow> TestSuite \<Rightarrow> ('w Env, Outcome Step) state" where
  "startRun r suite = do {
     created \<leftarrow> Create TestRunObj (TestRuns (srClient r)) (newRun r suite);
     (case created of
        Inl e \<Rightarrow> ret (Exit (suiteRetry r))
      | Inr run \<Rightarrow> do {
          Event (TestSuiteObj suite) ''Normal'' ''StartedTestRun'' (''Created test run '' @ Name (Meta run));
          andThen (patchSuiteStatus r (runStarted (srClient r) (Name (Meta run)) suite) suite)
            (\<lambda>_. ret (Next done'))
        })
   }"

definition reportRun ::
  "TestSuite \<Rightarrow> TestRun \<Rightarrow> ('w Env, unit) state" where
  "reportRun suite run =
     (let ns = Namespace (Meta suite); n = Name (Meta suite) in
      if trstPhase (run_Status run) = TestRunPassed then do {
        metric (SuitePassingSet ns n 1);
        metric (SuiteFailingSet ns n 0);
        Event (TestSuiteObj suite) ''Normal'' ''TestRunPassed'' (''test run '' @ Name (Meta run) @ '' passed'')
      }
      else do {
        metric (SuiteFailingSet ns n 1);
        metric (SuitePassingSet ns n 0);
        Event (TestSuiteObj suite) ''Warning'' ''TestRunFailed'' (''test run '' @ Name (Meta run) @ '' failed'')
      })"

definition followRun ::
  "'w TestSuiteReconciler \<Rightarrow> TestSuite \<Rightarrow> TestRun \<Rightarrow> ('w Env, Outcome Step) state" where
  "followRun r suite run =
     (let phase = trstPhase (run_Status run) in
      if phase = TestRunPassed \<or> phase = TestRunFailed then
        andThen (patchSuiteStatus r (runCompleted (srClient r) (Name (Meta run)) suite) suite)
          (\<lambda>suite. do {
             metric (SuiteRunsInc (Namespace (Meta suite)) (Name (Meta suite)));
             reportRun suite run;
             ret (Next done')
           })
      else ret (Next done'))"

definition TestSuiteReconciler_isRunning ::
  "'w TestSuiteReconciler \<Rightarrow> TestSuite \<Rightarrow> TestRun list \<Rightarrow> ('w Env, Outcome) state" where
  "TestSuiteReconciler_isRunning r suite runs = finish (
     (let n = CurrentTestRun (suite_Status suite) in
      if n \<noteq> '''' then
        (case find (\<lambda>run. Name (Meta run) = n) runs of
           None \<Rightarrow> ret (Exit (Return \<lparr>Requeue = True, RequeueAfter = 0\<rparr>
             (Some (ErrorString ''current test run is missing''))))
         | Some run \<Rightarrow> followRun r suite run)
      else startRun r suite))"

section \<open>The handler\<close>

definition TestSuiteReconciler_deleted ::
  "'w TestSuiteReconciler \<Rightarrow> TestSuite \<Rightarrow> TestRun list \<Rightarrow> ('w Env, Outcome) state" where
  "TestSuiteReconciler_deleted r suite runs =
     (if 0 < length runs then do {
        (_, err) \<leftarrow> cleanUpAll (srClient r) TestRunObj (TestRuns (srClient r))
          TestSuiteControllerFinalizer runs;
        ret (if err \<noteq> None then suiteRetry r else done')
      }
      else do {
        ((_, err), _) \<leftarrow> cleanUp (srClient r) TestSuiteObj (TestSuites (srClient r))
          TestSuiteControllerFinalizer suite;
        ret (if err \<noteq> None then suiteRetry r else done')
      })"

definition ensureSuiteFinalizer ::
  "'w TestSuiteReconciler \<Rightarrow> TestSuite \<Rightarrow> ('w Env, TestSuite Step) state" where
  "ensureSuiteFinalizer r suite = do {
     ((_, err), suite) \<leftarrow> addFinalizer TestSuiteObj (TestSuites (srClient r))
       TestSuiteControllerFinalizer suite;
     ret (if err \<noteq> None then Exit (suiteRetry r) else Next suite)
   }"

definition TestSuite_handleDeleted ::
  "'w TestSuiteReconciler \<Rightarrow> TestRun list \<Rightarrow> ('w Env, TestRun list Step) state" where
  "TestSuite_handleDeleted r runs = do {
     left \<leftarrow> handleDeleted TestRunObj (TestRuns (srClient r)) TestSuiteControllerFinalizer runs;
     ret (case left of Inl e \<Rightarrow> Exit (suiteRetry r) | Inr runs \<Rightarrow> Next runs)
   }"

definition TestSuiteReconciler_phase ::
  "'w TestSuiteReconciler \<Rightarrow> TestRun list \<Rightarrow> TestSuite \<Rightarrow> ('w Env, Outcome Step) state" where
  "TestSuiteReconciler_phase r runs suite = do {
     out \<leftarrow> (if TestSuitePhase_IsRunning (tsstPhase (suite_Status suite))
             then TestSuiteReconciler_isRunning r suite runs
             else TestSuiteReconciler_notRunning r suite runs);
     ret (Next out)
   }"

definition TestSuiteReconciler_active ::
  "'w TestSuiteReconciler \<Rightarrow> TestSuite \<Rightarrow> TestRun list \<Rightarrow> ('w Env, Outcome) state" where
  "TestSuiteReconciler_active r suite runs = finish (
     andThen (ensureSuiteFinalizer r suite) (\<lambda>suite.
     andThen (scheduleChanged r suite) (\<lambda>suite.
     andThen (do { suite \<leftarrow> helmTriggerChanged r suite; ret (Next suite) }) (\<lambda>suite.
     andThen (TestSuite_handleDeleted r runs) (\<lambda>runs.
     let runs = sortSlice r runs in
     andThen (ensurePhase r runs suite) (TestSuiteReconciler_phase r runs))))))"

definition TestSuiteReconciler_Reconcile ::
  "'w TestSuiteReconciler \<Rightarrow> NamespacedName \<Rightarrow> ('w Env, Outcome) state" where
  "TestSuiteReconciler_Reconcile r req = do {
     got \<leftarrow> Get (TestSuites (srClient r)) req;
     (case got of
        Inl e \<Rightarrow>
          ret (if IgnoreNotFound (srClient r) (Some e) = None then done' else suiteRetry r)
      | Inr suite \<Rightarrow> do {
          metric (SuiteRunsWithLabelValues (Namespace (Meta suite)) (Name (Meta suite)));
          metric (SuitePassingWithLabelValues (Namespace (Meta suite)) (Name (Meta suite)));
          metric (SuiteFailingWithLabelValues (Namespace (Meta suite)) (Name (Meta suite)));
          listed \<leftarrow> ListObjs (TestRuns (srClient r))
            [InNamespace (nnNamespace req), MatchingFields testIndexKey (nnName req)];
          (case listed of
             Inl e \<Rightarrow> ret (suiteRetry r)
           | Inr runs \<Rightarrow>
               (if GetDeletionTimestamp suite \<noteq> None then TestSuiteReconciler_deleted r suite runs
                else TestSuiteReconciler_active r suite runs))
        })
   }"

text \<open>The index functions registered by \<open>SetupWithManager\<close>.\<close>

definition TestSuiteReconciler_runIndex :: "(TestRun \<Rightarrow> OwnerReference option) \<Rightarrow> TestRun \<Rightarrow> string list" where
  "TestSuiteReconciler_runIndex GetControllerOf run =
     (case GetControllerOf run of
        None \<Rightarrow> []
      | Some owner \<Rightarrow>
          (if orAPIVersion owner = GroupVersion \<and> orKind owner = ''TestSuite'' then [orName owner]
           else []))"

definition TestSuiteReconciler_secretIndex :: "Secret \<Rightarrow> string list" where
  "TestSuiteReconciler_secretIndex secret =
     (if secret_Type secret \<noteq> '''' then [secret_Type secret] else [])"

section \<open>What the handler writes\<close>

text \<open>The phase changes the controller may ask for.\<close>

definition suiteTransition :: "TestSuitePhase \<Rightarrow> TestSuitePhase \<Rightarrow> bool" where
  "suiteTransition p q \<longleftrightarrow>
     p = q \<or> q = TestSuiteRunning \<or> p = '''' \<and> q = TestSuitePending \<or>
     p = TestSuitePending \<and> q = TestSuiteReady \<or> p = TestSuiteRunning \<and> q = TestSuiteReady"

abbreviation suitePhase :: "TestSuite \<Rightarrow> TestSuitePhase" where
  "suitePhase suite \<equiv> tsstPhase (suite_Status suite)"

text \<open>The changes outside the status, finalizers apart.\<close>

definition suitePatch :: "TestSuite \<Rightarrow> TestSuite \<Rightarrow> bool" where
  "suitePatch new orig \<longleftrightarrow>
     new = dropSchedule orig \<or> new = annotateSchedule orig \<or>
     new = labelHelm (helmLabel orig) orig \<or> new = resetTrigger orig \<or>
     (\<exists>release. new = annotateHelm release orig)"

lemma suite_phase_simps [simp]:
  "suitePhase (setSuiteCondition c ty st re msg suite) = suitePhase suite"
  "suitePhase (clearNextRun suite) = suitePhase suite"
  "suitePhase (unscheduled c suite) = suitePhase suite"
  "suitePhase (dropSchedule suite) = suitePhase suite"
  "suitePhase (focusRun n suite) = TestSuiteRunning"
  "suitePhase (setSuitePhase p suite) = p"
  "suitePhase (scheduleSet c t suite) = suitePhase suite"
  "suitePhase (scheduleInvalid c suite) = suitePhase suite"
  "suitePhase (setNextRun t suite) = suitePhase suite"
  "suitePhase (triggered r suite trigger) = TestSuiteRunning"
  "suitePhase (runStarted c n suite) = suitePhase suite"
  "suitePhase (runCompleted c n suite) = TestSuiteReady"
  by (simp_all add: setSuiteCondition_def clearNextRun_def unscheduled_def dropSchedule_def
      focusRun_def setSuitePhase_def scheduleSet_def scheduleInvalid_def setNextRun_def
      triggered_def runStarted_def runCompleted_def setSuiteStatus_def setSuiteMeta_def)

lemma suiteTransition_simps [simp]:
  "suiteTransition p p" "suiteTransition p TestSuiteRunning" "suiteTransition '''' TestSuitePending"
  "suiteTransition TestSuitePending TestSuiteReady" "suiteTransition TestSuiteRunning TestSuiteReady"
  by (simp_all add: suiteTransition_def)

text \<open>
  What is known of the suite that the handler works on: a predicate that the answer to the request
  has, and that its updates and the answers to its patches keep.
\<close>

locale suite_invariant =
  fixes I :: "TestSuite \<Rightarrow> bool"
    and r :: "'w TestSuiteReconciler"
    and req :: NamespacedName
  assumes I_get: "doGet (TestSuites (srClient r)) req w = (Inr suite, w') \<Longrightarrow> I suite"
    and I_patch: "I new \<Longrightarrow> doPatch (TestSuites (srClient r)) new orig w = (Inr suite, w') \<Longrightarrow> I suite"
    and I_patchStatus: "I new \<Longrightarrow> doStatusPatch (TestSuites (srClient r)) new orig w = (Inr suite, w')
      \<Longrightarrow> I suite"
    and I_finalizers: "I suite \<Longrightarrow> I (SetFinalizers fs suite)"
    and I_status: "I suite \<Longrightarrow> I (setSuiteStatus f suite)"
    and I_suitePatch: "I suite \<Longrightarrow> suitePatch new suite \<Longrightarrow> I new"
begin

lemma I_updates:
  assumes "I suite"
  shows "I (setSuiteCondition c ty st re msg suite)" "I (clearNextRun suite)" "I (unscheduled c suite)"
    "I (focusRun n suite)" "I (setSuitePhase p suite)" "I (scheduleSet c t suite)"
    "I (scheduleInvalid c suite)" "I (setNextRun t suite)" "I (triggered r suite trigger)"
    "I (runStarted c n suite)" "I (runCompleted c n suite)"
  using assms
  by (simp_all add: setSuiteCondition_def clearNextRun_def unscheduled_def focusRun_def setSuitePhase_def
      scheduleSet_def scheduleInvalid_def setNextRun_def triggered_def runStarted_def runCompleted_def I_status)

lemma patchSuite_keeps: "I new \<Longrightarrow> returns (patchSuite r new orig) (stepOk I (\<lambda>_. True))"
  unfolding patchSuite_def
  by (rule returns_bind [OF Patch_returns [where I = I]]) (auto intro!: return_rules returns_ret intro: I_patch)

lemma patchSuiteStatus_keeps: "I new \<Longrightarrow> returns (patchSuiteStatus r new orig) (stepOk I (\<lambda>_. True))"
  unfolding patchSuiteStatus_def
  by (rule returns_bind [OF StatusPatch_returns [where I = I]])
     (auto intro!: return_rules returns_ret intro: I_patchStatus)

end

text \<open>
  A property of single calls holds of every call of the stages when it holds of the calls they make
  on the runs and on the suite.
\<close>

locale suite_stages = suite_invariant I r req
  for I and r :: "'w TestSuiteReconciler" and req +
  fixes P :: "Call \<Rightarrow> bool"
  assumes P_read: "P (GetCall (rcKind (TestSuites (srClient r))) req)"
      "P (GetCall (rcKind (HelmPolicies (srClient r))) key)"
      "P (ListCall (rcKind (TestRuns (srClient r)))
        [InNamespace (nnNamespace req), MatchingFields testIndexKey (nnName req)])"
      "P (ListCall (rcKind (Secrets (srClient r))) opts)"
    and P_report: "P (MetricCall m)" "P (EventCall (TestSuiteObj suite) ty reason msg)"
    and P_cleanUp: "cleanUpCall TestSuiteControllerFinalizer (TestRunObj run) call \<Longrightarrow> P call"
    and P_release: "I suite \<Longrightarrow> cleanUpCall TestSuiteControllerFinalizer (TestSuiteObj suite) call
      \<Longrightarrow> GetDeletionTimestamp suite \<noteq> None \<Longrightarrow> P call"
    and P_add: "I suite \<Longrightarrow> addsFinalizer TestSuiteControllerFinalizer (TestSuiteObj new) (TestSuiteObj suite)
      \<Longrightarrow> GetDeletionTimestamp suite = None
      \<Longrightarrow> P (PatchCall (TestSuiteObj new) (TestSuiteObj suite) e)"
    and P_patch: "I suite \<Longrightarrow> suitePatch new suite
      \<Longrightarrow> P (PatchCall (TestSuiteObj new) (TestSuiteObj suite) e)"
    and P_create: "I suite \<Longrightarrow> TestSuitePhase_IsRunning (suitePhase suite)
      \<Longrightarrow> CurrentTestRun (suite_Status suite) = ''''
      \<Longrightarrow> P (CreateCall (TestRunObj (newRun r suite)) e)"
    and P_status: "I suite \<Longrightarrow> I new \<Longrightarrow> suiteTransition (suitePhase suite) (suitePhase new)
      \<Longrightarrow> P (StatusPatchCall (TestSuiteObj new) (TestSuiteObj suite) e)"
begin

lemma patchSuite_calls:
  assumes "I suite" and "suitePatch new suite"
  shows "emits (list_all P) (patchSuite r new suite) (stepOk I (\<lambda>_. True))"
proof (rule emits_returns [OF _ patchSuite_keeps])
  show "emits' (list_all P) (patchSuite r new suite)"
    unfolding patchSuite_def by (intro emit_rules each_call_rules) (simp_all add: P_patch assms)
  show "I new" by (rule I_suitePatch [OF assms])
qed

lemma patchSuiteStatus_calls:
  assumes "I suite" and "I new" and "suiteTransition (suitePhase suite) (suitePhase new)"
  shows "emits (list_all P) (patchSuiteStatus r new suite) (stepOk I (\<lambda>_. True))"
proof (rule emits_returns [OF _ patchSuiteStatus_keeps [OF assms(2)]])
  show "emits' (list_all P) (patchSuiteStatus r new suite)"
    unfolding patchSuiteStatus_def by (intro emit_rules each_call_rules) (simp_all add: P_status assms)
qed

lemma statusPatch_calls:
  assumes "I suite" and "I new" and "suiteTransition (suitePhase suite) (suitePhase new)"
  shows "emits (list_all P) (StatusPatch TestSuiteObj (TestSuites (srClient r)) new suite) (\<lambda>(_, x). I x)"
  by (intro emits_returns [OF each_call.emits_StatusPatch StatusPatch_returns])
     (auto intro: P_status assms I_patchStatus)

lemma Now_calls: "emits' (list_all P) (Now r)"
  by (rule emitsI) (auto simp: Now_def split: prod.splits)

lemma helmTriggerChanged_calls:
  assumes "I suite"
  shows "emits (list_all P) (helmTriggerChanged r suite) I"
proof (rule emits_returns)
  show "emits' (list_all P) (helmTriggerChanged r suite)"
    unfolding helmTriggerChanged_def
    by (intro emit_rules each_call_rules) (auto simp: suitePatch_def assms intro!: P_patch)
  have "I (labelHelm (helmLabel suite) suite)" by (rule I_suitePatch [OF assms]) (simp add: suitePatch_def)
  then show "returns (helmTriggerChanged r suite) I"
    unfolding helmTriggerChanged_def
    by (intro return_rules returns_bind [OF Patch_returns [where I = I]])
       (auto intro!: return_rules returns_ret assms intro: I_patch)
qed

lemma adoptRuns_calls: "I suite \<Longrightarrow> emits (list_all P) (adoptRuns r runs suite) (stepOk I (\<lambda>_. True))"
proof (induction runs arbitrary: suite)
  case Nil
  then show ?case by (simp add: each_call.emits_ret)
next
  case (Cons run runs)
  then show ?case
    by (auto intro!: each_call.emits_andThen_ok [OF patchSuiteStatus_calls] I_updates)
qed

lemma ensurePhase_calls:
  "I suite \<Longrightarrow> emits (list_all P) (ensurePhase r runs suite) (stepOk I (\<lambda>_. True))"
  unfolding ensurePhase_def
  by (auto intro!: emit_rules each_call.emits_andThen_ok [OF adoptRuns_calls] patchSuiteStatus_calls
      each_call.emits_ret I_updates)

lemma cleanUpRuns_calls:
  "emits' (list_all P) (cleanUpAll c TestRunObj rc TestSuiteControllerFinalizer runs)"
  by (intro run_object.cleanUpAll_calls) (rule P_cleanUp)

lemma ensureReady_calls:
  "I suite \<Longrightarrow> emits (list_all P) (ensureReady r suite) (stepOk I (\<lambda>_. True))"
  unfolding ensureReady_def
  by (auto intro!: emit_rules patchSuiteStatus_calls each_call.emits_ret I_updates)

lemma enforceHistory_calls: "emits' (list_all P) (enforceHistory r suite runs)"
  unfolding enforceHistory_def by (intro emit_rules each_call_rules cleanUpRuns_calls) simp_all

lemma parseSchedule_calls:
  "I suite \<Longrightarrow> emits (list_all P) (parseSchedule r when' suite) (stepOk (\<lambda>(suite, _). I suite) (\<lambda>_. True))"
  unfolding parseSchedule_def
  by (auto intro!: emit_rules each_call.emits_bind' [OF Now_calls] each_call.emits_bind [OF statusPatch_calls]
      each_call.emits_andThen_ok [OF patchSuiteStatus_calls] each_call.emits_ret I_updates)

lemma ensureSchedule_calls:
  "I suite \<Longrightarrow> emits (list_all P) (ensureSchedule r suite) (stepOk (\<lambda>(suite, _). I suite) (\<lambda>_. True))"
  unfolding ensureSchedule_def Let_def
  by (intro emit_rules each_call.emits_andThen_ok [where S = I] patchSuite_calls parseSchedule_calls
        each_call.emits_ret)
     (auto simp: suitePatch_def)

lemma currentHelmRelease_calls: "emits' (list_all P) (currentHelmRelease r suite)"
  unfolding currentHelmRelease_def observableRelease_def
  by (intro emit_rules each_call_rules each_call.emits_andThen') (simp_all add: P_read)

lemma scheduledTrigger_calls:
  "I suite \<Longrightarrow> emits (list_all P) (scheduledTrigger r schedule next suite)
    (stepOk (\<lambda>(suite, trigger). I suite \<and> I (trigPatch trigger)) (\<lambda>_. True))"
  unfolding scheduledTrigger_def
  by (auto intro!: emit_rules each_call.emits_bind' [OF Now_calls]
      each_call.emits_andThen_ok [OF patchSuiteStatus_calls] each_call.emits_ret I_updates)

lemma chooseTrigger_calls:
  "I suite \<Longrightarrow> emits (list_all P) (chooseTrigger r release schedule suite)
    (stepOk (\<lambda>(suite, trigger). I suite \<and> I (trigPatch trigger)) (\<lambda>_. True))"
  unfolding chooseTrigger_def
  by (intro emit_rules each_call.emits_andThen_ok [OF patchSuite_calls] scheduledTrigger_calls
        each_call.emits_ret)
     (auto simp: suitePatch_def)

lemma pullTrigger_calls:
  "I (fst st) \<Longrightarrow> I (trigPatch (snd st)) \<Longrightarrow> emits' (list_all P) (pullTrigger r st)"
  unfolding pullTrigger_def case_prod_unfold
  by (intro each_call.emits_andThen [OF patchSuiteStatus_calls] each_call.emits_bind'
        each_call.emits_Event each_call.emits_ret)
     (simp_all add: P_report I_updates)

lemma notRunning_calls:
  "I suite \<Longrightarrow> emits' (list_all P) (TestSuiteReconciler_notRunning r suite runs)"
  unfolding TestSuiteReconciler_notRunning_def finish_def
  by (intro each_call.emits_bind' each_call.emits_ret each_call.emits_andThen [OF ensureReady_calls]
        each_call.emits_andThen' [OF enforceHistory_calls] each_call.emits_andThen [OF ensureSchedule_calls]
        emit_rules each_call.emits_andThen' [OF currentHelmRelease_calls]
        each_call.emits_andThen [OF chooseTrigger_calls] pullTrigger_calls)
     auto

lemma startRun_calls:
  assumes "I suite" and "TestSuitePhase_IsRunning (suitePhase suite)"
    and "CurrentTestRun (suite_Status suite) = ''''"
  shows "emits' (list_all P) (startRun r suite)"
  unfolding startRun_def
  by (intro emit_rules each_call_rules each_call.emits_andThen [OF patchSuiteStatus_calls])
     (simp_all add: P_report P_create I_updates assms)

lemma followRun_calls:
  "I suite \<Longrightarrow> TestSuitePhase_IsRunning (suitePhase suite) \<Longrightarrow> emits' (list_all P) (followRun r suite run)"
  unfolding followRun_def reportRun_def
  by (intro emit_rules each_call_rules each_call.emits_andThen [OF patchSuiteStatus_calls])
     (simp_all add: P_report TestSuitePhase_IsRunning_def I_updates)

lemma isRunning_calls:
  "I suite \<Longrightarrow> TestSuitePhase_IsRunning (suitePhase suite)
    \<Longrightarrow> emits' (list_all P) (TestSuiteReconciler_isRunning r suite runs)"
  unfolding TestSuiteReconciler_isRunning_def finish_def
  by (intro emit_rules each_call_rules startRun_calls followRun_calls) simp_all

lemma deleted_calls:
  "I suite \<Longrightarrow> GetDeletionTimestamp suite \<noteq> None
    \<Longrightarrow> emits' (list_all P) (TestSuiteReconciler_deleted r suite runs)"
  unfolding TestSuiteReconciler_deleted_def
  by (intro emit_rules each_call_rules cleanUpRuns_calls suite_object.cleanUp_calls)
     (auto intro: P_release)

lemma ensureSuiteFinalizer_calls:
  assumes "I suite" and "GetDeletionTimestamp suite = None"
  shows "emits (list_all P) (ensureSuiteFinalizer r suite) (stepOk I (\<lambda>_. True))"
proof (rule emits_returns)
  show "emits' (list_all P) (ensureSuiteFinalizer r suite)"
    unfolding ensureSuiteFinalizer_def
    by (intro emit_rules each_call_rules suite_object.addFinalizer_calls) (simp_all add: P_add assms)
  show "returns (ensureSuiteFinalizer r suite) (stepOk I (\<lambda>_. True))"
    unfolding ensureSuiteFinalizer_def
    by (rule returns_bind [OF addFinalizer_returns [where I = I]])
       (auto intro!: return_rules returns_ret assms intro: I_finalizers I_patch assms)
qed

lemma handleDeletedRuns_calls: "emits' (list_all P) (TestSuite_handleDeleted r runs)"
  unfolding TestSuite_handleDeleted_def
  by (intro emit_rules each_call_rules handleDeleted_calls [OF run_object.client_object_axioms])
     (auto intro: P_cleanUp)

lemma phase_calls: "I suite \<Longrightarrow> emits' (list_all P) (TestSuiteReconciler_phase r runs suite)"
  unfolding TestSuiteReconciler_phase_def
  by (intro emit_rules each_call.emits_bind' isRunning_calls notRunning_calls each_call.emits_ret)
     simp_all

lemma helmStage_calls:
  "I suite \<Longrightarrow> emits (list_all P) (do { suite \<leftarrow> helmTriggerChanged r suite; ret (Next suite) })
    (stepOk I (\<lambda>_. True))"
  by (rule each_call.emits_bind [OF helmTriggerChanged_calls]) (auto intro: each_call.emits_ret)

text \<open>The stages that follow the change of the schedule.\<close>

lemma settle_calls:
  "I suite \<Longrightarrow> emits' (list_all P)
     (andThen (do { suite \<leftarrow> helmTriggerChanged r suite; ret (Next suite) }) (\<lambda>suite.
      andThen (TestSuite_handleDeleted r runs) (\<lambda>runs.
      let runs = sortSlice r runs in
      andThen (ensurePhase r runs suite) (TestSuiteReconciler_phase r runs))))"
  by (intro each_call.emits_andThen [OF helmStage_calls] each_call.emits_andThen' [OF handleDeletedRuns_calls]
        emit_rules each_call.emits_andThen [OF ensurePhase_calls] phase_calls) simp_all

end

text \<open>
  Of every call of the handler when it holds also of the status that is written after the annotation
  of the schedule has been dropped: it is diffed with the suite as it was before.
\<close>

locale suite_call_property = suite_stages I r req P
  for I and r :: "'w TestSuiteReconciler" and req and P +
  assumes P_unscheduled: "I suite \<Longrightarrow> I suite'
      \<Longrightarrow> doPatch (TestSuites (srClient r)) (dropSchedule suite) suite w = (Inr suite', w')
      \<Longrightarrow> P (StatusPatchCall (TestSuiteObj (unscheduled (srClient r) suite')) (TestSuiteObj suite) e)"
begin

lemma dropSchedule_answer:
  assumes "I suite"
  shows "emits (list_all P) (patchSuite r (dropSchedule suite) suite)
     (stepOk (\<lambda>suite'. I suite' \<and>
       (\<exists>w w'. doPatch (TestSuites (srClient r)) (dropSchedule suite) suite w = (Inr suite', w'))) (\<lambda>_. True))"
proof (rule emits_returns)
  have p: "suitePatch (dropSchedule suite) suite" by (simp add: suitePatch_def)
  show "emits' (list_all P) (patchSuite r (dropSchedule suite) suite)"
    by (rule emits_weaken [OF patchSuite_calls [OF assms p]]) simp
  show "returns (patchSuite r (dropSchedule suite) suite)
     (stepOk (\<lambda>suite'. I suite' \<and>
       (\<exists>w w'. doPatch (TestSuites (srClient r)) (dropSchedule suite) suite w = (Inr suite', w'))) (\<lambda>_. True))"
    unfolding returns_def
  proof
    fix s :: "'w Env"
    have "I (dropSchedule suite)" by (rule I_suitePatch [OF assms p])
    then show "stepOk (\<lambda>suite'. I suite' \<and>
        (\<exists>w w'. doPatch (TestSuites (srClient r)) (dropSchedule suite) suite w = (Inr suite', w')))
        (\<lambda>_. True) (fst (run_state (patchSuite r (dropSchedule suite) suite) s))"
      by (cases "doPatch (TestSuites (srClient r)) (dropSchedule suite) suite (cluster s)";
          cases "fst (doPatch (TestSuites (srClient r)) (dropSchedule suite) suite (cluster s))")
         (auto simp: patchSuite_def Patch_def dest: I_patch)
  qed
qed

lemma unscheduled_calls:
  assumes "I suite" and "I suite'"
    and "suite' = suite \<or> (\<exists>w w'. doPatch (TestSuites (srClient r)) (dropSchedule suite) suite w = (Inr suite', w'))"
  shows "emits (list_all P) (patchSuiteStatus r (unscheduled (srClient r) suite') suite) (stepOk I (\<lambda>_. True))"
proof (rule emits_returns [OF _ patchSuiteStatus_keeps [OF I_updates(3) [OF assms(2)]]])
  show "emits' (list_all P) (patchSuiteStatus r (unscheduled (srClient r) suite') suite)"
    using assms unfolding patchSuiteStatus_def
    by (intro emit_rules each_call_rules) (auto intro: P_unscheduled P_status I_updates)
qed

lemma scheduleChanged_calls:
  assumes "I suite"
  shows "emits (list_all P) (scheduleChanged r suite) (stepOk I (\<lambda>_. True))"
  unfolding scheduleChanged_def
  by (intro emit_rules each_call.emits_bind [OF statusPatch_calls] each_call.emits_ret
        each_call.emits_andThen_ok [where S = "\<lambda>suite'. I suite' \<and> (suite' = suite \<or>
          (\<exists>w w'. doPatch (TestSuites (srClient r)) (dropSchedule suite) suite w = (Inr suite', w')))"]
        emits_weaken [OF dropSchedule_answer] unscheduled_calls)
     (auto simp: stepOk_def assms split: Step.splits intro!: emit_rules each_call.emits_ret I_updates)

lemma active_calls:
  "I suite \<Longrightarrow> GetDeletionTimestamp suite = None
    \<Longrightarrow> emits' (list_all P) (TestSuiteReconciler_active r suite runs)"
  unfolding TestSuiteReconciler_active_def finish_def
  by (intro each_call.emits_bind' each_call.emits_ret
        each_call.emits_andThen [OF ensureSuiteFinalizer_calls]
        each_call.emits_andThen [OF scheduleChanged_calls] settle_calls) simp_all

lemma Reconcile_calls: "emits' (list_all P) (TestSuiteReconciler_Reconcile r req)"
  unfolding TestSuiteReconciler_Reconcile_def
proof (rule each_call.emits_bind)
  show "emits (list_all P) (Get (TestSuites (srClient r)) req) (answers I)"
    by (intro emits_returns [OF each_call.emits_Get Get_returns]) (auto intro: P_read I_get)
qed (auto intro!: emit_rules each_call_rules deleted_calls active_calls simp: P_read P_report)

end

text \<open>The runs the controller may create, and what it may patch outside the status.\<close>

definition suiteRun :: "TestRun \<Rightarrow> bool" where
  "suiteRun run \<longleftrightarrow>
     Name (Meta run) = '''' \<and> Finalizers (Meta run) = [TestSuiteControllerFinalizer] \<and>
     DeletionTimestamp (Meta run) = None \<and> trstPhase (run_Status run) = '''' \<and>
     (case OwnerReferences (Meta run) of
        [owner] \<Rightarrow> orController owner = Some True \<and> orBlockOwnerDeletion owner = Some True \<and>
          GenerateName (Meta run) = orName owner @ ''-''
      | _ \<Rightarrow> False)"

definition suiteMetaWrite :: "TestSuite \<Rightarrow> TestSuite \<Rightarrow> bool" where
  "suiteMetaWrite new orig \<longleftrightarrow>
     suite_Spec new = suite_Spec orig \<and> suite_Status new = suite_Status orig \<and>
     (Meta new)\<lparr>Labels := Labels (Meta orig), Annotations := Annotations (Meta orig)\<rparr> = Meta orig \<and>
     (NeedsRun (suite_Trigger new) \<longrightarrow> NeedsRun (suite_Trigger orig))"

definition suiteObjectWrite :: "Call \<Rightarrow> bool" where
  "suiteObjectWrite call =
     (case call of
        CreateCall (TestRunObj run) e \<Rightarrow> suiteRun run
      | CreateCall _ e \<Rightarrow> False
      | PatchCall (TestSuiteObj new) (TestSuiteObj orig) e \<Rightarrow>
          dropsFinalizer TestSuiteControllerFinalizer (TestSuiteObj new) (TestSuiteObj orig) \<or>
          addsFinalizer TestSuiteControllerFinalizer (TestSuiteObj new) (TestSuiteObj orig) \<and>
            GetDeletionTimestamp orig = None \<or>
          suiteMetaWrite new orig
      | PatchCall new orig e \<Rightarrow> dropsFinalizer TestSuiteControllerFinalizer new orig
      | DeleteCall (TestRunObj run) e \<Rightarrow> GetDeletionTimestamp run = None
      | DeleteCall _ e \<Rightarrow> False
      | StatusPatchCall (TestSuiteObj new) (TestSuiteObj orig) e \<Rightarrow> True
      | StatusPatchCall _ _ e \<Rightarrow> False
      | _ \<Rightarrow> True)"

lemma suitePatch_metaWrite: "suitePatch new orig \<Longrightarrow> suiteMetaWrite new orig"
  by (auto simp: suitePatch_def suiteMetaWrite_def dropSchedule_def annotateSchedule_def
      labelHelm_def resetTrigger_def annotateHelm_def setSuiteMeta_def)

lemma cleanUpCall_suiteObjectWrite:
  "cleanUpCall TestSuiteControllerFinalizer (TestRunObj run) call \<Longrightarrow> suiteObjectWrite call"
  "cleanUpCall TestSuiteControllerFinalizer (TestSuiteObj suite) call
    \<Longrightarrow> GetDeletionTimestamp suite \<noteq> None \<Longrightarrow> suiteObjectWrite call"
  by (cases call; auto simp: suiteObjectWrite_def GetDeletionTimestamp_def split: Object.splits)+

interpretation suite_object_write: suite_call_property "\<lambda>_. True" r req suiteObjectWrite for r req
  by (unfold_locales; (erule cleanUpCall_suiteObjectWrite; assumption)?;
      (simp add: suiteObjectWrite_def suitePatch_metaWrite suiteRun_def newRun_def Let_def emptyMeta_def)?)

text \<open>The phases written.\<close>

definition suiteStatusWrite :: "Call \<Rightarrow> bool" where
  "suiteStatusWrite call =
     (case call of
        StatusPatchCall (TestSuiteObj new) (TestSuiteObj orig) e \<Rightarrow>
          suiteTransition (suitePhase orig) (suitePhase new)
      | StatusPatchCall _ _ e \<Rightarrow> False
      | _ \<Rightarrow> True)"

interpretation suite_status_write: suite_stages "\<lambda>_. True" r req suiteStatusWrite for r req
  by unfold_locales (auto simp: suiteStatusWrite_def elim!: cleanUpCall.elims)

section \<open>What the handler returns\<close>

definition missingRun :: error where
  "missingRun = ErrorString ''current test run is missing''"

text \<open>No panic, and no error but the one for a missing run.\<close>

definition suiteOut :: "Outcome \<Rightarrow> bool" where
  "suiteOut out = (case out of Panic \<Rightarrow> False | Return res err \<Rightarrow> err = None \<or> err = Some missingRun)"

lemma suiteOut_simps [simp]:
  "suiteOut (suiteRetry r)" "suiteOut done'" "suiteOut (requeueAfter d)" "\<not> suiteOut Panic"
  by (simp_all add: suiteOut_def suiteRetry_def done'_def requeueAfter_def)

lemma suite_next_simps [simp]:
  "NextRun (suite_Status (setSuiteCondition c ty st re msg suite)) = NextRun (suite_Status suite)"
  "NextRun (suite_Status (clearNextRun suite)) = None"
  "NextRun (suite_Status (unscheduled c suite)) = None"
  "NextRun (suite_Status (dropSchedule suite)) = NextRun (suite_Status suite)"
  "NextRun (suite_Status (labelHelm l suite)) = NextRun (suite_Status suite)"
  "NextRun (suite_Status (focusRun n suite)) = NextRun (suite_Status suite)"
  "NextRun (suite_Status (setSuitePhase p suite)) = NextRun (suite_Status suite)"
  "NextRun (suite_Status (annotateSchedule suite)) = NextRun (suite_Status suite)"
  "NextRun (suite_Status (scheduleSet c t suite)) = Some t"
  "NextRun (suite_Status (scheduleInvalid c suite)) = None"
  by (simp_all add: setSuiteCondition_def clearNextRun_def unscheduled_def dropSchedule_def
      labelHelm_def focusRun_def setSuitePhase_def annotateSchedule_def scheduleSet_def
      scheduleInvalid_def setSuiteStatus_def setSuiteMeta_def)

lemma suite_when_simps [simp]:
  "suite_Spec (setSuiteCondition c ty st re msg suite) = suite_Spec suite"
  "suite_Spec (clearNextRun suite) = suite_Spec suite"
  "suite_Spec (unscheduled c suite) = suite_Spec suite"
  "suite_Spec (dropSchedule suite) = suite_Spec suite"
  "suite_Spec (labelHelm l suite) = suite_Spec suite"
  "suite_Spec (focusRun n suite) = suite_Spec suite"
  "suite_Spec (setSuitePhase p suite) = suite_Spec suite"
  "suite_Spec (annotateSchedule suite) = suite_Spec suite"
  "suite_Spec (scheduleSet c t suite) = suite_Spec suite"
  "suite_Spec (scheduleInvalid c suite) = suite_Spec suite"
  by (simp_all add: setSuiteCondition_def clearNextRun_def unscheduled_def dropSchedule_def
      labelHelm_def focusRun_def setSuitePhase_def annotateSchedule_def scheduleSet_def
      scheduleInvalid_def setSuiteStatus_def setSuiteMeta_def)

lemma enforceHistory_returns: "returns (enforceHistory r suite runs) (stepOk (\<lambda>_. True) suiteOut)"
  unfolding enforceHistory_def by (intro return_rules returns_bind' returns_ret) auto

text \<open>With no valid schedule there is no next run.\<close>

definition scheduleOk :: "TestSuite \<times> Schedule option \<Rightarrow> bool" where
  "scheduleOk = (\<lambda>(suite, schedule). schedule = None \<longrightarrow> NextRun (suite_Status suite) = None)"

lemma currentHelmRelease_returns: "returns (currentHelmRelease r suite) (stepOk (\<lambda>_. True) suiteOut)"
  unfolding currentHelmRelease_def observableRelease_def
  by (intro return_rules returns_ret returns_bind' returns_andThen [where S = "\<lambda>_. True"])
     (auto split: sum.splits)

lemma patch_returns_any:
  "returns (patchSuite r new orig) (stepOk (\<lambda>_. True) suiteOut)"
  "returns (patchSuiteStatus r new orig) (stepOk (\<lambda>_. True) suiteOut)"
  unfolding patchSuite_def patchSuiteStatus_def
  by (intro return_rules returns_bind' returns_ret, simp)+

lemma scheduledTrigger_returns:
  "schedule \<noteq> None \<Longrightarrow>
   returns (scheduledTrigger r schedule next suite) (stepOk (\<lambda>_. True) suiteOut)"
  unfolding scheduledTrigger_def
  by (intro return_rules returns_ret returns_bind' returns_andThen [OF patch_returns_any(2)]) auto

lemma chooseTrigger_returns:
  "scheduleOk (suite, schedule) \<Longrightarrow>
   returns (chooseTrigger r release schedule suite) (stepOk (\<lambda>_. True) suiteOut)"
  unfolding chooseTrigger_def
  by (intro return_rules returns_ret returns_andThen [OF patch_returns_any(1)]
        scheduledTrigger_returns)
     (auto simp: scheduleOk_def)

lemma pullTrigger_returns: "returns (pullTrigger r st) (stepOk suiteOut suiteOut)"
  unfolding pullTrigger_def
  by (intro return_rules returns_ret returns_bind' returns_andThen [OF patch_returns_any(2)]) simp

lemma finish_returns: "returns m (stepOk X X) \<Longrightarrow> returns (finish m) X"
  unfolding finish_def
  by (rule returns_bind, assumption) (auto intro!: returns_ret split: Step.split)

lemma suite_isRunning_returns: "returns (TestSuiteReconciler_isRunning r suite runs) suiteOut"
  unfolding TestSuiteReconciler_isRunning_def followRun_def startRun_def Let_def
  by (rule finish_returns)
     (auto simp: suiteOut_def [of "Return _ _"] missingRun_def
       intro!: return_rules returns_ret returns_bind' returns_andThen [OF patch_returns_any(2)])

lemma suite_deleted_returns: "returns (TestSuiteReconciler_deleted r suite runs) suiteOut"
  unfolding TestSuiteReconciler_deleted_def
  by (intro return_rules returns_bind' returns_ret) auto

section \<open>History and releases\<close>

lemma enforceHistory_deletes:
  "emits' (\<lambda>cs. deletedObjs cs = deletionsOf TestRunObj
       (take (length runs - unat (tssHistoryLimit (suite_Spec suite))) runs))
     (enforceHistory r suite runs)"
  by (auto simp: enforceHistory_def Let_def
      intro!: emits_seq [OF cleanUpAll_deletes] emit_rules no_delete.emits_ret)

lemma enforceHistory_keeps:
  "returns (enforceHistory r suite runs)
     (stepOk (\<lambda>kept. kept = drop (length runs - unat (tssHistoryLimit (suite_Spec suite))) runs) suiteOut)"
  unfolding enforceHistory_def Let_def by (intro return_rules returns_bind' returns_ret) auto

definition parsedReleases :: "Secret list \<Rightarrow> HelmReleaseMeta list" where
  "parsedReleases secrets = List.map_filter parsedRelease secrets"

lemma parsedReleases_simps [simp]:
  "parsedReleases [] = []"
  "parsedReleases (s # ss) =
     (case parsedRelease s of None \<Rightarrow> parsedReleases ss | Some h \<Rightarrow> h # parsedReleases ss)"
  by (simp_all add: parsedReleases_def List.map_filter_simps split: option.split)

text \<open>The fold keeps the release it has unless a newer one comes.\<close>

lemma newestRelease_some:
  "\<exists>h. newestRelease ss (Some cur) = Some h \<and> h \<in> insert cur (set (parsedReleases ss)) \<and>
     hrVersion cur \<le> hrVersion h \<and> (\<forall>h' \<in> set (parsedReleases ss). hrVersion h' \<le> hrVersion h)"
proof (induction ss arbitrary: cur)
  case Nil
  show ?case by simp
next
  case (Cons s ss)
  show ?case
  proof (cases "parsedRelease s")
    case None
    then show ?thesis using Cons.IH [of cur] by simp
  next
    case (Some h)
    then show ?thesis using Cons.IH [of cur] Cons.IH [of h] by fastforce
  qed
qed

lemma newestRelease_none:
  "case newestRelease ss None of
     None \<Rightarrow> parsedReleases ss = []
   | Some h \<Rightarrow> h \<in> set (parsedReleases ss) \<and> list_all (\<lambda>h'. hrVersion h' \<le> hrVersion h) (parsedReleases ss)"
proof (induction ss)
  case Nil
  show ?case by simp
next
  case (Cons s ss)
  show ?case
  proof (cases "parsedRelease s")
    case None
    then show ?thesis using Cons.IH by (auto split: option.splits)
  next
    case (Some h)
    obtain g where "newestRelease ss (Some h) = Some g" "g \<in> insert h (set (parsedReleases ss))"
      "hrVersion h \<le> hrVersion g" "\<forall>h' \<in> set (parsedReleases ss). hrVersion h' \<le> hrVersion g"
      using newestRelease_some [of ss h] by auto
    with Some show ?thesis by (auto simp: list_all_iff)
  qed
qed

section \<open>Deletion of a suite\<close>

definition patchesSuite :: "Call \<Rightarrow> bool" where
  "patchesSuite call = (case call of PatchCall new (TestSuiteObj orig) e \<Rightarrow> True | _ \<Rightarrow> False)"

lemma suite_deleted_deletes:
  assumes "runs \<noteq> []"
  shows "emits' (\<lambda>cs. deletedObjs cs = deletionsOf TestRunObj runs) (TestSuiteReconciler_deleted r suite runs)"
  using assms
  by (auto simp: TestSuiteReconciler_deleted_def
      intro!: emits_seq [OF cleanUpAll_deletes] emit_rules no_delete.emits_ret)

lemma suite_deleted_keeps_finalizer:
  assumes "runs \<noteq> []"
  shows "emits' (list_all (\<lambda>call. \<not> patchesSuite call)) (TestSuiteReconciler_deleted r suite runs)"
proof -
  have "\<not> patchesSuite call" if "cleanUpCall TestSuiteControllerFinalizer (TestRunObj run) call" for run call
    using that by (cases call) (auto simp: patchesSuite_def)
  with assms show ?thesis
    by (auto simp: TestSuiteReconciler_deleted_def
        intro!: emit_rules each_call_rules run_object.cleanUpAll_calls)
qed

section \<open>Sample objects\<close>

definition sampleSuite :: "TestSuitePhase \<Rightarrow> string \<Rightarrow> string \<Rightarrow> TestSuite" where
  "sampleSuite phase sched release =
     \<lparr>APIVersion = GroupVersion, Kind = ''TestSuite'',
      Meta = emptyMeta\<lparr>Name := ''suite'', Namespace := ''ns'', Finalizers := [TestSuiteControllerFinalizer]\<rparr>,
      suite_Spec = \<lparr>tssHistoryLimit = 1,
        tssSetUp = \<lparr>suHelm = \<lparr>suSecretName = '''', suChartKey = '''', suValuesKey = ''''\<rparr>\<rparr>,
        tssTemplate = \<lparr>trsRetentionPolicy = RetainNever, trsTests = []\<rparr>,
        tssWhen = \<lparr>whenSchedule = sched, whenHelmRelease = release\<rparr>\<rparr>,
      suite_Trigger = \<lparr>NeedsRun = False\<rparr>,
      suite_Status = \<lparr>tsstConditions = [], tsstPhase = phase, CurrentTestRun = '''', NextRun = None\<rparr>\<rparr>"

text \<open>The clock stands at one thousand seconds; a schedule is due a minute later.\<close>

definition sampleSuiteReconciler :: "unit TestSuiteReconciler" where
  "sampleSuiteReconciler =
     \<lparr>srClient = staticClient, srErrRequeueDelay = Minute,
      CronParser = (\<lambda>s. Inr (\<lambda>t. t + Minute)), ClockNow = (\<lambda>w. (1000 * Second, w)),
      spewPrint = (\<lambda>_. ''spec''), SafeEncodeString = (\<lambda>s. s),
      sortSlice = sort_key (\<lambda>run. CreationTimestamp (Meta run)), Separator = CHR ''/''\<rparr>"

lemma sampleSuite_simps [simp]:
  "suitePhase (sampleSuite p s h) = p" "whenSchedule (tssWhen (suite_Spec (sampleSuite p s h))) = s"
  "whenHelmRelease (tssWhen (suite_Spec (sampleSuite p s h))) = h"
  "tssHistoryLimit (suite_Spec (sampleSuite p s h)) = 1"
  "Namespace (Meta (sampleSuite p s h)) = ''ns''" "Name (Meta (sampleSuite p s h)) = ''suite''"
  "NeedsRun (suite_Trigger (sampleSuite p s h)) = False"
  "Annotations (Meta (sampleSuite p s h)) = None"
  "CurrentTestRun (suite_Status (sampleSuite p s h)) = ''''"
  "NextRun (suite_Status (sampleSuite p s h)) = None"
  by (simp_all add: sampleSuite_def emptyMeta_def)

lemma sampleSuiteReconciler_simps [simp]:
  "srClient sampleSuiteReconciler = staticClient" "ClockNow sampleSuiteReconciler w = (1000 * Second, w)"
  by (simp_all add: sampleSuiteReconciler_def)

section \<open>Properties\<close>


text \<open>
  C11. The history limit. Of the runs, sorted by their age, exactly those before the last
  \<open>historyLimit\<close> are deleted, unless they are being deleted already, and when that succeeds no more
  than \<open>historyLimit\<close> are left, none older than a deleted one.
\<close>

theorem suite_history:
  fixes suite :: TestSuite and runs :: "TestRun list"
  assumes "sorted (map (\<lambda>run. CreationTimestamp (Meta run)) runs)"
  defines "n \<equiv> length runs - unat (tssHistoryLimit (suite_Spec suite))"
  shows "deletedObjs (callsOf (enforceHistory r suite runs) w) = deletionsOf TestRunObj (take n runs) \<and>
    (case resultOf (enforceHistory r suite runs) w of
       Exit out \<Rightarrow> suiteOut out
     | Next kept \<Rightarrow> length kept \<le> unat (tssHistoryLimit (suite_Spec suite)) \<and>
         list_all (\<lambda>old. list_all (\<lambda>new. CreationTimestamp (Meta old) \<le> CreationTimestamp (Meta new)) kept)
           (take n runs))"
proof -
  have "sorted (map (\<lambda>run. CreationTimestamp (Meta run)) (take n runs @ drop n runs))"
    using assms by simp
  then have "list_all (\<lambda>old. list_all (\<lambda>new. CreationTimestamp (Meta old) \<le> CreationTimestamp (Meta new)) (drop n runs))
      (take n runs)"
    by (auto simp: sorted_append list_all_iff simp del: append_take_drop_id)
  moreover have "length (drop n runs) \<le> unat (tssHistoryLimit (suite_Spec suite))"
    by (simp add: n_def)
  ultimately show ?thesis
    using returns_resultOf [OF enforceHistory_keeps [of r suite runs], of w]
      emits_callsOf [OF enforceHistory_deletes [of runs suite r], of w]
    by (auto simp: n_def split: Step.splits)
qed

theorem suite_history_witness:
  "deletedObjs (callsOf (enforceHistory sampleSuiteReconciler (sampleSuite TestSuiteReady '''' '''')
      [sampleRun TestRunPassed RetainNever [], sampleRun TestRunPassed RetainNever [''a'']]) ())
    = [TestRunObj (sampleRun TestRunPassed RetainNever [])]"
proof -
  let ?a = "sampleRun TestRunPassed RetainNever []" and ?b = "sampleRun TestRunPassed RetainNever [''a'']"
  have "sorted (map (\<lambda>run. CreationTimestamp (Meta run)) [?a, ?b])" "GetDeletionTimestamp ?a = None"
    by (simp_all add: sampleRun_def emptyMeta_def GetDeletionTimestamp_def)
  then show ?thesis
    using suite_history [of "[?a, ?b]" sampleSuiteReconciler "sampleSuite TestSuiteReady '''' ''''" "()"] by simp
qed

text \<open>
  C17. The current Helm release is one of the secrets that parse, and none of them has a higher
  version; there is none only when no secret parses.
\<close>

theorem suite_newest_release:
  "case newestRelease secrets None of
     None \<Rightarrow> list_all (\<lambda>s. parsedRelease s = None) secrets
   | Some h \<Rightarrow> list_ex (\<lambda>s. parsedRelease s = Some h) secrets \<and>
       list_all (\<lambda>s. case parsedRelease s of None \<Rightarrow> True | Some h' \<Rightarrow> hrVersion h' \<le> hrVersion h) secrets"
proof -
  have none: "parsedReleases ss = [] \<longleftrightarrow> list_all (\<lambda>s. parsedRelease s = None) ss" for ss
    by (induction ss) (auto split: option.split)
  have mem: "h \<in> set (parsedReleases ss) \<longleftrightarrow> list_ex (\<lambda>s. parsedRelease s = Some h) ss" for h ss
    by (induction ss) (auto split: option.split)
  have all: "list_all Q (parsedReleases ss) \<longleftrightarrow>
      list_all (\<lambda>s. case parsedRelease s of None \<Rightarrow> True | Some h \<Rightarrow> Q h) ss" for Q ss
    by (induction ss) (auto split: option.split)
  show ?thesis
    using newestRelease_none [of secrets] by (simp add: none mem all split: option.splits)
qed

text \<open>
  C10. The schedule. Before the next run is due the reconciler waits for it and calls nothing. From
  then on for ten seconds it triggers a run. After that the run is missed: the reconciler sets
  \<open>NextRun\<close> to the time that follows the present by the schedule, changing nothing else of the suite,
  and, when that patch is accepted, waits until then; it triggers nothing. The clock may advance
  between its readings.
\<close>

theorem suite_schedule_window:
  assumes clock: "ClockNow r w = (now, w\<^sub>1)" "ClockNow r w\<^sub>1 = (now\<^sub>1, w\<^sub>2)"
    and patch: "doStatusPatch (TestSuites (srClient r))
        (suite\<lparr>suite_Status := (suite_Status suite)\<lparr>NextRun := Some (sched now\<^sub>1)\<rparr>\<rparr>) suite w\<^sub>2 = (answer, w\<^sub>3)"
    and clock': "ClockNow r w\<^sub>3 = (now\<^sub>2, w\<^sub>4)"
  shows "resultOf (scheduledTrigger r (Some sched) due suite) w =
    (if now < due then Exit (Return \<lparr>Requeue = False, RequeueAfter = timeSub due now\<rparr> None)
     else if due < now - 10 * Second then
       Exit (Return (case answer of
           Inr _ \<Rightarrow> \<lparr>Requeue = False, RequeueAfter = timeSub (sched now\<^sub>1) now\<^sub>2\<rparr>
         | Inl e \<Rightarrow> \<lparr>Requeue = False, RequeueAfter = srErrRequeueDelay r\<rparr>) None)
     else Next (suite, \<lparr>trigReason = ''Scheduled'',
       trigMessage = ''test run triggered by schedule '' @ [CHR 0x27] @
         whenSchedule (tssWhen (suite_Spec suite)) @ [CHR 0x27],
       trigPatch = suite\<rparr>)) \<and>
    callsOf (scheduledTrigger r (Some sched) due suite) w =
    (if due < now - 10 * Second
     then [StatusPatchCall
       (TestSuiteObj (suite\<lparr>suite_Status := (suite_Status suite)\<lparr>NextRun := Some (sched now\<^sub>1)\<rparr>\<rparr>))
       (TestSuiteObj suite) (errOf answer)] else [])"
proof -
  have waits: "0 < timeSub due now \<longleftrightarrow> now < due" by (rule timeSub_pos_iff)
  have missed: "timeSub due now < - (10 * Second) \<longleftrightarrow> due < now - 10 * Second"
    using timeSub_less_iff [of "- (10 * Second)" "due" now] by (auto simp: Second_def minDuration_def)
  have "\<not> now < due" if "due < now - 10 * Second" using that by (simp add: Second_def)
  then show ?thesis
    using assms
    by (cases answer)
       (auto simp: scheduledTrigger_def Now_def Let_def waits missed resultOf_def callsOf_def quoteChar_def
        requeueAfter_def suiteRetry_def setNextRun_def setSuiteStatus_def patchSuiteStatus_def go_defs)
qed

theorem suite_schedule_window_witness:
  "let suite = sampleSuite TestSuiteReady ''* * * * *'' ''''; sched = (\<lambda>t. t + Minute);
       trigger = (\<lambda>due. scheduledTrigger sampleSuiteReconciler (Some sched) due suite)
   in resultOf (trigger (1001 * Second)) () = Exit (Return \<lparr>Requeue = False, RequeueAfter = Second\<rparr> None) \<and>
      resultOf (trigger (980 * Second)) () = Exit (Return \<lparr>Requeue = False, RequeueAfter = Minute\<rparr> None) \<and>
      (\<exists>new. callsOf (trigger (980 * Second)) () = [StatusPatchCall (TestSuiteObj new) (TestSuiteObj suite) None] \<and>
         NextRun (suite_Status new) = Some (1060 * Second))"
proof -
  let ?suite = "sampleSuite TestSuiteReady ''* * * * *'' ''''"
  let ?new = "?suite\<lparr>suite_Status := (suite_Status ?suite)\<lparr>NextRun := Some (1000 * Second + Minute)\<rparr>\<rparr>"
  note window = suite_schedule_window [where r = sampleSuiteReconciler and w = "()" and now = "1000 * Second"
    and w\<^sub>1 = "()" and now\<^sub>1 = "1000 * Second" and w\<^sub>2 = "()" and suite = ?suite and sched = "\<lambda>t. t + Minute"
    and answer = "Inr ?new" and w\<^sub>3 = "()" and now\<^sub>2 = "1000 * Second" and w\<^sub>4 = "()"]
  show ?thesis
    using window [where due = "1001 * Second"] window [where due = "980 * Second"]
    by (simp add: Second_def Minute_def timeSub_def minDuration_def maxDuration_def errOf_def Let_def)
qed



text \<open>
  C16. The end of a run. When the current run of a suite has passed (failed), the status of the suite
  is patched to the phase Ready and to no current run, nothing else of the suite changing but
  conditions. Once the patch is accepted the run is counted, and exactly one of the gauges is left
  at one; when it is not, nothing more is called.
\<close>

theorem suite_run_reported:
  assumes current: "CurrentTestRun (suite_Status suite) \<noteq> ''''"
      "find (\<lambda>run. Name (Meta run) = CurrentTestRun (suite_Status suite)) runs = Some run"
    and final: "TestRunPhase_IsFinal (trstPhase (run_Status run))"
  shows "\<exists>new conditions ty reason msg.
    new = suite\<lparr>suite_Status := (suite_Status suite)\<lparr>tsstConditions := conditions, tsstPhase := TestSuiteReady,
      CurrentTestRun := ''''\<rparr>\<rparr> \<and>
    (case fst (doStatusPatch (TestSuites (srClient r)) new suite w) of
       Inl e \<Rightarrow>
         resultOf (TestSuiteReconciler_isRunning r suite runs) w =
           Return \<lparr>Requeue = False, RequeueAfter = srErrRequeueDelay r\<rparr> None \<and>
         callsOf (TestSuiteReconciler_isRunning r suite runs) w =
           [StatusPatchCall (TestSuiteObj new) (TestSuiteObj suite) (Some e)]
     | Inr suite' \<Rightarrow>
         resultOf (TestSuiteReconciler_isRunning r suite runs) w = Return \<lparr>Requeue = False, RequeueAfter = 0\<rparr> None \<and>
         callsOf (TestSuiteReconciler_isRunning r suite runs) w =
           StatusPatchCall (TestSuiteObj new) (TestSuiteObj suite) None #
           map MetricCall
             (let ns = Namespace (Meta suite'); n = Name (Meta suite') in
              SuiteRunsInc ns n #
              (if trstPhase (run_Status run) = TestRunPassed
               then [SuitePassingSet ns n 1, SuiteFailingSet ns n 0]
               else [SuiteFailingSet ns n 1, SuitePassingSet ns n 0])) @
           [EventCall (TestSuiteObj suite') ty reason msg])"
proof -
  let ?new = "runCompleted (srClient r) (Name (Meta run)) suite"
  let ?answer = "doStatusPatch (TestSuites (srClient r)) ?new suite w"
  let ?passed = "trstPhase (run_Status run) = TestRunPassed"
  have new: "?new = suite\<lparr>suite_Status := (suite_Status suite)\<lparr>tsstConditions := tsstConditions (suite_Status ?new),
      tsstPhase := TestSuiteReady, CurrentTestRun := ''''\<rparr>\<rparr>"
    by (simp add: runCompleted_def setSuiteCondition_def setSuiteStatus_def)
  have run: "TestSuiteReconciler_isRunning r suite runs = finish (followRun r suite run)"
    using current by (simp add: TestSuiteReconciler_isRunning_def)
  have final': "trstPhase (run_Status run) = TestRunPassed \<or> trstPhase (run_Status run) = TestRunFailed"
    using final by (simp add: TestRunPhase_IsFinal_def)
  show ?thesis
    unfolding run using final'
    by (intro exI [of _ ?new] exI [of _ "tsstConditions (suite_Status ?new)"] conjI new
          exI [of _ "if ?passed then ''Normal'' else ''Warning''"]
          exI [of _ "if ?passed then ''TestRunPassed'' else ''TestRunFailed''"]
          exI [of _ "''test run '' @ Name (Meta run) @ (if ?passed then '' passed'' else '' failed'')"];
        cases ?answer; cases "fst ?answer")
       (simp_all add: finish_def followRun_def reportRun_def suiteRetry_def done'_def emptyResult_def
         patchSuiteStatus_def go_defs resultOf_def callsOf_def Let_def)
qed

theorem suite_run_reported_witness:
  "let suite = setSuiteStatus (\<lambda>s. s\<lparr>CurrentTestRun := ''run''\<rparr>) (sampleSuite TestSuiteRunning '''' '''');
       calls = callsOf (TestSuiteReconciler_isRunning sampleSuiteReconciler suite [sampleRun TestRunFailed RetainNever []]) ()
   in MetricCall (SuiteFailingSet ''ns'' ''suite'' 1) \<in> set calls \<and>
      (\<exists>new. StatusPatchCall (TestSuiteObj new) (TestSuiteObj suite) None \<in> set calls \<and> suitePhase new = TestSuiteReady)"
proof -
  let ?suite = "setSuiteStatus (\<lambda>s. s\<lparr>CurrentTestRun := ''run''\<rparr>) (sampleSuite TestSuiteRunning '''' '''')"
  let ?run = "sampleRun TestRunFailed RetainNever []"
  have "CurrentTestRun (suite_Status ?suite) = ''run''" "Meta ?suite = Meta (sampleSuite TestSuiteRunning '''' '''')"
    by (simp_all add: setSuiteStatus_def)
  then show ?thesis
    using suite_run_reported [of ?suite "[?run]" ?run sampleSuiteReconciler "()"]
    by (auto simp: Let_def)
qed

text \<open>
  C27. A suite that is being deleted keeps its finalizer for as long as it has runs, and those that
  are not being deleted yet are deleted, in order.
\<close>

theorem suite_deletion:
  assumes "runs \<noteq> []"
  shows "deletedObjs (callsOf (TestSuiteReconciler_deleted r suite runs) w) = deletionsOf TestRunObj runs \<and>
    list_all (\<lambda>call. \<not> patchesSuite call) (callsOf (TestSuiteReconciler_deleted r suite runs) w)"
  by (intro conjI emits_callsOf [OF suite_deleted_deletes [OF assms]]
      emits_callsOf [OF suite_deleted_keeps_finalizer [OF assms]])

theorem suite_deletion_witness:
  "list_all (\<lambda>call. \<not> patchesSuite call) (callsOf (TestSuiteReconciler_deleted sampleSuiteReconciler
     (sampleSuite TestSuiteReady '''' '''') [sampleRun TestRunPassed RetainNever []]) ())"
  using suite_deletion [of "[sampleRun TestRunPassed RetainNever []]" sampleSuiteReconciler] by simp

end
