(* ===== verification/Api_Schema.thy ===== *)
theory Api_Schema
  imports TestSuite_Controller
begin

text \<open>
  The schema of the custom resources, as the validation markers \<^verbatim>\<open>+kubebuilder:validation\<close> of
  src/api/v1alpha1 state it, and that the reconcilers keep to it: from valid objects they make valid
  ones. A string field with the zero value is omitted when an object is sent (\<open>omitempty\<close>), so that
  an enumeration does not apply to it.
\<close>

section \<open>Valid objects\<close>

definition validRetainPolicy :: "RetainPolicy \<Rightarrow> bool" where
  "validRetainPolicy p \<longleftrightarrow> p = '''' \<or> List.member [RetainAlways, RetainNever, RetainOnFailure] p"

definition validTestPhase :: "TestPhase \<Rightarrow> bool" where
  "validTestPhase p \<longleftrightarrow> p = '''' \<or>
     List.member [TestPending, TestStarting, TestRunning, TestPassed, TestFailed, TestPhaseUnknown] p"

text \<open>A template has a description of at least one character, a run at least one template.\<close>

definition validTestTemplate :: "TestTemplate \<Rightarrow> bool" where
  "validTestTemplate t \<longleftrightarrow> 1 \<le> length (ttDescription t) \<and> validRetainPolicy (ttRetentionPolicy t)"

definition validTestRunSpec :: "TestRunSpec \<Rightarrow> bool" where
  "validTestRunSpec spec \<longleftrightarrow>
     validRetainPolicy (trsRetentionPolicy spec) \<and> 1 \<le> length (trsTests spec) \<and>
     list_all validTestTemplate (trsTests spec)"

definition validTest :: "Test \<Rightarrow> bool" where
  "validTest test \<longleftrightarrow>
     validRetainPolicy (tsRetentionPolicy (test_Spec test)) \<and> validTestPhase (tstPhase (test_Status test))"

definition validTestRun :: "TestRun \<Rightarrow> bool" where
  "validTestRun run \<longleftrightarrow> validTestRunSpec (run_Spec run)"

definition validTestSuite :: "TestSuite \<Rightarrow> bool" where
  "validTestSuite suite \<longleftrightarrow>
     unat (tssHistoryLimit (suite_Spec suite)) \<le> 255 \<and> validTestRunSpec (tssTemplate (suite_Spec suite))"

text \<open>The other kinds have no markers, or are not this program's.\<close>

definition schemaValid :: "Object \<Rightarrow> bool" where
  "schemaValid obj = (case obj of
      TestObj test \<Rightarrow> validTest test | TestRunObj run \<Rightarrow> validTestRun run
    | TestSuiteObj suite \<Rightarrow> validTestSuite suite | _ \<Rightarrow> True)"

text \<open>
  A call that sends valid objects: what it creates is valid, and a patch of a valid object makes a
  valid one.
\<close>

definition sendsValid :: "Call \<Rightarrow> bool" where
  "sendsValid call = (case call of
      CreateCall obj e \<Rightarrow> schemaValid obj
    | PatchCall new orig e \<Rightarrow> schemaValid orig \<longrightarrow> schemaValid new
    | StatusPatchCall new orig e \<Rightarrow> schemaValid orig \<longrightarrow> schemaValid new
    | _ \<Rightarrow> True)"

text \<open>
  What the reconcilers rely on: the objects that a get answers are valid, and so is the answer to the
  patch of an object that was sent valid.
\<close>

definition answersValid :: "('o \<Rightarrow> bool) \<Rightarrow> ('o, 'w) ResourceClient \<Rightarrow> bool" where
  "answersValid V rc \<longleftrightarrow>
     (\<forall>key w obj w'. doGet rc key w = (Inr obj, w') \<longrightarrow> V obj) \<and>
     (\<forall>new orig w obj w'. V new \<longrightarrow>
        doPatch rc new orig w = (Inr obj, w') \<or> doStatusPatch rc new orig w = (Inr obj, w') \<longrightarrow> V obj)"

section \<open>Lemmas\<close>

lemma answersValid_rules:
  "answersValid V rc \<Longrightarrow> doGet rc key w = (Inr obj, w') \<Longrightarrow> V obj"
  "answersValid V rc \<Longrightarrow> V new \<Longrightarrow> doPatch rc new orig w = (Inr obj, w') \<Longrightarrow> V obj"
  "answersValid V rc \<Longrightarrow> V new \<Longrightarrow> doStatusPatch rc new orig w = (Inr obj, w') \<Longrightarrow> V obj"
  unfolding answersValid_def by blast+

lemma sendsValid_simps [simp]:
  "sendsValid (GetCall k key)" "sendsValid (ListCall k opts)" "sendsValid (DeleteCall obj e)"
  "sendsValid (MetricCall m)" "sendsValid (EventCall obj ty reason msg)"
  "sendsValid (CreateCall obj e) = schemaValid obj"
  "sendsValid (PatchCall new orig e) \<longleftrightarrow> (schemaValid orig \<longrightarrow> schemaValid new)"
  "sendsValid (StatusPatchCall new orig e) \<longleftrightarrow> (schemaValid orig \<longrightarrow> schemaValid new)"
  by (simp_all add: sendsValid_def)

lemma schemaValid_simps [simp]:
  "schemaValid (PodObj pod)" "schemaValid (TestObj test) = validTest test"
  "schemaValid (TestRunObj run) = validTestRun run" "schemaValid (TestSuiteObj suite) = validTestSuite suite"
  by (simp_all add: schemaValid_def)

text \<open>The schema does not depend on the metadata.\<close>

lemma schemaValid_withMeta [simp]: "schemaValid (withMeta m obj) = schemaValid obj"
  by (cases obj) (simp_all add: schemaValid_def validTest_def validTestRun_def validTestSuite_def)

lemma finalizer_patch_valid:
  "dropsFinalizer f new orig \<Longrightarrow> sendsValid (PatchCall new orig e)"
  "addsFinalizer f new orig \<Longrightarrow> sendsValid (PatchCall new orig e)"
  by (auto simp: dropsFinalizer_def addsFinalizer_def)

lemma cleanUpCall_valid: "cleanUpCall f obj call \<Longrightarrow> sendsValid call"
  by (cases call) (auto intro: finalizer_patch_valid simp del: sendsValid_simps(7))

lemma SetFinalizers_valid [simp]:
  "validTest (SetFinalizers fs test) = validTest test"
  "validTestRun (SetFinalizers fs run) = validTestRun run"
  "validTestSuite (SetFinalizers fs suite) = validTestSuite suite"
  by (simp_all add: SetFinalizers_def validTest_def validTestRun_def validTestSuite_def)

lemma phase_valid [simp]:
  "validTestPhase TestPending" "validTestPhase TestStarting" "validTestPhase TestRunning"
  "validTestPhase TestPassed" "validTestPhase TestFailed" "validTestPhase ''''"
  by (simp_all add: validTestPhase_def)

lemma test_update_valid:
  "validTest test \<Longrightarrow> validTest (setTestPhase TestPending test)"
  "testTransition (tstPhase (test_Status test)) (tstPhase (test_Status new)) \<Longrightarrow> statusOnly new test
    \<Longrightarrow> validTest test \<Longrightarrow> validTest new"
  by (auto simp: validTest_def setTestPhase_def testTransition_def statusOnly_def)

lemma run_update_valid:
  "validTestRun (setRunPhase p msg run) = validTestRun run"
  "runStatusWrite new run \<Longrightarrow> validTestRun run \<Longrightarrow> validTestRun new"
  by (simp_all add: validTestRun_def runStatusWrite_def runStatusOnly_def)

lemma suite_update_valid:
  "validTestSuite (setSuiteStatus f suite) = validTestSuite suite"
  "suitePatch new suite \<Longrightarrow> validTestSuite suite \<Longrightarrow> validTestSuite new"
  "validTestSuite (unscheduled c suite) = validTestSuite suite"
  by (auto simp: validTestSuite_def setSuiteStatus_def suitePatch_def dropSchedule_def annotateSchedule_def
      labelHelm_def resetTrigger_def annotateHelm_def setSuiteMeta_def unscheduled_def setSuiteCondition_def
      clearNextRun_def)

lemma created_valid:
  "validTestRun run \<Longrightarrow> validTest (newTest run i)"
  "validTestSuite suite \<Longrightarrow> validTestRun (newRun r suite)"
  by (simp_all add: validTestRun_def validTest_def newTest_def validTestRunSpec_def validTestSuite_def
      newRun_def Let_def)

lemma test_sends_valid:
  assumes "answersValid validTest (Tests (trClient r))"
  shows "emits' (list_all sendsValid) (TestReconciler_Reconcile r req)"
proof -
  note answer = answersValid_rules [OF assms]
  have "test_call_property validTest r req sendsValid"
    by (unfold_locales; (erule answer(1) | erule (1) answer(2) | erule (1) answer(3)
        | erule cleanUpCall_valid | erule finalizer_patch_valid | simp add: test_update_valid))
  then show ?thesis by (rule test_call_property.reconcile_each)
qed

lemma run_sends_valid:
  assumes "answersValid validTestRun (TestRuns (rrClient r))"
  shows "emits' (list_all sendsValid) (TestRunReconciler_Reconcile r req)"
proof -
  note answer = answersValid_rules [OF assms]
  have "run_call_property validTestRun r req sendsValid"
    by (unfold_locales; (erule answer(1) | erule (1) answer(2) | erule (1) answer(3)
        | erule cleanUpCall_valid | erule finalizer_patch_valid | simp add: run_update_valid created_valid))
  then show ?thesis by (rule run_call_property.Reconcile_calls)
qed

lemma suite_sends_valid:
  assumes "answersValid validTestSuite (TestSuites (srClient r))"
  shows "emits' (list_all sendsValid) (TestSuiteReconciler_Reconcile r req)"
proof -
  note answer = answersValid_rules [OF assms]
  have "suite_call_property validTestSuite r req sendsValid"
    by (unfold_locales; (erule answer(1) | erule (1) answer(2) | erule (1) answer(3)
        | erule cleanUpCall_valid | erule finalizer_patch_valid | simp add: suite_update_valid created_valid))
  then show ?thesis by (rule suite_call_property.Reconcile_calls)
qed

section \<open>Properties\<close>

text \<open>
  C12. The objects the reconcilers send are well typed. With a cluster that answers with valid objects,
  every TestRun a suite creates and every Test a run creates is valid by the markers of its type, and
  so is every object that a patch of metadata or status makes of a valid one.
\<close>

theorem writes_valid:
  assumes "answersValid validTest (Tests (trClient rt))"
    and "answersValid validTestRun (TestRuns (rrClient rr))"
    and "answersValid validTestSuite (TestSuites (srClient rs))"
  shows "list_all sendsValid (callsOf (TestReconciler_Reconcile rt req) w) \<and>
    list_all sendsValid (callsOf (TestRunReconciler_Reconcile rr req) w) \<and>
    list_all sendsValid (callsOf (TestSuiteReconciler_Reconcile rs req) w)"
  by (intro conjI emits_callsOf [OF test_sends_valid [OF assms(1)]]
      emits_callsOf [OF run_sends_valid [OF assms(2)]] emits_callsOf [OF suite_sends_valid [OF assms(3)]])

lemma static_valid:
  "answersValid V (staticResource k None objs)" "answersValid V (staticResource k (Some x) objs) = V x"
  by (auto simp: answersValid_def)

theorem writes_valid_witness:
  "let run = sampleRun TestRunRunning RetainNever [''a'', ''b''];
       rr = \<lparr>rrClient = staticClient\<lparr>TestRuns := staticResource ''TestRun'' (Some run) []\<rparr>, rrErrRequeueDelay = Minute\<rparr>;
       calls = callsOf (TestRunReconciler_Reconcile rr \<lparr>nnNamespace = ''ns'', nnName = ''run''\<rparr>) ()
   in list_all sendsValid calls \<and> CreateCall (TestObj (newTest run 0)) None \<in> set calls"
proof -
  let ?run = "sampleRun TestRunRunning RetainNever [''a'', ''b'']"
  let ?rr = "\<lparr>rrClient = staticClient\<lparr>TestRuns := staticResource ''TestRun'' (Some ?run) []\<rparr>, rrErrRequeueDelay = Minute\<rparr>"
  let ?req = "\<lparr>nnNamespace = ''ns'', nnName = ''run''\<rparr>"
  have "validTestRun ?run"
    by (simp add: validTestRun_def validTestRunSpec_def validTestTemplate_def validRetainPolicy_def sampleRun_def)
  moreover have "CreateCall (TestObj (newTest ?run 0)) None \<in> set (callsOf (TestRunReconciler_Reconcile ?rr ?req) ())"
  proof -
    have "GetDeletionTimestamp ?run = None" "GetFinalizers ?run = [TestRunControllerFinalizer]"
      by (simp_all add: sampleRun_def GetDeletionTimestamp_def GetFinalizers_def emptyMeta_def)
    then show ?thesis
      by (simp add: callsOf_def TestRunReconciler_Reconcile_def go_defs ensureRunFinalizer_def addFinalizer_def
          ensureStarting_def TestRunReconciler_active_def handleDeleted_def compactOuter.simps
          TestRunReconciler_isRunning_def mapTests.simps recordRun_def Let_def numeral_2_eq_2 emptyTally_def)
  qed
  ultimately show ?thesis
    using writes_valid [of "sampleTestReconciler (sampleTest TestPending RetainNever) []" ?rr sampleSuiteReconciler ?req "()"]
    by (simp add: static_valid sampleTestReconciler_def sampleSuiteReconciler_def validTest_def validRetainPolicy_def sampleTest_def)
qed

end
