(* ===== verification/Go_Heap.thy ===== *)
theory Go_Heap
  imports Go_Prelude "HOL-Library.State_Monad" "HOL-Library.AList" "HOL-Library.Multiset"
begin

text \<open>
  Memory with aliasing, for the generated deep copies. A cell holds a backing array or a map; a
  slice is nil or a window of a backing array, a pointer is an element of one, and \<open>new\<close> of a
  single value makes an array of length one. A body is an action of the state monad on the heap.

  The locale \<open>deep_copier\<close> states what a deep copy promises: \<open>view\<close> reads the value off the memory
  it is spread over, \<open>foot\<close> is that memory, and the copy has the same value, lies in memory that was
  not allocated before and leaves what was allocated alone. The lemmas after it build the copier of
  a struct, a slice, a map and a pointer from the copiers of their parts, once for all types; the
  cells' type \<open>'c\<close> is a parameter here.
\<close>

section \<open>The heap\<close>

type_synonym addr = nat

record 'c Heap =
  nextAddr :: addr
  cells :: "addr \<rightharpoonup> 'c"

type_synonym ('c, 'a) go = "('c Heap, 'a) state"

definition allocated :: "'c Heap \<Rightarrow> addr set" where
  "allocated h = {..<nextAddr h}"

definition sameOn :: "addr set \<Rightarrow> 'c Heap \<Rightarrow> 'c Heap \<Rightarrow> bool" where
  "sameOn A h h' \<longleftrightarrow> (\<forall>a\<in>A. cells h' a = cells h a)"

definition grows :: "'c Heap \<Rightarrow> 'c Heap \<Rightarrow> bool" where
  "grows h h' \<longleftrightarrow> allocated h \<subseteq> allocated h' \<and> sameOn (allocated h) h h'"

definition allocate :: "('c, addr) go" where
  "allocate = State (\<lambda>h. (nextAddr h, h\<lparr>nextAddr := Suc (nextAddr h)\<rparr>))"

definition writeCell :: "addr \<Rightarrow> 'c \<Rightarrow> ('c, unit) go" where
  "writeCell a c = State (\<lambda>h. ((), h\<lparr>cells := (cells h)(a \<mapsto> c)\<rparr>))"

definition reads :: "('c Heap \<Rightarrow> 'a) \<Rightarrow> ('c, 'a) go" where
  "reads f = State (\<lambda>h. (f h, h))"

section \<open>Slices and pointers\<close>

text \<open>A slice is nil, or \<open>SliceOf a off len\<close>: \<open>len\<close> elements of the array at \<open>a\<close> from \<open>off\<close> on.\<close>

datatype Slice = NilSlice | SliceOf addr nat nat

record Pointer =
  ptrArray :: addr
  ptrIndex :: nat

text \<open>\<open>un\<close> reads a cell as an array of the element type, \<open>mk\<close> makes one.\<close>

definition arrayAt :: "('c \<Rightarrow> 'v list option) \<Rightarrow> 'c Heap \<Rightarrow> addr \<Rightarrow> 'v list option" where
  "arrayAt un h a = Option.bind (cells h a) un"

fun elements :: "('c \<Rightarrow> 'v list option) \<Rightarrow> 'c Heap \<Rightarrow> Slice \<Rightarrow> 'v list option" where
  "elements un h NilSlice = Some []"
| "elements un h (SliceOf a off len) =
     (case arrayAt un h a of
        Some xs \<Rightarrow> if off + len \<le> length xs then Some (take len (drop off xs)) else None
      | None \<Rightarrow> None)"

definition pointee :: "('c \<Rightarrow> 'v list option) \<Rightarrow> 'c Heap \<Rightarrow> Pointer \<Rightarrow> 'v option" where
  "pointee un h p =
     (case arrayAt un h (ptrArray p) of
        Some xs \<Rightarrow> if ptrIndex p < length xs then Some (xs ! ptrIndex p) else None
      | None \<Rightarrow> None)"

text \<open>
  The block \<open>if in.X != nil { *out = make([]T, len(*in)); for i := range *in { (*in)[i].DeepCopyInto(&(*out)[i]) } }\<close>:
  a nil slice stays what the assignment \<open>*out = *in\<close> made it, another one gets an array of its own,
  filled with the copies of the elements in their order.
\<close>

definition copySlice ::
  "('v list \<Rightarrow> 'c) \<Rightarrow> ('c \<Rightarrow> 'v list option) \<Rightarrow> ('v \<Rightarrow> ('c, 'v) go) \<Rightarrow> Slice \<Rightarrow> ('c, Slice) go" where
  "copySlice mk un copyElem s =
     (if s = NilSlice then State_Monad.return s
      else do {
        a \<leftarrow> allocate;
        xs \<leftarrow> reads (\<lambda>h. the (elements un h s));
        ys \<leftarrow> State_Monad.traverse_list copyElem xs;
        writeCell a (mk ys);
        State_Monad.return (SliceOf a 0 (length ys))
      })"

text \<open>
  The block for a map: \<open>*out = make(map[K]V, len(*in)); for key, val := range *in { (*out)[key] = val }\<close>.
  A map is kept as its entries. The order in which \<open>range\<close> visits them is not specified; it is the
  parameter \<open>order\<close>.
\<close>

definition putEntries :: "('k \<times> 'e) list \<Rightarrow> ('k \<times> 'e) list" where
  "putEntries es = fold (\<lambda>(k, v) m. AList.update k v m) es []"

definition copyMap ::
  "(('k \<times> 'e) list \<Rightarrow> ('k \<times> 'e) list) \<Rightarrow> (('k \<times> 'e) list \<Rightarrow> 'c) \<Rightarrow> ('c \<Rightarrow> ('k \<times> 'e) list option) \<Rightarrow>
   addr option \<Rightarrow> ('c, addr option) go" where
  "copyMap order mk un p =
     (case p of
        None \<Rightarrow> State_Monad.return None
      | Some q \<Rightarrow> do {
          a \<leftarrow> allocate;
          es \<leftarrow> reads (\<lambda>h. the (arrayAt un h q));
          writeCell a (mk (putEntries (order es)));
          State_Monad.return (Some a)
        })"

text \<open>The block for a pointer whose target has a \<open>DeepCopy\<close> of its own: nil stays nil.\<close>

definition copyOption :: "('v \<Rightarrow> ('c, 'v) go) \<Rightarrow> 'v option \<Rightarrow> ('c, 'v option) go" where
  "copyOption copy p =
     (case p of
        None \<Rightarrow> State_Monad.return None
      | Some q \<Rightarrow> do { q' \<leftarrow> copy q; State_Monad.return (Some q') })"

text \<open>
  \<open>DeepCopy\<close>: nil for nil, otherwise a new value that \<open>DeepCopyInto\<close> fills. Every \<open>DeepCopyInto\<close>
  starts with \<open>*out = *in\<close> and nothing else refers to \<open>out\<close> yet, so it is given by the value it
  leaves in \<open>*out\<close>.
\<close>

definition deepCopy ::
  "('v list \<Rightarrow> 'c) \<Rightarrow> ('c \<Rightarrow> 'v list option) \<Rightarrow> ('v \<Rightarrow> ('c, 'v) go) \<Rightarrow> Pointer option \<Rightarrow> ('c, Pointer option) go" where
  "deepCopy mk un copyInto p =
     (case p of
        None \<Rightarrow> State_Monad.return None
      | Some q \<Rightarrow> do {
          a \<leftarrow> allocate;
          v \<leftarrow> reads (\<lambda>h. the (pointee un h q));
          v' \<leftarrow> copyInto v;
          writeCell a (mk [v']);
          State_Monad.return (Some \<lparr>ptrArray = a, ptrIndex = 0\<rparr>)
        })"

section \<open>What a deep copy promises\<close>

definition holds ::
  "('c Heap \<Rightarrow> 'v \<Rightarrow> 'a option) \<Rightarrow> ('c Heap \<Rightarrow> 'v \<Rightarrow> addr set) \<Rightarrow> 'c Heap \<Rightarrow> 'v \<Rightarrow> 'a \<Rightarrow> bool" where
  "holds view foot h v a \<longleftrightarrow> view h v = Some a \<and> foot h v \<subseteq> allocated h"

definition copyOf ::
  "('c Heap \<Rightarrow> 'v \<Rightarrow> 'a option) \<Rightarrow> ('c Heap \<Rightarrow> 'v \<Rightarrow> addr set) \<Rightarrow> 'c Heap \<Rightarrow> 'a \<Rightarrow> 'v \<times> 'c Heap \<Rightarrow> bool" where
  "copyOf view foot h a r \<longleftrightarrow>
     (case r of (v', h') \<Rightarrow> holds view foot h' v' a \<and> foot h' v' \<inter> allocated h = {} \<and> grows h h')"

locale deep_copier =
  fixes copy :: "'v \<Rightarrow> ('c, 'v) go"
    and view :: "'c Heap \<Rightarrow> 'v \<Rightarrow> 'a option"
    and foot :: "'c Heap \<Rightarrow> 'v \<Rightarrow> addr set"
  assumes local_view: "view h v = Some a \<Longrightarrow> sameOn (foot h v) h h' \<Longrightarrow> view h' v = Some a"
    and local_foot: "view h v = Some a \<Longrightarrow> sameOn (foot h v) h h' \<Longrightarrow> foot h' v = foot h v"
    and copies: "holds view foot h v a \<Longrightarrow> copyOf view foot h a (run_state (copy v) h)"
begin

lemma holds_grows:
  assumes "holds view foot h v a" and "grows h h'"
  shows "holds view foot h' v a" and "foot h' v = foot h v"
proof -
  have "sameOn (foot h v) h h'" using assms by (auto simp: holds_def grows_def sameOn_def)
  then show "foot h' v = foot h v" and "holds view foot h' v a"
    using assms local_view [of h v a h'] local_foot [of h v a h'] by (auto simp: holds_def grows_def)
qed

text \<open>
  After a copy, the original and the copy have the same value, whatever is then written to the
  memory of the one leaves the value of the other.
\<close>

lemma independent:
  assumes "holds view foot h v a" and "run_state (copy v) h = (v', h')"
  shows "holds view foot h' v a" and "holds view foot h' v' a"
    and "sameOn (- foot h' v') h' h'' \<Longrightarrow> view h'' v = Some a"
    and "sameOn (- foot h' v) h' h'' \<Longrightarrow> view h'' v' = Some a"
proof -
  have c: "holds view foot h' v' a" "foot h' v' \<inter> allocated h = {}" "grows h h'"
    using copies [OF assms(1)] assms(2) by (simp_all add: copyOf_def)
  note g = holds_grows [OF assms(1) c(3)]
  show "holds view foot h' v' a" and "holds view foot h' v a" by (rule c(1), rule g(1))
  have disjoint: "foot h' v \<inter> foot h' v' = {}"
    using assms(1) c(2) g(2) by (auto simp: holds_def)
  show "view h'' v = Some a" if "sameOn (- foot h' v') h' h''"
    by (rule local_view [of h' v]) (use g(1) that disjoint in \<open>auto simp: holds_def sameOn_def\<close>)
  show "view h'' v' = Some a" if "sameOn (- foot h' v) h' h''"
    by (rule local_view [of h' v']) (use c(1) that disjoint in \<open>auto simp: holds_def sameOn_def\<close>)
qed

end

text \<open>How an element type is stored.\<close>

locale cell_type =
  fixes mk :: "'v list \<Rightarrow> 'c" and un :: "'c \<Rightarrow> 'v list option"
  assumes un_mk: "un (mk xs) = Some xs"

section \<open>Lemmas on the heap\<close>

lemma sameOn_mono: "A \<subseteq> B \<Longrightarrow> sameOn B h h' \<Longrightarrow> sameOn A h h'"
  by (auto simp: sameOn_def)

lemma sameOn_Un [simp]: "sameOn (A \<union> B) h h' \<longleftrightarrow> sameOn A h h' \<and> sameOn B h h'"
  by (auto simp: sameOn_def)

lemma sameOn_empty [simp]: "sameOn {} h h'"
  by (simp add: sameOn_def)

lemma sameOn_insert [simp]: "sameOn (insert a A) h h' \<longleftrightarrow> cells h' a = cells h a \<and> sameOn A h h'"
  by (auto simp: sameOn_def)

lemma grows_refl [simp]: "grows h h"
  by (simp add: grows_def sameOn_def)

lemma grows_trans [trans]: "grows h h' \<Longrightarrow> grows h' h'' \<Longrightarrow> grows h h''"
  by (auto simp: grows_def sameOn_def)

lemma run_allocate: "run_state allocate h = (nextAddr h, h\<lparr>nextAddr := Suc (nextAddr h)\<rparr>)"
  by (simp add: allocate_def)

lemma run_writeCell: "run_state (writeCell a c) h = ((), h\<lparr>cells := (cells h)(a \<mapsto> c)\<rparr>)"
  by (simp add: writeCell_def)

lemma run_reads: "run_state (reads f) h = (f h, h)"
  by (simp add: reads_def)

lemmas run_heap = run_allocate run_writeCell run_reads

text \<open>Allocating a cell, then filling it when the rest is done: nothing allocated before changes.\<close>

lemma grows_allocate: "grows h (h\<lparr>nextAddr := Suc (nextAddr h)\<rparr>)"
  by (auto simp: grows_def allocated_def sameOn_def)

lemma grows_fill:
  assumes "grows (h\<lparr>nextAddr := Suc (nextAddr h)\<rparr>) h'"
  shows "grows h (h'\<lparr>cells := (cells h')(nextAddr h \<mapsto> c)\<rparr>)"
  using assms by (auto simp: grows_def allocated_def sameOn_def)

section \<open>Copiers of composite values\<close>

text \<open>A value without references is copied by assignment.\<close>

definition flatFoot :: "'c Heap \<Rightarrow> 'v \<Rightarrow> addr set" where
  "flatFoot h v = {}"

definition flatView :: "'c Heap \<Rightarrow> 'v \<Rightarrow> 'v option" where
  "flatView h v = Some v"

lemma deep_copier_flat: "deep_copier State_Monad.return flatView flatFoot"
  by unfold_locales (auto simp: flatView_def flatFoot_def copyOf_def holds_def)

text \<open>A second copy after a first one: the first result is kept, both lie in new memory.\<close>

lemma copyOf_then:
  assumes "deep_copier c1 v1 f1" and "copyOf v1 f1 h a (x', h1)" and "copyOf v2 f2 h1 b (y', h2)"
  shows "holds v1 f1 h2 x' a" and "f1 h2 x' \<inter> allocated h = {}"
    and "holds v2 f2 h2 y' b" and "f2 h2 y' \<inter> allocated h = {}" and "grows h h2"
proof -
  have c: "holds v1 f1 h1 x' a" "f1 h1 x' \<inter> allocated h = {}" "grows h h1"
    "holds v2 f2 h2 y' b" "f2 h2 y' \<inter> allocated h1 = {}" "grows h1 h2"
    using assms(2,3) by (simp_all add: copyOf_def)
  note g = deep_copier.holds_grows [OF assms(1) c(1) c(6)]
  show "holds v1 f1 h2 x' a" "f1 h2 x' \<inter> allocated h = {}" using g c(2) by simp_all
  show "holds v2 f2 h2 y' b" by (rule c(4))
  show "f2 h2 y' \<inter> allocated h = {}" using c(3,5) by (auto simp: grows_def)
  show "grows h h2" by (rule grows_trans [OF c(3,6)])
qed

definition copyPair :: "('v \<Rightarrow> ('c, 'v) go) \<Rightarrow> ('w \<Rightarrow> ('c, 'w) go) \<Rightarrow> 'v \<times> 'w \<Rightarrow> ('c, 'v \<times> 'w) go" where
  "copyPair c1 c2 p = do { x \<leftarrow> c1 (fst p); y \<leftarrow> c2 (snd p); State_Monad.return (x, y) }"

definition pairView ::
  "('c Heap \<Rightarrow> 'v \<Rightarrow> 'a option) \<Rightarrow> ('c Heap \<Rightarrow> 'w \<Rightarrow> 'b option) \<Rightarrow> 'c Heap \<Rightarrow> 'v \<times> 'w \<Rightarrow> ('a \<times> 'b) option" where
  "pairView v1 v2 h p = do { a \<leftarrow> v1 h (fst p); b \<leftarrow> v2 h (snd p); Some (a, b) }"

definition pairFoot ::
  "('c Heap \<Rightarrow> 'v \<Rightarrow> addr set) \<Rightarrow> ('c Heap \<Rightarrow> 'w \<Rightarrow> addr set) \<Rightarrow> 'c Heap \<Rightarrow> 'v \<times> 'w \<Rightarrow> addr set" where
  "pairFoot f1 f2 h p = f1 h (fst p) \<union> f2 h (snd p)"

lemma pairView_Some:
  "pairView v1 v2 h p = Some q \<longleftrightarrow> v1 h (fst p) = Some (fst q) \<and> v2 h (snd p) = Some (snd q)"
  by (cases q) (auto simp: pairView_def bind_eq_Some_conv)

lemma holds_pair:
  "holds (pairView v1 v2) (pairFoot f1 f2) h p q \<longleftrightarrow>
     holds v1 f1 h (fst p) (fst q) \<and> holds v2 f2 h (snd p) (snd q)"
  by (auto simp: holds_def pairView_Some pairFoot_def)

lemma deep_copier_pair:
  assumes "deep_copier c1 v1 f1" and "deep_copier c2 v2 f2"
  shows "deep_copier (copyPair c1 c2) (pairView v1 v2) (pairFoot f1 f2)"
proof
  fix h p q h'
  assume v: "pairView v1 v2 h p = Some q" and s: "sameOn (pairFoot f1 f2 h p) h h'"
  show "pairView v1 v2 h' p = Some q"
    using v s deep_copier.local_view [OF assms(1), of h "fst p" "fst q" h']
      deep_copier.local_view [OF assms(2), of h "snd p" "snd q" h']
    by (simp add: pairView_Some pairFoot_def)
  show "pairFoot f1 f2 h' p = pairFoot f1 f2 h p"
    using v s deep_copier.local_foot [OF assms(1), of h "fst p" "fst q" h']
      deep_copier.local_foot [OF assms(2), of h "snd p" "snd q" h']
    by (simp add: pairView_Some pairFoot_def)
next
  fix h p q
  assume "holds (pairView v1 v2) (pairFoot f1 f2) h p q"
  then have p: "holds v1 f1 h (fst p) (fst q)" "holds v2 f2 h (snd p) (snd q)"
    by (simp_all add: holds_pair)
  obtain x h1 where r1: "run_state (c1 (fst p)) h = (x, h1)" by fastforce
  have c1: "copyOf v1 f1 h (fst q) (x, h1)" using deep_copier.copies [OF assms(1) p(1)] r1 by simp
  then have "holds v2 f2 h1 (snd p) (snd q)"
    using deep_copier.holds_grows(1) [OF assms(2) p(2)] by (simp add: copyOf_def)
  moreover obtain y h2 where r2: "run_state (c2 (snd p)) h1 = (y, h2)" by fastforce
  ultimately have "copyOf v2 f2 h1 (snd q) (y, h2)"
    using deep_copier.copies [OF assms(2), of h1 "snd p" "snd q"] by simp
  note t = copyOf_then [OF assms(1) c1 this]
  show "copyOf (pairView v1 v2) (pairFoot f1 f2) h q (run_state (copyPair c1 c2 p) h)"
    using t by (auto simp: copyPair_def r1 r2 copyOf_def holds_pair pairFoot_def)
qed

text \<open>
  A struct: \<open>get\<close> are its fields that hold references, \<open>put\<close> replaces them, \<open>build\<close> makes the value
  from theirs and the other fields.
\<close>

lemma deep_copier_struct:
  assumes copier: "deep_copier c v f"
    and get_put: "\<And>x y. get (put y x) = y" and build_put: "\<And>x y a. build (put y x) a = build x a"
    and copy_eq: "\<And>x. copy x = do { y \<leftarrow> c (get x); State_Monad.return (put y x) }"
    and view_eq: "\<And>h x. view h x = map_option (build x) (v h (get x))"
    and foot_eq: "\<And>h x. foot h x = f h (get x)"
  shows "deep_copier copy view foot"
proof
  fix h x a h'
  assume "view h x = Some a" and s: "sameOn (foot h x) h h'"
  then obtain b where "v h (get x) = Some b" "a = build x b" by (auto simp: view_eq)
  then show "view h' x = Some a" and "foot h' x = foot h x"
    using s deep_copier.local_view [OF copier, of h "get x" b h']
      deep_copier.local_foot [OF copier, of h "get x" b h'] by (simp_all add: view_eq foot_eq)
next
  fix h x a
  assume "holds view foot h x a"
  then obtain b where b: "holds v f h (get x) b" "a = build x b"
    by (auto simp: holds_def view_eq foot_eq)
  obtain y h' where r: "run_state (c (get x)) h = (y, h')" by fastforce
  show "copyOf view foot h a (run_state (copy x) h)"
    using deep_copier.copies [OF copier b(1)] b(2) r
    by (auto simp: copy_eq copyOf_def holds_def view_eq foot_eq get_put build_put)
qed

text \<open>The elements of a slice, one after the other.\<close>

fun listView :: "('c Heap \<Rightarrow> 'v \<Rightarrow> 'a option) \<Rightarrow> 'c Heap \<Rightarrow> 'v list \<Rightarrow> 'a list option" where
  "listView view h [] = Some []"
| "listView view h (x # xs) = do { a \<leftarrow> view h x; bs \<leftarrow> listView view h xs; Some (a # bs) }"

definition listFoot :: "('c Heap \<Rightarrow> 'v \<Rightarrow> addr set) \<Rightarrow> 'c Heap \<Rightarrow> 'v list \<Rightarrow> addr set" where
  "listFoot foot h xs = (\<Union>x\<in>set xs. foot h x)"

lemma listFoot_simps [simp]:
  "listFoot foot h [] = {}" "listFoot foot h (x # xs) = foot h x \<union> listFoot foot h xs"
  by (simp_all add: listFoot_def)

lemma listView_length: "listView view h xs = Some bs \<Longrightarrow> length bs = length xs"
  by (induction xs arbitrary: bs) (auto simp: bind_eq_Some_conv)

lemma listView_flat: "listView flatView h xs = Some xs"
  by (induction xs) (simp_all add: flatView_def)

lemma holds_Cons:
  "holds (listView view) (listFoot foot) h (x # xs) bs \<longleftrightarrow>
     (\<exists>a as. bs = a # as \<and> holds view foot h x a \<and> holds (listView view) (listFoot foot) h xs as)"
  by (auto simp: holds_def bind_eq_Some_conv)

lemma list_local:
  assumes "deep_copier copy view foot" and "listView view h xs = Some bs"
    and "sameOn (listFoot foot h xs) h h'"
  shows "listView view h' xs = Some bs \<and> listFoot foot h' xs = listFoot foot h xs"
  using assms(2,3)
proof (induction xs arbitrary: bs)
  case (Cons x xs)
  then obtain a as where v: "view h x = Some a" "listView view h xs = Some as" "bs = a # as"
    by (auto simp: bind_eq_Some_conv)
  have s: "sameOn (foot h x) h h'" "sameOn (listFoot foot h xs) h h'" using Cons.prems(2) by simp_all
  show ?case
    using Cons.IH [OF v(2) s(2)] deep_copier.local_view [OF assms(1) v(1) s(1)]
      deep_copier.local_foot [OF assms(1) v(1) s(1)] v(3) by simp
qed simp

lemma list_copies:
  assumes "deep_copier copy view foot" and "holds (listView view) (listFoot foot) h xs bs"
  shows "copyOf (listView view) (listFoot foot) h bs (run_state (State_Monad.traverse_list copy xs) h)"
  using assms(2)
proof (induction xs arbitrary: h bs)
  case Nil
  then show ?case by (simp add: copyOf_def holds_def)
next
  case (Cons x xs)
  then obtain a as where v: "bs = a # as" "holds view foot h x a" "holds (listView view) (listFoot foot) h xs as"
    by (auto simp: holds_Cons)
  obtain y h1 where r1: "run_state (copy x) h = (y, h1)" by fastforce
  have c: "copyOf view foot h a (y, h1)" using deep_copier.copies [OF assms(1) v(2)] r1 by simp
  then have g: "sameOn (listFoot foot h xs) h h1" "allocated h \<subseteq> allocated h1"
    using v(3) by (auto simp: copyOf_def holds_def grows_def sameOn_def)
  have "holds (listView view) (listFoot foot) h1 xs as"
    using list_local [OF assms(1) _ g(1)] v(3) g(2) by (auto simp: holds_def)
  moreover obtain ys h2 where r2: "run_state (State_Monad.traverse_list copy xs) h1 = (ys, h2)" by fastforce
  ultimately have "copyOf (listView view) (listFoot foot) h1 as (ys, h2)" using Cons.IH [of h1 as] by simp
  note t = copyOf_then [OF assms(1) c this]
  show ?case using t v(1) by (auto simp: r1 r2 copyOf_def holds_Cons)
qed

definition sliceView :: "('c \<Rightarrow> 'v list option) \<Rightarrow> ('c Heap \<Rightarrow> 'v \<Rightarrow> 'a option) \<Rightarrow> 'c Heap \<Rightarrow> Slice \<Rightarrow> 'a list option" where
  "sliceView un view h s = do { xs \<leftarrow> elements un h s; listView view h xs }"

definition sliceFoot :: "('c \<Rightarrow> 'v list option) \<Rightarrow> ('c Heap \<Rightarrow> 'v \<Rightarrow> addr set) \<Rightarrow> 'c Heap \<Rightarrow> Slice \<Rightarrow> addr set" where
  "sliceFoot un foot h s =
     (case s of
        NilSlice \<Rightarrow> {}
      | SliceOf a off len \<Rightarrow> insert a (listFoot foot h (the (elements un h s))))"

lemma elements_cong: "cells h' a = cells h a \<Longrightarrow> elements un h' (SliceOf a off len) = elements un h (SliceOf a off len)"
  by (simp add: arrayAt_def)

lemma copyOf_fill:
  assumes "deep_copier copy view foot"
    and "copyOf (listView view) (listFoot foot) (h\<lparr>nextAddr := Suc (nextAddr h)\<rparr>) bs (ys, h1)"
    and "h2 = h1\<lparr>cells := (cells h1)(nextAddr h \<mapsto> c)\<rparr>"
  shows "holds (listView view) (listFoot foot) h2 ys bs" and "listFoot foot h2 ys \<inter> allocated h = {}"
    and "grows h h2" and "nextAddr h \<in> allocated h2 - allocated h"
proof -
  have c: "holds (listView view) (listFoot foot) h1 ys bs" "nextAddr h \<notin> listFoot foot h1 ys"
    "listFoot foot h1 ys \<inter> allocated h = {}" "grows (h\<lparr>nextAddr := Suc (nextAddr h)\<rparr>) h1"
    using assms(2) by (auto simp: copyOf_def allocated_def)
  have "sameOn (listFoot foot h1 ys) h1 h2" using c(2) assms(3) by (auto simp: sameOn_def)
  note l = list_local [OF assms(1) _ this]
  show "holds (listView view) (listFoot foot) h2 ys bs" "listFoot foot h2 ys \<inter> allocated h = {}"
    using c(1,3) l assms(3) by (auto simp: holds_def allocated_def)
  show "grows h h2" using grows_fill [OF c(4)] assms(3) by simp
  show "nextAddr h \<in> allocated h2 - allocated h"
    using c(4) assms(3) by (auto simp: grows_def allocated_def)
qed

lemma deep_copier_slice:
  assumes "cell_type mk un" and "deep_copier copy view foot"
  shows "deep_copier (copySlice mk un copy) (sliceView un view) (sliceFoot un foot)"
proof
  fix h s bs h'
  assume v: "sliceView un view h s = Some bs" and s: "sameOn (sliceFoot un foot h s) h h'"
  show "sliceView un view h' s = Some bs" and "sliceFoot un foot h' s = sliceFoot un foot h s"
  proof (atomize (full), cases s)
    case (SliceOf a off len)
    obtain xs where xs: "elements un h s = Some xs" "listView view h xs = Some bs"
      using v by (auto simp: sliceView_def bind_eq_Some_conv)
    have "cells h' a = cells h a" and "sameOn (listFoot foot h xs) h h'"
      using s xs by (simp_all add: sliceFoot_def SliceOf)
    then show "sliceView un view h' s = Some bs \<and> sliceFoot un foot h' s = sliceFoot un foot h s"
      using xs list_local [OF assms(2) xs(2)] elements_cong [of h' a h un off len]
      by (simp add: sliceView_def sliceFoot_def SliceOf)
  qed (use v in \<open>simp add: sliceView_def sliceFoot_def\<close>)
next
  fix h s bs
  assume hs: "holds (sliceView un view) (sliceFoot un foot) h s bs"
  show "copyOf (sliceView un view) (sliceFoot un foot) h bs (run_state (copySlice mk un copy s) h)"
  proof (cases s)
    case NilSlice
    then show ?thesis using hs by (simp add: copySlice_def copyOf_def sliceFoot_def)
  next
    case (SliceOf a off len)
    let ?h0 = "h\<lparr>nextAddr := Suc (nextAddr h)\<rparr>"
    obtain xs where xs: "elements un h s = Some xs" "holds (listView view) (listFoot foot) h xs bs"
      using hs by (auto simp: holds_def sliceView_def sliceFoot_def SliceOf bind_eq_Some_conv)
    have "sameOn (listFoot foot h xs) h ?h0" by (simp add: sameOn_def)
    then have "holds (listView view) (listFoot foot) ?h0 xs bs"
      using list_local [OF assms(2), of h xs bs ?h0] xs(2) by (auto simp: holds_def allocated_def)
    moreover obtain ys h1 where r: "run_state (State_Monad.traverse_list copy xs) ?h0 = (ys, h1)" by fastforce
    ultimately have c: "copyOf (listView view) (listFoot foot) ?h0 bs (ys, h1)"
      using list_copies [OF assms(2)] by metis
    define h2 where "h2 = h1\<lparr>cells := (cells h1)(nextAddr h \<mapsto> mk ys)\<rparr>"
    note f = copyOf_fill [OF assms(2) c h2_def]
    have e: "elements un ?h0 s = Some xs" using xs(1) elements_cong [of ?h0 a h un off len] by (simp add: SliceOf)
    have run: "run_state (copySlice mk un copy s) h = (SliceOf (nextAddr h) 0 (length ys), h2)"
      using e r by (simp add: copySlice_def run_heap SliceOf h2_def del: elements.simps)
    have "elements un h2 (SliceOf (nextAddr h) 0 (length ys)) = Some ys"
      by (simp add: arrayAt_def h2_def cell_type.un_mk [OF assms(1)])
    then show ?thesis
      using f unfolding run by (auto simp: copyOf_def holds_def sliceView_def sliceFoot_def simp del: elements.simps)
  qed
qed

text \<open>A pointer: nil, or an element of an array.\<close>

definition pointerView ::
  "('c \<Rightarrow> 'v list option) \<Rightarrow> ('c Heap \<Rightarrow> 'v \<Rightarrow> 'a option) \<Rightarrow> 'c Heap \<Rightarrow> Pointer option \<Rightarrow> 'a option option" where
  "pointerView un view h p =
     (case p of
        None \<Rightarrow> Some None
      | Some q \<Rightarrow> do { v \<leftarrow> pointee un h q; a \<leftarrow> view h v; Some (Some a) })"

definition pointerFoot ::
  "('c \<Rightarrow> 'v list option) \<Rightarrow> ('c Heap \<Rightarrow> 'v \<Rightarrow> addr set) \<Rightarrow> 'c Heap \<Rightarrow> Pointer option \<Rightarrow> addr set" where
  "pointerFoot un foot h p =
     (case p of None \<Rightarrow> {} | Some q \<Rightarrow> insert (ptrArray q) (foot h (the (pointee un h q))))"

lemma pointee_cong: "cells h' (ptrArray q) = cells h (ptrArray q) \<Longrightarrow> pointee un h' q = pointee un h q"
  by (simp add: pointee_def arrayAt_def)

lemma copyOf_singleton:
  "copyOf view foot h a (v, h') \<longleftrightarrow> copyOf (listView view) (listFoot foot) h [a] ([v], h')"
  by (auto simp: copyOf_def holds_def bind_eq_Some_conv)

lemma deep_copier_pointer:
  assumes "cell_type mk un" and "deep_copier copy view foot"
  shows "deep_copier (deepCopy mk un copy) (pointerView un view) (pointerFoot un foot)"
proof
  fix h p b h'
  assume v: "pointerView un view h p = Some b" and s: "sameOn (pointerFoot un foot h p) h h'"
  show "pointerView un view h' p = Some b" and "pointerFoot un foot h' p = pointerFoot un foot h p"
  proof (atomize (full), cases p)
    case (Some q)
    obtain x a where x: "pointee un h q = Some x" "view h x = Some a" "b = Some a"
      using v by (auto simp: pointerView_def Some bind_eq_Some_conv)
    have "cells h' (ptrArray q) = cells h (ptrArray q)" and "sameOn (foot h x) h h'"
      using s x by (simp_all add: pointerFoot_def Some)
    then show "pointerView un view h' p = Some b \<and> pointerFoot un foot h' p = pointerFoot un foot h p"
      using x pointee_cong [of h' q h un] deep_copier.local_view [OF assms(2) x(2), of h']
        deep_copier.local_foot [OF assms(2) x(2), of h']
      by (simp add: pointerView_def pointerFoot_def Some)
  qed (use v in \<open>simp add: pointerView_def pointerFoot_def\<close>)
next
  fix h p b
  assume hp: "holds (pointerView un view) (pointerFoot un foot) h p b"
  show "copyOf (pointerView un view) (pointerFoot un foot) h b (run_state (deepCopy mk un copy p) h)"
  proof (cases p)
    case None
    then show ?thesis using hp by (simp add: deepCopy_def copyOf_def pointerFoot_def)
  next
    case (Some q)
    let ?h0 = "h\<lparr>nextAddr := Suc (nextAddr h)\<rparr>"
    obtain x a where x: "pointee un h q = Some x" "holds view foot h x a" "b = Some a"
      using hp by (auto simp: holds_def pointerView_def pointerFoot_def Some bind_eq_Some_conv)
    obtain y h1 where r: "run_state (copy x) ?h0 = (y, h1)" by fastforce
    have "copyOf view foot ?h0 a (y, h1)"
      using deep_copier.copies [OF assms(2) deep_copier.holds_grows(1) [OF assms(2) x(2) grows_allocate]] r
      by simp
    then have c: "copyOf (listView view) (listFoot foot) ?h0 [a] ([y], h1)"
      by (rule iffD1 [OF copyOf_singleton])
    define h2 where "h2 = h1\<lparr>cells := (cells h1)(nextAddr h \<mapsto> mk [y])\<rparr>"
    note f = copyOf_fill [OF assms(2) c h2_def]
    have "pointee un ?h0 q = Some x" using x(1) pointee_cong [of ?h0 q h un] by simp
    then have run: "run_state (deepCopy mk un copy p) h = (Some \<lparr>ptrArray = nextAddr h, ptrIndex = 0\<rparr>, h2)"
      using r by (simp add: deepCopy_def run_heap Some h2_def)
    have "pointee un h2 \<lparr>ptrArray = nextAddr h, ptrIndex = 0\<rparr> = Some y"
      by (simp add: pointee_def arrayAt_def h2_def cell_type.un_mk [OF assms(1)])
    then show ?thesis
      using f unfolding run x(3)
      by (auto simp: copyOf_def holds_def pointerView_def pointerFoot_def bind_eq_Some_conv)
  qed
qed

text \<open>A pointer copied by the \<open>DeepCopy\<close> of its target's type.\<close>

definition optionView :: "('c Heap \<Rightarrow> 'v \<Rightarrow> 'a option) \<Rightarrow> 'c Heap \<Rightarrow> 'v option \<Rightarrow> 'a option option" where
  "optionView view h p = (case p of None \<Rightarrow> Some None | Some q \<Rightarrow> map_option Some (view h q))"

definition optionFoot :: "('c Heap \<Rightarrow> 'v \<Rightarrow> addr set) \<Rightarrow> 'c Heap \<Rightarrow> 'v option \<Rightarrow> addr set" where
  "optionFoot foot h p = (case p of None \<Rightarrow> {} | Some q \<Rightarrow> foot h q)"

lemma deep_copier_option:
  assumes "deep_copier copy view foot"
  shows "deep_copier (copyOption copy) (optionView view) (optionFoot foot)"
proof
  fix h p b h'
  assume "optionView view h p = Some b" and "sameOn (optionFoot foot h p) h h'"
  then show "optionView view h' p = Some b" and "optionFoot foot h' p = optionFoot foot h p"
    using deep_copier.local_view [OF assms, of h "the p" "the b" h'] deep_copier.local_foot [OF assms, of h "the p" "the b" h']
    by (auto simp: optionView_def optionFoot_def split: option.splits)
next
  fix h p b
  assume "holds (optionView view) (optionFoot foot) h p b"
  then show "copyOf (optionView view) (optionFoot foot) h b (run_state (copyOption copy p) h)"
    using deep_copier.copies [OF assms, of h "the p" "the b"]
    by (auto simp: copyOption_def copyOf_def holds_def optionView_def optionFoot_def
        split: option.splits prod.splits)
qed

text \<open>A map: its value is the finite map of its entries, whatever their order.\<close>

definition rangesAll :: "(('k \<times> 'e) list \<Rightarrow> ('k \<times> 'e) list) \<Rightarrow> bool" where
  "rangesAll order \<longleftrightarrow> (\<forall>es. mset (order es) = mset es)"

definition mapView ::
  "('c \<Rightarrow> ('k \<times> 'e) list option) \<Rightarrow> 'c Heap \<Rightarrow> addr option \<Rightarrow> ('k \<rightharpoonup> 'e) option option" where
  "mapView un h p =
     (case p of
        None \<Rightarrow> Some None
      | Some a \<Rightarrow>
          (case arrayAt un h a of
             None \<Rightarrow> None
           | Some es \<Rightarrow> if distinct (map fst es) then Some (Some (map_of es)) else None))"

definition mapFoot :: "'c Heap \<Rightarrow> addr option \<Rightarrow> addr set" where
  "mapFoot h p = set_option p"

lemma map_of_perm:
  assumes "distinct (map fst es)" and "mset fs = mset es"
  shows "distinct (map fst fs)" and "map_of fs = map_of es"
proof -
  have "mset (map fst fs) = mset (map fst es)" using assms(2) by simp
  then show d: "distinct (map fst fs)" using assms(1) mset_eq_imp_distinct_iff by blast
  show "map_of fs = map_of es" using map_of_inject_set [OF d assms(1)] mset_eq_setD [OF assms(2)] by simp
qed

lemma map_of_fold_update:
  "map_of (fold (\<lambda>(k, v) m. AList.update k v m) es m0) = map_of m0 ++ map_of (rev es)"
proof (induction es arbitrary: m0)
  case (Cons e es)
  then show ?case by (cases e) (simp add: update_conv' fun_eq_iff map_add_def split: option.split)
qed simp

lemma putEntries_map_of:
  assumes "distinct (map fst es)"
  shows "map_of (putEntries es) = map_of es"
  using map_of_perm(2) [OF assms, of "rev es"] by (simp add: putEntries_def map_of_fold_update)

lemma putEntries_distinct: "distinct (map fst (putEntries es))"
proof -
  have "distinct (map fst m0) \<Longrightarrow> distinct (map fst (fold (\<lambda>(k, v) m. AList.update k v m) es m0))" for m0
    by (induction es arbitrary: m0) (auto simp: distinct_update)
  then show ?thesis by (simp add: putEntries_def)
qed

lemma deep_copier_map:
  assumes "cell_type mk un" and "rangesAll order"
  shows "deep_copier (copyMap order mk un) (mapView un) mapFoot"
proof
  fix h p b h'
  assume "mapView un h p = Some b" and "sameOn (mapFoot h p) h h'"
  then show "mapView un h' p = Some b" and "mapFoot h' p = mapFoot h p"
    by (auto simp: mapView_def mapFoot_def arrayAt_def split: option.splits)
next
  fix h p b
  assume hp: "holds (mapView un) mapFoot h p b"
  show "copyOf (mapView un) mapFoot h b (run_state (copyMap order mk un p) h)"
  proof (cases p)
    case None
    then show ?thesis using hp by (simp add: copyMap_def copyOf_def mapFoot_def)
  next
    case (Some a)
    obtain es where es: "arrayAt un h a = Some es" "distinct (map fst es)" "b = Some (map_of es)"
      using hp by (auto simp: holds_def mapView_def Some split: option.splits if_splits)
    have "map_of (putEntries (order es)) = map_of es"
      using putEntries_map_of [of "order es"] map_of_perm [OF es(2), of "order es"] assms(2)
      by (simp add: rangesAll_def)
    then show ?thesis
      using es(1,3) grows_fill [OF grows_refl] putEntries_distinct [of "order es"]
      by (auto simp: copyMap_def run_heap Some copyOf_def holds_def mapView_def mapFoot_def arrayAt_def
          cell_type.un_mk [OF assms(1)] allocated_def)
  qed
qed

end
