(* ===== verification/Deep_Copy.thy ===== *)
theory Deep_Copy
  imports Api_Types Go_Heap
begin

text \<open>
  src/api/v1alpha1/zz_generated.deepcopy.go on memory. The other theories take \<open>orig := x.DeepCopy()\<close>
  as the value of \<open>x\<close>; here the structs are what they are in Go, with slices, maps and pointers into
  the heap, and the generated functions are actions on it. A struct without references is its record
  of \<open>Api_Types\<close>; the others get a record of their own, named with \<open>Mem\<close>, whose fields of Kubernetes
  types (\<open>ObjectMeta\<close>, \<open>ListMeta\<close>, \<open>PodTemplateSpec\<close>, \<open>Condition\<close>, \<open>Time\<close>) are of an arbitrary type
  \<open>'x\<close>. The copiers of those types are the parameter \<open>Library\<close>; that they are deep copies, as their
  documentation says, is the hypothesis \<open>librarySpec\<close>, with \<open>LibraryViews\<close> for what their values are.

  Each type has a view, which reads its value as a record of \<open>Api_Types\<close>, and a footprint; the lemmas
  \<open>copier_*\<close> show that each generated function is a deep copier for them, from the copiers of its
  fields, and \<open>deep_copies_independent\<close> draws the conclusion for the objects of the API.
\<close>

section \<open>Structs in memory\<close>

record TypeMeta =
  tmAPIVersion :: string
  tmKind :: string

record HelmPolicySpecMem =
  hpsExportTo :: Slice

record 'x HelmPolicyMem =
  hpTypeMeta :: TypeMeta
  hpMeta :: 'x
  hpSpec :: HelmPolicySpecMem

record 'x TestTemplateMem =
  ttmDescription :: string
  ttmRetentionPolicy :: RetainPolicy
  ttmTemplate :: 'x

record 'x TestSpecMem =
  tsmRetentionPolicy :: RetainPolicy
  tsmTemplate :: 'x

record TestStatusMem =
  tstmConditions :: Slice
  tstmPhase :: TestPhase
  tstmMessages :: "addr option"

record 'x TestMem =
  tTypeMeta :: TypeMeta
  tMeta :: 'x
  tSpec :: "'x TestSpecMem"
  tStatus :: TestStatusMem

record TestRunSpecMem =
  trsmRetentionPolicy :: RetainPolicy
  trsmTests :: Slice

record TestRunStatusMem =
  trstmConditions :: Slice
  trstmPhase :: TestRunPhase
  trstmMessage :: string
  trstmResults :: Slice

record 'x TestRunMem =
  trTypeMeta :: TypeMeta
  trMeta :: 'x
  trSpec :: TestRunSpecMem
  trStatus :: TestRunStatusMem

record TestSuiteSpecMem =
  tssmHistoryLimit :: "8 word"
  tssmSetUp :: TestSuiteSetUp
  tssmTemplate :: TestRunSpecMem
  tssmWhen :: TestSuiteTriggers

record 'x TestSuiteStatusMem =
  tsstmConditions :: Slice
  tsstmPhase :: TestSuitePhase
  tsstmCurrentTestRun :: string
  tsstmNextRun :: "'x option"

record 'x TestSuiteMem =
  tsTypeMeta :: TypeMeta
  tsMeta :: 'x
  tsSpec :: TestSuiteSpecMem
  tsTrigger :: TestSuiteTrigger
  tsStatus :: "'x TestSuiteStatusMem"

record 'x HelmPolicyListMem =
  hplTypeMeta :: TypeMeta
  hplMeta :: 'x
  hplItems :: Slice

record 'x TestListMem =
  tlTypeMeta :: TypeMeta
  tlMeta :: 'x
  tlItems :: Slice

record 'x TestRunListMem =
  trlTypeMeta :: TypeMeta
  trlMeta :: 'x
  trlItems :: Slice

record 'x TestSuiteListMem =
  tslTypeMeta :: TypeMeta
  tslMeta :: 'x
  tslItems :: Slice

text \<open>
  A cell: the backing array of a slice, which for \<open>new\<close> of one value has length one, or the entries
  of a map.
\<close>

datatype 'x Cell =
    StringCell "string list"
  | EntriesCell "(string \<times> string) list"
  | KubernetesCell "'x list"
  | HelmPolicyCell "'x HelmPolicyMem list"
  | HelmPolicyListCell "'x HelmPolicyListMem list"
  | HelmPolicySpecCell "HelmPolicySpecMem list"
  | TestCell "'x TestMem list"
  | TestListCell "'x TestListMem list"
  | TestResultCell "TestResult list"
  | TestRunCell "'x TestRunMem list"
  | TestRunListCell "'x TestRunListMem list"
  | TestRunSpecCell "TestRunSpecMem list"
  | TestRunStatusCell "TestRunStatusMem list"
  | TestSpecCell "'x TestSpecMem list"
  | TestStatusCell "TestStatusMem list"
  | TestSuiteCell "'x TestSuiteMem list"
  | TestSuiteHelmSetUpCell "TestSuiteHelmSetUp list"
  | TestSuiteHelmTriggerCell "TestSuiteHelmTrigger list"
  | TestSuiteListCell "'x TestSuiteListMem list"
  | TestSuiteSetUpCell "TestSuiteSetUp list"
  | TestSuiteSpecCell "TestSuiteSpecMem list"
  | TestSuiteStatusCell "'x TestSuiteStatusMem list"
  | TestSuiteTriggerCell "TestSuiteTrigger list"
  | TestSuiteTriggersCell "TestSuiteTriggers list"
  | TestTemplateCell "'x TestTemplateMem list"

definition asString :: "'x Cell \<Rightarrow> string list option" where
  "asString c = (case c of StringCell xs \<Rightarrow> Some xs | _ \<Rightarrow> None)"

definition asEntries :: "'x Cell \<Rightarrow> (string \<times> string) list option" where
  "asEntries c = (case c of EntriesCell xs \<Rightarrow> Some xs | _ \<Rightarrow> None)"

definition asKubernetes :: "'x Cell \<Rightarrow> 'x list option" where
  "asKubernetes c = (case c of KubernetesCell xs \<Rightarrow> Some xs | _ \<Rightarrow> None)"

definition asHelmPolicy :: "'x Cell \<Rightarrow> 'x HelmPolicyMem list option" where
  "asHelmPolicy c = (case c of HelmPolicyCell xs \<Rightarrow> Some xs | _ \<Rightarrow> None)"

definition asHelmPolicyList :: "'x Cell \<Rightarrow> 'x HelmPolicyListMem list option" where
  "asHelmPolicyList c = (case c of HelmPolicyListCell xs \<Rightarrow> Some xs | _ \<Rightarrow> None)"

definition asHelmPolicySpec :: "'x Cell \<Rightarrow> HelmPolicySpecMem list option" where
  "asHelmPolicySpec c = (case c of HelmPolicySpecCell xs \<Rightarrow> Some xs | _ \<Rightarrow> None)"

definition asTest :: "'x Cell \<Rightarrow> 'x TestMem list option" where
  "asTest c = (case c of TestCell xs \<Rightarrow> Some xs | _ \<Rightarrow> None)"

definition asTestList :: "'x Cell \<Rightarrow> 'x TestListMem list option" where
  "asTestList c = (case c of TestListCell xs \<Rightarrow> Some xs | _ \<Rightarrow> None)"

definition asTestResult :: "'x Cell \<Rightarrow> TestResult list option" where
  "asTestResult c = (case c of TestResultCell xs \<Rightarrow> Some xs | _ \<Rightarrow> None)"

definition asTestRun :: "'x Cell \<Rightarrow> 'x TestRunMem list option" where
  "asTestRun c = (case c of TestRunCell xs \<Rightarrow> Some xs | _ \<Rightarrow> None)"

definition asTestRunList :: "'x Cell \<Rightarrow> 'x TestRunListMem list option" where
  "asTestRunList c = (case c of TestRunListCell xs \<Rightarrow> Some xs | _ \<Rightarrow> None)"

definition asTestRunSpec :: "'x Cell \<Rightarrow> TestRunSpecMem list option" where
  "asTestRunSpec c = (case c of TestRunSpecCell xs \<Rightarrow> Some xs | _ \<Rightarrow> None)"

definition asTestRunStatus :: "'x Cell \<Rightarrow> TestRunStatusMem list option" where
  "asTestRunStatus c = (case c of TestRunStatusCell xs \<Rightarrow> Some xs | _ \<Rightarrow> None)"

definition asTestSpec :: "'x Cell \<Rightarrow> 'x TestSpecMem list option" where
  "asTestSpec c = (case c of TestSpecCell xs \<Rightarrow> Some xs | _ \<Rightarrow> None)"

definition asTestStatus :: "'x Cell \<Rightarrow> TestStatusMem list option" where
  "asTestStatus c = (case c of TestStatusCell xs \<Rightarrow> Some xs | _ \<Rightarrow> None)"

definition asTestSuite :: "'x Cell \<Rightarrow> 'x TestSuiteMem list option" where
  "asTestSuite c = (case c of TestSuiteCell xs \<Rightarrow> Some xs | _ \<Rightarrow> None)"

definition asTestSuiteHelmSetUp :: "'x Cell \<Rightarrow> TestSuiteHelmSetUp list option" where
  "asTestSuiteHelmSetUp c = (case c of TestSuiteHelmSetUpCell xs \<Rightarrow> Some xs | _ \<Rightarrow> None)"

definition asTestSuiteHelmTrigger :: "'x Cell \<Rightarrow> TestSuiteHelmTrigger list option" where
  "asTestSuiteHelmTrigger c = (case c of TestSuiteHelmTriggerCell xs \<Rightarrow> Some xs | _ \<Rightarrow> None)"

definition asTestSuiteList :: "'x Cell \<Rightarrow> 'x TestSuiteListMem list option" where
  "asTestSuiteList c = (case c of TestSuiteListCell xs \<Rightarrow> Some xs | _ \<Rightarrow> None)"

definition asTestSuiteSetUp :: "'x Cell \<Rightarrow> TestSuiteSetUp list option" where
  "asTestSuiteSetUp c = (case c of TestSuiteSetUpCell xs \<Rightarrow> Some xs | _ \<Rightarrow> None)"

definition asTestSuiteSpec :: "'x Cell \<Rightarrow> TestSuiteSpecMem list option" where
  "asTestSuiteSpec c = (case c of TestSuiteSpecCell xs \<Rightarrow> Some xs | _ \<Rightarrow> None)"

definition asTestSuiteStatus :: "'x Cell \<Rightarrow> 'x TestSuiteStatusMem list option" where
  "asTestSuiteStatus c = (case c of TestSuiteStatusCell xs \<Rightarrow> Some xs | _ \<Rightarrow> None)"

definition asTestSuiteTrigger :: "'x Cell \<Rightarrow> TestSuiteTrigger list option" where
  "asTestSuiteTrigger c = (case c of TestSuiteTriggerCell xs \<Rightarrow> Some xs | _ \<Rightarrow> None)"

definition asTestSuiteTriggers :: "'x Cell \<Rightarrow> TestSuiteTriggers list option" where
  "asTestSuiteTriggers c = (case c of TestSuiteTriggersCell xs \<Rightarrow> Some xs | _ \<Rightarrow> None)"

definition asTestTemplate :: "'x Cell \<Rightarrow> 'x TestTemplateMem list option" where
  "asTestTemplate c = (case c of TestTemplateCell xs \<Rightarrow> Some xs | _ \<Rightarrow> None)"

interpretation cell_String: cell_type StringCell asString
  by unfold_locales (simp add: asString_def)

interpretation cell_Entries: cell_type EntriesCell asEntries
  by unfold_locales (simp add: asEntries_def)

interpretation cell_Kubernetes: cell_type KubernetesCell asKubernetes
  by unfold_locales (simp add: asKubernetes_def)

interpretation cell_HelmPolicy: cell_type HelmPolicyCell asHelmPolicy
  by unfold_locales (simp add: asHelmPolicy_def)

interpretation cell_HelmPolicyList: cell_type HelmPolicyListCell asHelmPolicyList
  by unfold_locales (simp add: asHelmPolicyList_def)

interpretation cell_HelmPolicySpec: cell_type HelmPolicySpecCell asHelmPolicySpec
  by unfold_locales (simp add: asHelmPolicySpec_def)

interpretation cell_Test: cell_type TestCell asTest
  by unfold_locales (simp add: asTest_def)

interpretation cell_TestList: cell_type TestListCell asTestList
  by unfold_locales (simp add: asTestList_def)

interpretation cell_TestResult: cell_type TestResultCell asTestResult
  by unfold_locales (simp add: asTestResult_def)

interpretation cell_TestRun: cell_type TestRunCell asTestRun
  by unfold_locales (simp add: asTestRun_def)

interpretation cell_TestRunList: cell_type TestRunListCell asTestRunList
  by unfold_locales (simp add: asTestRunList_def)

interpretation cell_TestRunSpec: cell_type TestRunSpecCell asTestRunSpec
  by unfold_locales (simp add: asTestRunSpec_def)

interpretation cell_TestRunStatus: cell_type TestRunStatusCell asTestRunStatus
  by unfold_locales (simp add: asTestRunStatus_def)

interpretation cell_TestSpec: cell_type TestSpecCell asTestSpec
  by unfold_locales (simp add: asTestSpec_def)

interpretation cell_TestStatus: cell_type TestStatusCell asTestStatus
  by unfold_locales (simp add: asTestStatus_def)

interpretation cell_TestSuite: cell_type TestSuiteCell asTestSuite
  by unfold_locales (simp add: asTestSuite_def)

interpretation cell_TestSuiteHelmSetUp: cell_type TestSuiteHelmSetUpCell asTestSuiteHelmSetUp
  by unfold_locales (simp add: asTestSuiteHelmSetUp_def)

interpretation cell_TestSuiteHelmTrigger: cell_type TestSuiteHelmTriggerCell asTestSuiteHelmTrigger
  by unfold_locales (simp add: asTestSuiteHelmTrigger_def)

interpretation cell_TestSuiteList: cell_type TestSuiteListCell asTestSuiteList
  by unfold_locales (simp add: asTestSuiteList_def)

interpretation cell_TestSuiteSetUp: cell_type TestSuiteSetUpCell asTestSuiteSetUp
  by unfold_locales (simp add: asTestSuiteSetUp_def)

interpretation cell_TestSuiteSpec: cell_type TestSuiteSpecCell asTestSuiteSpec
  by unfold_locales (simp add: asTestSuiteSpec_def)

interpretation cell_TestSuiteStatus: cell_type TestSuiteStatusCell asTestSuiteStatus
  by unfold_locales (simp add: asTestSuiteStatus_def)

interpretation cell_TestSuiteTrigger: cell_type TestSuiteTriggerCell asTestSuiteTrigger
  by unfold_locales (simp add: asTestSuiteTrigger_def)

interpretation cell_TestSuiteTriggers: cell_type TestSuiteTriggersCell asTestSuiteTriggers
  by unfold_locales (simp add: asTestSuiteTriggers_def)

interpretation cell_TestTemplate: cell_type TestTemplateCell asTestTemplate
  by unfold_locales (simp add: asTestTemplate_def)
section \<open>The library\<close>

text \<open>
  The copiers of the Kubernetes types, given by the value they leave in \<open>*out\<close>, and the order in which
  \<open>range\<close> visits the entries of a map. A non-nil \<open>*metav1.Time\<close> is a value of \<open>'x\<close> too.
\<close>

record 'x Library =
  ObjectMeta_DeepCopyInto :: "'x \<Rightarrow> ('x Cell, 'x) go"
  ListMeta_DeepCopyInto :: "'x \<Rightarrow> ('x Cell, 'x) go"
  PodTemplateSpec_DeepCopyInto :: "'x \<Rightarrow> ('x Cell, 'x) go"
  Condition_DeepCopyInto :: "'x \<Rightarrow> ('x Cell, 'x) go"
  Time_DeepCopy :: "'x \<Rightarrow> ('x Cell, 'x) go"
  rangeOrder :: "(string \<times> string) list \<Rightarrow> (string \<times> string) list"

section \<open>DeepCopyInto\<close>

text \<open>The block \<open>*out = make([]T, len(*in)); copy( *out, *in)\<close> for elements without references.\<close>

definition copyFlat :: "('v list \<Rightarrow> 'c) \<Rightarrow> ('c \<Rightarrow> 'v list option) \<Rightarrow> Slice \<Rightarrow> ('c, Slice) go" where
  "copyFlat mk un s =
     (if s = NilSlice then State_Monad.return s
      else do {
        a \<leftarrow> allocate;
        xs \<leftarrow> reads (\<lambda>h. the (elements un h s));
        writeCell a (mk xs);
        State_Monad.return (SliceOf a 0 (length xs))
      })"

text \<open>Types without references: \<open>*out = *in\<close>.\<close>

definition TestResult_DeepCopyInto :: "TestResult \<Rightarrow> ('x Cell, TestResult) go" where
  "TestResult_DeepCopyInto x = State_Monad.return x"

definition TestSuiteHelmSetUp_DeepCopyInto :: "TestSuiteHelmSetUp \<Rightarrow> ('x Cell, TestSuiteHelmSetUp) go" where
  "TestSuiteHelmSetUp_DeepCopyInto x = State_Monad.return x"

definition TestSuiteHelmTrigger_DeepCopyInto :: "TestSuiteHelmTrigger \<Rightarrow> ('x Cell, TestSuiteHelmTrigger) go" where
  "TestSuiteHelmTrigger_DeepCopyInto x = State_Monad.return x"

definition TestSuiteSetUp_DeepCopyInto :: "TestSuiteSetUp \<Rightarrow> ('x Cell, TestSuiteSetUp) go" where
  "TestSuiteSetUp_DeepCopyInto x = State_Monad.return (x\<lparr>suHelm := suHelm x\<rparr>)"

definition TestSuiteTrigger_DeepCopyInto :: "TestSuiteTrigger \<Rightarrow> ('x Cell, TestSuiteTrigger) go" where
  "TestSuiteTrigger_DeepCopyInto x = State_Monad.return x"

definition TestSuiteTriggers_DeepCopyInto :: "TestSuiteTriggers \<Rightarrow> ('x Cell, TestSuiteTriggers) go" where
  "TestSuiteTriggers_DeepCopyInto x = State_Monad.return x"

text \<open>The others, from the innermost on.\<close>

definition HelmPolicySpec_DeepCopyInto :: "HelmPolicySpecMem \<Rightarrow> ('x Cell, HelmPolicySpecMem) go" where
  "HelmPolicySpec_DeepCopyInto x = do {
     let out = x;
     y0 \<leftarrow> copyFlat StringCell asString (hpsExportTo x);
     let out = out\<lparr>hpsExportTo := y0\<rparr>;
     State_Monad.return out }"

definition HelmPolicy_DeepCopyInto :: "'x Library \<Rightarrow> 'x HelmPolicyMem \<Rightarrow> ('x Cell, 'x HelmPolicyMem) go" where
  "HelmPolicy_DeepCopyInto lib x = do {
     let out = x;
     let out = out\<lparr>hpTypeMeta := hpTypeMeta x\<rparr>;
     y1 \<leftarrow> ObjectMeta_DeepCopyInto lib (hpMeta x);
     let out = out\<lparr>hpMeta := y1\<rparr>;
     y2 \<leftarrow> HelmPolicySpec_DeepCopyInto (hpSpec x);
     let out = out\<lparr>hpSpec := y2\<rparr>;
     State_Monad.return out }"

definition HelmPolicyList_DeepCopyInto :: "'x Library \<Rightarrow> 'x HelmPolicyListMem \<Rightarrow> ('x Cell, 'x HelmPolicyListMem) go" where
  "HelmPolicyList_DeepCopyInto lib x = do {
     let out = x;
     let out = out\<lparr>hplTypeMeta := hplTypeMeta x\<rparr>;
     y1 \<leftarrow> ListMeta_DeepCopyInto lib (hplMeta x);
     let out = out\<lparr>hplMeta := y1\<rparr>;
     y2 \<leftarrow> copySlice HelmPolicyCell asHelmPolicy (HelmPolicy_DeepCopyInto lib) (hplItems x);
     let out = out\<lparr>hplItems := y2\<rparr>;
     State_Monad.return out }"

definition TestTemplate_DeepCopyInto :: "'x Library \<Rightarrow> 'x TestTemplateMem \<Rightarrow> ('x Cell, 'x TestTemplateMem) go" where
  "TestTemplate_DeepCopyInto lib x = do {
     let out = x;
     y0 \<leftarrow> PodTemplateSpec_DeepCopyInto lib (ttmTemplate x);
     let out = out\<lparr>ttmTemplate := y0\<rparr>;
     State_Monad.return out }"

definition TestSpec_DeepCopyInto :: "'x Library \<Rightarrow> 'x TestSpecMem \<Rightarrow> ('x Cell, 'x TestSpecMem) go" where
  "TestSpec_DeepCopyInto lib x = do {
     let out = x;
     y0 \<leftarrow> PodTemplateSpec_DeepCopyInto lib (tsmTemplate x);
     let out = out\<lparr>tsmTemplate := y0\<rparr>;
     State_Monad.return out }"

definition TestStatus_DeepCopyInto :: "'x Library \<Rightarrow> TestStatusMem \<Rightarrow> ('x Cell, TestStatusMem) go" where
  "TestStatus_DeepCopyInto lib x = do {
     let out = x;
     y0 \<leftarrow> copySlice KubernetesCell asKubernetes (Condition_DeepCopyInto lib) (tstmConditions x);
     let out = out\<lparr>tstmConditions := y0\<rparr>;
     y1 \<leftarrow> copyMap (rangeOrder lib) EntriesCell asEntries (tstmMessages x);
     let out = out\<lparr>tstmMessages := y1\<rparr>;
     State_Monad.return out }"

definition Test_DeepCopyInto :: "'x Library \<Rightarrow> 'x TestMem \<Rightarrow> ('x Cell, 'x TestMem) go" where
  "Test_DeepCopyInto lib x = do {
     let out = x;
     let out = out\<lparr>tTypeMeta := tTypeMeta x\<rparr>;
     y1 \<leftarrow> ObjectMeta_DeepCopyInto lib (tMeta x);
     let out = out\<lparr>tMeta := y1\<rparr>;
     y2 \<leftarrow> TestSpec_DeepCopyInto lib (tSpec x);
     let out = out\<lparr>tSpec := y2\<rparr>;
     y3 \<leftarrow> TestStatus_DeepCopyInto lib (tStatus x);
     let out = out\<lparr>tStatus := y3\<rparr>;
     State_Monad.return out }"

definition TestList_DeepCopyInto :: "'x Library \<Rightarrow> 'x TestListMem \<Rightarrow> ('x Cell, 'x TestListMem) go" where
  "TestList_DeepCopyInto lib x = do {
     let out = x;
     let out = out\<lparr>tlTypeMeta := tlTypeMeta x\<rparr>;
     y1 \<leftarrow> ListMeta_DeepCopyInto lib (tlMeta x);
     let out = out\<lparr>tlMeta := y1\<rparr>;
     y2 \<leftarrow> copySlice TestCell asTest (Test_DeepCopyInto lib) (tlItems x);
     let out = out\<lparr>tlItems := y2\<rparr>;
     State_Monad.return out }"

definition TestRunSpec_DeepCopyInto :: "'x Library \<Rightarrow> TestRunSpecMem \<Rightarrow> ('x Cell, TestRunSpecMem) go" where
  "TestRunSpec_DeepCopyInto lib x = do {
     let out = x;
     y0 \<leftarrow> copySlice TestTemplateCell asTestTemplate (TestTemplate_DeepCopyInto lib) (trsmTests x);
     let out = out\<lparr>trsmTests := y0\<rparr>;
     State_Monad.return out }"

definition TestRunStatus_DeepCopyInto :: "'x Library \<Rightarrow> TestRunStatusMem \<Rightarrow> ('x Cell, TestRunStatusMem) go" where
  "TestRunStatus_DeepCopyInto lib x = do {
     let out = x;
     y0 \<leftarrow> copySlice KubernetesCell asKubernetes (Condition_DeepCopyInto lib) (trstmConditions x);
     let out = out\<lparr>trstmConditions := y0\<rparr>;
     y1 \<leftarrow> copyFlat TestResultCell asTestResult (trstmResults x);
     let out = out\<lparr>trstmResults := y1\<rparr>;
     State_Monad.return out }"

definition TestRun_DeepCopyInto :: "'x Library \<Rightarrow> 'x TestRunMem \<Rightarrow> ('x Cell, 'x TestRunMem) go" where
  "TestRun_DeepCopyInto lib x = do {
     let out = x;
     let out = out\<lparr>trTypeMeta := trTypeMeta x\<rparr>;
     y1 \<leftarrow> ObjectMeta_DeepCopyInto lib (trMeta x);
     let out = out\<lparr>trMeta := y1\<rparr>;
     y2 \<leftarrow> TestRunSpec_DeepCopyInto lib (trSpec x);
     let out = out\<lparr>trSpec := y2\<rparr>;
     y3 \<leftarrow> TestRunStatus_DeepCopyInto lib (trStatus x);
     let out = out\<lparr>trStatus := y3\<rparr>;
     State_Monad.return out }"

definition TestRunList_DeepCopyInto :: "'x Library \<Rightarrow> 'x TestRunListMem \<Rightarrow> ('x Cell, 'x TestRunListMem) go" where
  "TestRunList_DeepCopyInto lib x = do {
     let out = x;
     let out = out\<lparr>trlTypeMeta := trlTypeMeta x\<rparr>;
     y1 \<leftarrow> ListMeta_DeepCopyInto lib (trlMeta x);
     let out = out\<lparr>trlMeta := y1\<rparr>;
     y2 \<leftarrow> copySlice TestRunCell asTestRun (TestRun_DeepCopyInto lib) (trlItems x);
     let out = out\<lparr>trlItems := y2\<rparr>;
     State_Monad.return out }"

definition TestSuiteSpec_DeepCopyInto :: "'x Library \<Rightarrow> TestSuiteSpecMem \<Rightarrow> ('x Cell, TestSuiteSpecMem) go" where
  "TestSuiteSpec_DeepCopyInto lib x = do {
     let out = x;
     let out = out\<lparr>tssmSetUp := tssmSetUp x\<rparr>;
     y1 \<leftarrow> TestRunSpec_DeepCopyInto lib (tssmTemplate x);
     let out = out\<lparr>tssmTemplate := y1\<rparr>;
     let out = out\<lparr>tssmWhen := tssmWhen x\<rparr>;
     State_Monad.return out }"

definition TestSuiteStatus_DeepCopyInto :: "'x Library \<Rightarrow> 'x TestSuiteStatusMem \<Rightarrow> ('x Cell, 'x TestSuiteStatusMem) go" where
  "TestSuiteStatus_DeepCopyInto lib x = do {
     let out = x;
     y0 \<leftarrow> copySlice KubernetesCell asKubernetes (Condition_DeepCopyInto lib) (tsstmConditions x);
     let out = out\<lparr>tsstmConditions := y0\<rparr>;
     y1 \<leftarrow> copyOption (Time_DeepCopy lib) (tsstmNextRun x);
     let out = out\<lparr>tsstmNextRun := y1\<rparr>;
     State_Monad.return out }"

definition TestSuite_DeepCopyInto :: "'x Library \<Rightarrow> 'x TestSuiteMem \<Rightarrow> ('x Cell, 'x TestSuiteMem) go" where
  "TestSuite_DeepCopyInto lib x = do {
     let out = x;
     let out = out\<lparr>tsTypeMeta := tsTypeMeta x\<rparr>;
     y1 \<leftarrow> ObjectMeta_DeepCopyInto lib (tsMeta x);
     let out = out\<lparr>tsMeta := y1\<rparr>;
     y2 \<leftarrow> TestSuiteSpec_DeepCopyInto lib (tsSpec x);
     let out = out\<lparr>tsSpec := y2\<rparr>;
     let out = out\<lparr>tsTrigger := tsTrigger x\<rparr>;
     y4 \<leftarrow> TestSuiteStatus_DeepCopyInto lib (tsStatus x);
     let out = out\<lparr>tsStatus := y4\<rparr>;
     State_Monad.return out }"

definition TestSuiteList_DeepCopyInto :: "'x Library \<Rightarrow> 'x TestSuiteListMem \<Rightarrow> ('x Cell, 'x TestSuiteListMem) go" where
  "TestSuiteList_DeepCopyInto lib x = do {
     let out = x;
     let out = out\<lparr>tslTypeMeta := tslTypeMeta x\<rparr>;
     y1 \<leftarrow> ListMeta_DeepCopyInto lib (tslMeta x);
     let out = out\<lparr>tslMeta := y1\<rparr>;
     y2 \<leftarrow> copySlice TestSuiteCell asTestSuite (TestSuite_DeepCopyInto lib) (tslItems x);
     let out = out\<lparr>tslItems := y2\<rparr>;
     State_Monad.return out }"

section \<open>DeepCopy\<close>

definition HelmPolicy_DeepCopy :: "'x Library \<Rightarrow> Pointer option \<Rightarrow> ('x Cell, Pointer option) go" where
  "HelmPolicy_DeepCopy lib = deepCopy HelmPolicyCell asHelmPolicy (HelmPolicy_DeepCopyInto lib)"

definition HelmPolicyList_DeepCopy :: "'x Library \<Rightarrow> Pointer option \<Rightarrow> ('x Cell, Pointer option) go" where
  "HelmPolicyList_DeepCopy lib = deepCopy HelmPolicyListCell asHelmPolicyList (HelmPolicyList_DeepCopyInto lib)"

definition HelmPolicySpec_DeepCopy :: "Pointer option \<Rightarrow> ('x Cell, Pointer option) go" where
  "HelmPolicySpec_DeepCopy = deepCopy HelmPolicySpecCell asHelmPolicySpec HelmPolicySpec_DeepCopyInto"

definition Test_DeepCopy :: "'x Library \<Rightarrow> Pointer option \<Rightarrow> ('x Cell, Pointer option) go" where
  "Test_DeepCopy lib = deepCopy TestCell asTest (Test_DeepCopyInto lib)"

definition TestList_DeepCopy :: "'x Library \<Rightarrow> Pointer option \<Rightarrow> ('x Cell, Pointer option) go" where
  "TestList_DeepCopy lib = deepCopy TestListCell asTestList (TestList_DeepCopyInto lib)"

definition TestResult_DeepCopy :: "Pointer option \<Rightarrow> ('x Cell, Pointer option) go" where
  "TestResult_DeepCopy = deepCopy TestResultCell asTestResult TestResult_DeepCopyInto"

definition TestRun_DeepCopy :: "'x Library \<Rightarrow> Pointer option \<Rightarrow> ('x Cell, Pointer option) go" where
  "TestRun_DeepCopy lib = deepCopy TestRunCell asTestRun (TestRun_DeepCopyInto lib)"

definition TestRunList_DeepCopy :: "'x Library \<Rightarrow> Pointer option \<Rightarrow> ('x Cell, Pointer option) go" where
  "TestRunList_DeepCopy lib = deepCopy TestRunListCell asTestRunList (TestRunList_DeepCopyInto lib)"

definition TestRunSpec_DeepCopy :: "'x Library \<Rightarrow> Pointer option \<Rightarrow> ('x Cell, Pointer option) go" where
  "TestRunSpec_DeepCopy lib = deepCopy TestRunSpecCell asTestRunSpec (TestRunSpec_DeepCopyInto lib)"

definition TestRunStatus_DeepCopy :: "'x Library \<Rightarrow> Pointer option \<Rightarrow> ('x Cell, Pointer option) go" where
  "TestRunStatus_DeepCopy lib = deepCopy TestRunStatusCell asTestRunStatus (TestRunStatus_DeepCopyInto lib)"

definition TestSpec_DeepCopy :: "'x Library \<Rightarrow> Pointer option \<Rightarrow> ('x Cell, Pointer option) go" where
  "TestSpec_DeepCopy lib = deepCopy TestSpecCell asTestSpec (TestSpec_DeepCopyInto lib)"

definition TestStatus_DeepCopy :: "'x Library \<Rightarrow> Pointer option \<Rightarrow> ('x Cell, Pointer option) go" where
  "TestStatus_DeepCopy lib = deepCopy TestStatusCell asTestStatus (TestStatus_DeepCopyInto lib)"

definition TestSuite_DeepCopy :: "'x Library \<Rightarrow> Pointer option \<Rightarrow> ('x Cell, Pointer option) go" where
  "TestSuite_DeepCopy lib = deepCopy TestSuiteCell asTestSuite (TestSuite_DeepCopyInto lib)"

definition TestSuiteHelmSetUp_DeepCopy :: "Pointer option \<Rightarrow> ('x Cell, Pointer option) go" where
  "TestSuiteHelmSetUp_DeepCopy = deepCopy TestSuiteHelmSetUpCell asTestSuiteHelmSetUp TestSuiteHelmSetUp_DeepCopyInto"

definition TestSuiteHelmTrigger_DeepCopy :: "Pointer option \<Rightarrow> ('x Cell, Pointer option) go" where
  "TestSuiteHelmTrigger_DeepCopy = deepCopy TestSuiteHelmTriggerCell asTestSuiteHelmTrigger TestSuiteHelmTrigger_DeepCopyInto"

definition TestSuiteList_DeepCopy :: "'x Library \<Rightarrow> Pointer option \<Rightarrow> ('x Cell, Pointer option) go" where
  "TestSuiteList_DeepCopy lib = deepCopy TestSuiteListCell asTestSuiteList (TestSuiteList_DeepCopyInto lib)"

definition TestSuiteSetUp_DeepCopy :: "Pointer option \<Rightarrow> ('x Cell, Pointer option) go" where
  "TestSuiteSetUp_DeepCopy = deepCopy TestSuiteSetUpCell asTestSuiteSetUp TestSuiteSetUp_DeepCopyInto"

definition TestSuiteSpec_DeepCopy :: "'x Library \<Rightarrow> Pointer option \<Rightarrow> ('x Cell, Pointer option) go" where
  "TestSuiteSpec_DeepCopy lib = deepCopy TestSuiteSpecCell asTestSuiteSpec (TestSuiteSpec_DeepCopyInto lib)"

definition TestSuiteStatus_DeepCopy :: "'x Library \<Rightarrow> Pointer option \<Rightarrow> ('x Cell, Pointer option) go" where
  "TestSuiteStatus_DeepCopy lib = deepCopy TestSuiteStatusCell asTestSuiteStatus (TestSuiteStatus_DeepCopyInto lib)"

definition TestSuiteTrigger_DeepCopy :: "Pointer option \<Rightarrow> ('x Cell, Pointer option) go" where
  "TestSuiteTrigger_DeepCopy = deepCopy TestSuiteTriggerCell asTestSuiteTrigger TestSuiteTrigger_DeepCopyInto"

definition TestSuiteTriggers_DeepCopy :: "Pointer option \<Rightarrow> ('x Cell, Pointer option) go" where
  "TestSuiteTriggers_DeepCopy = deepCopy TestSuiteTriggersCell asTestSuiteTriggers TestSuiteTriggers_DeepCopyInto"

definition TestTemplate_DeepCopy :: "'x Library \<Rightarrow> Pointer option \<Rightarrow> ('x Cell, Pointer option) go" where
  "TestTemplate_DeepCopy lib = deepCopy TestTemplateCell asTestTemplate (TestTemplate_DeepCopyInto lib)"

section \<open>DeepCopyObject\<close>

text \<open>
  A value of the interface \<open>runtime.Object\<close> that is not nil: a pointer, which may be nil itself, to one
  of the kinds. \<open>DeepCopyObject\<close> returns the nil interface for a nil pointer.
\<close>

datatype RuntimeObject =
    HelmPolicyPtr "Pointer option"
  | HelmPolicyListPtr "Pointer option"
  | TestPtr "Pointer option"
  | TestListPtr "Pointer option"
  | TestRunPtr "Pointer option"
  | TestRunListPtr "Pointer option"
  | TestSuitePtr "Pointer option"
  | TestSuiteListPtr "Pointer option"

definition HelmPolicy_DeepCopyObject :: "'x Library \<Rightarrow> Pointer option \<Rightarrow> ('x Cell, RuntimeObject option) go" where
  "HelmPolicy_DeepCopyObject lib x = do {
     c \<leftarrow> HelmPolicy_DeepCopy lib x;
     if c \<noteq> None then State_Monad.return (Some (HelmPolicyPtr c)) else State_Monad.return None }"

definition HelmPolicyList_DeepCopyObject :: "'x Library \<Rightarrow> Pointer option \<Rightarrow> ('x Cell, RuntimeObject option) go" where
  "HelmPolicyList_DeepCopyObject lib x = do {
     c \<leftarrow> HelmPolicyList_DeepCopy lib x;
     if c \<noteq> None then State_Monad.return (Some (HelmPolicyListPtr c)) else State_Monad.return None }"

definition Test_DeepCopyObject :: "'x Library \<Rightarrow> Pointer option \<Rightarrow> ('x Cell, RuntimeObject option) go" where
  "Test_DeepCopyObject lib x = do {
     c \<leftarrow> Test_DeepCopy lib x;
     if c \<noteq> None then State_Monad.return (Some (TestPtr c)) else State_Monad.return None }"

definition TestList_DeepCopyObject :: "'x Library \<Rightarrow> Pointer option \<Rightarrow> ('x Cell, RuntimeObject option) go" where
  "TestList_DeepCopyObject lib x = do {
     c \<leftarrow> TestList_DeepCopy lib x;
     if c \<noteq> None then State_Monad.return (Some (TestListPtr c)) else State_Monad.return None }"

definition TestRun_DeepCopyObject :: "'x Library \<Rightarrow> Pointer option \<Rightarrow> ('x Cell, RuntimeObject option) go" where
  "TestRun_DeepCopyObject lib x = do {
     c \<leftarrow> TestRun_DeepCopy lib x;
     if c \<noteq> None then State_Monad.return (Some (TestRunPtr c)) else State_Monad.return None }"

definition TestRunList_DeepCopyObject :: "'x Library \<Rightarrow> Pointer option \<Rightarrow> ('x Cell, RuntimeObject option) go" where
  "TestRunList_DeepCopyObject lib x = do {
     c \<leftarrow> TestRunList_DeepCopy lib x;
     if c \<noteq> None then State_Monad.return (Some (TestRunListPtr c)) else State_Monad.return None }"

definition TestSuite_DeepCopyObject :: "'x Library \<Rightarrow> Pointer option \<Rightarrow> ('x Cell, RuntimeObject option) go" where
  "TestSuite_DeepCopyObject lib x = do {
     c \<leftarrow> TestSuite_DeepCopy lib x;
     if c \<noteq> None then State_Monad.return (Some (TestSuitePtr c)) else State_Monad.return None }"

definition TestSuiteList_DeepCopyObject :: "'x Library \<Rightarrow> Pointer option \<Rightarrow> ('x Cell, RuntimeObject option) go" where
  "TestSuiteList_DeepCopyObject lib x = do {
     c \<leftarrow> TestSuiteList_DeepCopy lib x;
     if c \<noteq> None then State_Monad.return (Some (TestSuiteListPtr c)) else State_Monad.return None }"

text \<open>The call of \<open>DeepCopyObject\<close> on a value of the interface.\<close>

fun DeepCopyObject :: "'x Library \<Rightarrow> RuntimeObject \<Rightarrow> ('x Cell, RuntimeObject option) go" where
  "DeepCopyObject lib (HelmPolicyPtr p) = HelmPolicy_DeepCopyObject lib p"
| "DeepCopyObject lib (HelmPolicyListPtr p) = HelmPolicyList_DeepCopyObject lib p"
| "DeepCopyObject lib (TestPtr p) = Test_DeepCopyObject lib p"
| "DeepCopyObject lib (TestListPtr p) = TestList_DeepCopyObject lib p"
| "DeepCopyObject lib (TestRunPtr p) = TestRun_DeepCopyObject lib p"
| "DeepCopyObject lib (TestRunListPtr p) = TestRunList_DeepCopyObject lib p"
| "DeepCopyObject lib (TestSuitePtr p) = TestSuite_DeepCopyObject lib p"
| "DeepCopyObject lib (TestSuiteListPtr p) = TestSuiteList_DeepCopyObject lib p"

section \<open>Views and footprints\<close>

text \<open>\<open>ListMeta\<close> of the library, by the fields a list request uses.\<close>

record ListMeta =
  lmResourceVersion :: string
  lmContinue :: string

record 'i ListValue =
  lvTypeMeta :: TypeMeta
  lvMeta :: ListMeta
  lvItems :: "'i list"

record 'x LibraryViews =
  metaView :: "'x Cell Heap \<Rightarrow> 'x \<Rightarrow> ObjectMeta option"
  metaFoot :: "'x Cell Heap \<Rightarrow> 'x \<Rightarrow> addr set"
  listMetaView :: "'x Cell Heap \<Rightarrow> 'x \<Rightarrow> ListMeta option"
  listMetaFoot :: "'x Cell Heap \<Rightarrow> 'x \<Rightarrow> addr set"
  templateView :: "'x Cell Heap \<Rightarrow> 'x \<Rightarrow> PodTemplateSpec option"
  templateFoot :: "'x Cell Heap \<Rightarrow> 'x \<Rightarrow> addr set"
  conditionView :: "'x Cell Heap \<Rightarrow> 'x \<Rightarrow> Condition option"
  conditionFoot :: "'x Cell Heap \<Rightarrow> 'x \<Rightarrow> addr set"
  timeView :: "'x Cell Heap \<Rightarrow> 'x \<Rightarrow> Time option"
  timeFoot :: "'x Cell Heap \<Rightarrow> 'x \<Rightarrow> addr set"

text \<open>The documented behaviour of the library: its copiers are deep copiers, a \<open>range\<close> visits every entry once.\<close>

definition librarySpec :: "'x Library \<Rightarrow> 'x LibraryViews \<Rightarrow> bool" where
  "librarySpec lib gv \<longleftrightarrow>
     deep_copier (ObjectMeta_DeepCopyInto lib) (metaView gv) (metaFoot gv) \<and>
     deep_copier (ListMeta_DeepCopyInto lib) (listMetaView gv) (listMetaFoot gv) \<and>
     deep_copier (PodTemplateSpec_DeepCopyInto lib) (templateView gv) (templateFoot gv) \<and>
     deep_copier (Condition_DeepCopyInto lib) (conditionView gv) (conditionFoot gv) \<and>
     deep_copier (Time_DeepCopy lib) (timeView gv) (timeFoot gv) \<and>
     rangesAll (rangeOrder lib)"

definition HelmPolicySpec_view :: "'x Cell Heap \<Rightarrow> HelmPolicySpecMem \<Rightarrow> HelmPolicySpec option" where
  "HelmPolicySpec_view h x = map_option (\<lambda>a. \<lparr>ExportTo = a\<rparr>)
     (sliceView asString flatView h (hpsExportTo x))"

definition HelmPolicySpec_foot :: "'x Cell Heap \<Rightarrow> HelmPolicySpecMem \<Rightarrow> addr set" where
  "HelmPolicySpec_foot h x = sliceFoot asString flatFoot h (hpsExportTo x)"

definition HelmPolicy_view :: "'x LibraryViews \<Rightarrow> 'x Cell Heap \<Rightarrow> 'x HelmPolicyMem \<Rightarrow> HelmPolicy option" where
  "HelmPolicy_view gv h x = map_option (\<lambda>(a, b). \<lparr>APIVersion = tmAPIVersion (hpTypeMeta x), Kind = tmKind (hpTypeMeta x), Meta = a, policy_Spec = b\<rparr>)
     (pairView (metaView gv) (HelmPolicySpec_view) h (hpMeta x, hpSpec x))"

definition HelmPolicy_foot :: "'x LibraryViews \<Rightarrow> 'x Cell Heap \<Rightarrow> 'x HelmPolicyMem \<Rightarrow> addr set" where
  "HelmPolicy_foot gv h x = pairFoot (metaFoot gv) (HelmPolicySpec_foot) h (hpMeta x, hpSpec x)"

definition HelmPolicyList_view :: "'x LibraryViews \<Rightarrow> 'x Cell Heap \<Rightarrow> 'x HelmPolicyListMem \<Rightarrow> HelmPolicy ListValue option" where
  "HelmPolicyList_view gv h x = map_option (\<lambda>(a, b). \<lparr>lvTypeMeta = hplTypeMeta x, lvMeta = a, lvItems = b\<rparr>)
     (pairView (listMetaView gv) (sliceView asHelmPolicy (HelmPolicy_view gv)) h (hplMeta x, hplItems x))"

definition HelmPolicyList_foot :: "'x LibraryViews \<Rightarrow> 'x Cell Heap \<Rightarrow> 'x HelmPolicyListMem \<Rightarrow> addr set" where
  "HelmPolicyList_foot gv h x = pairFoot (listMetaFoot gv) (sliceFoot asHelmPolicy (HelmPolicy_foot gv)) h (hplMeta x, hplItems x)"

definition TestTemplate_view :: "'x LibraryViews \<Rightarrow> 'x Cell Heap \<Rightarrow> 'x TestTemplateMem \<Rightarrow> TestTemplate option" where
  "TestTemplate_view gv h x = map_option (\<lambda>a. \<lparr>ttDescription = ttmDescription x, ttRetentionPolicy = ttmRetentionPolicy x, ttTemplate = a\<rparr>)
     (templateView gv h (ttmTemplate x))"

definition TestTemplate_foot :: "'x LibraryViews \<Rightarrow> 'x Cell Heap \<Rightarrow> 'x TestTemplateMem \<Rightarrow> addr set" where
  "TestTemplate_foot gv h x = templateFoot gv h (ttmTemplate x)"

definition TestSpec_view :: "'x LibraryViews \<Rightarrow> 'x Cell Heap \<Rightarrow> 'x TestSpecMem \<Rightarrow> TestSpec option" where
  "TestSpec_view gv h x = map_option (\<lambda>a. \<lparr>tsRetentionPolicy = tsmRetentionPolicy x, tsTemplate = a\<rparr>)
     (templateView gv h (tsmTemplate x))"

definition TestSpec_foot :: "'x LibraryViews \<Rightarrow> 'x Cell Heap \<Rightarrow> 'x TestSpecMem \<Rightarrow> addr set" where
  "TestSpec_foot gv h x = templateFoot gv h (tsmTemplate x)"

definition TestStatus_view :: "'x LibraryViews \<Rightarrow> 'x Cell Heap \<Rightarrow> TestStatusMem \<Rightarrow> TestStatus option" where
  "TestStatus_view gv h x = map_option (\<lambda>(a, b). \<lparr>tstConditions = a, tstPhase = tstmPhase x, tstMessages = b\<rparr>)
     (pairView (sliceView asKubernetes (conditionView gv)) (mapView asEntries) h (tstmConditions x, tstmMessages x))"

definition TestStatus_foot :: "'x LibraryViews \<Rightarrow> 'x Cell Heap \<Rightarrow> TestStatusMem \<Rightarrow> addr set" where
  "TestStatus_foot gv h x = pairFoot (sliceFoot asKubernetes (conditionFoot gv)) (mapFoot) h (tstmConditions x, tstmMessages x)"

definition Test_view :: "'x LibraryViews \<Rightarrow> 'x Cell Heap \<Rightarrow> 'x TestMem \<Rightarrow> Test option" where
  "Test_view gv h x = map_option (\<lambda>(a, b, c). \<lparr>APIVersion = tmAPIVersion (tTypeMeta x), Kind = tmKind (tTypeMeta x), Meta = a, test_Spec = b, test_Status = c\<rparr>)
     (pairView (metaView gv) (pairView (TestSpec_view gv) (TestStatus_view gv)) h (tMeta x, tSpec x, tStatus x))"

definition Test_foot :: "'x LibraryViews \<Rightarrow> 'x Cell Heap \<Rightarrow> 'x TestMem \<Rightarrow> addr set" where
  "Test_foot gv h x = pairFoot (metaFoot gv) (pairFoot (TestSpec_foot gv) (TestStatus_foot gv)) h (tMeta x, tSpec x, tStatus x)"

definition TestList_view :: "'x LibraryViews \<Rightarrow> 'x Cell Heap \<Rightarrow> 'x TestListMem \<Rightarrow> Test ListValue option" where
  "TestList_view gv h x = map_option (\<lambda>(a, b). \<lparr>lvTypeMeta = tlTypeMeta x, lvMeta = a, lvItems = b\<rparr>)
     (pairView (listMetaView gv) (sliceView asTest (Test_view gv)) h (tlMeta x, tlItems x))"

definition TestList_foot :: "'x LibraryViews \<Rightarrow> 'x Cell Heap \<Rightarrow> 'x TestListMem \<Rightarrow> addr set" where
  "TestList_foot gv h x = pairFoot (listMetaFoot gv) (sliceFoot asTest (Test_foot gv)) h (tlMeta x, tlItems x)"

definition TestRunSpec_view :: "'x LibraryViews \<Rightarrow> 'x Cell Heap \<Rightarrow> TestRunSpecMem \<Rightarrow> TestRunSpec option" where
  "TestRunSpec_view gv h x = map_option (\<lambda>a. \<lparr>trsRetentionPolicy = trsmRetentionPolicy x, trsTests = a\<rparr>)
     (sliceView asTestTemplate (TestTemplate_view gv) h (trsmTests x))"

definition TestRunSpec_foot :: "'x LibraryViews \<Rightarrow> 'x Cell Heap \<Rightarrow> TestRunSpecMem \<Rightarrow> addr set" where
  "TestRunSpec_foot gv h x = sliceFoot asTestTemplate (TestTemplate_foot gv) h (trsmTests x)"

definition TestRunStatus_view :: "'x LibraryViews \<Rightarrow> 'x Cell Heap \<Rightarrow> TestRunStatusMem \<Rightarrow> TestRunStatus option" where
  "TestRunStatus_view gv h x = map_option (\<lambda>(a, b). \<lparr>trstConditions = a, trstPhase = trstmPhase x, trstMessage = trstmMessage x, trstResults = b\<rparr>)
     (pairView (sliceView asKubernetes (conditionView gv)) (sliceView asTestResult flatView) h (trstmConditions x, trstmResults x))"

definition TestRunStatus_foot :: "'x LibraryViews \<Rightarrow> 'x Cell Heap \<Rightarrow> TestRunStatusMem \<Rightarrow> addr set" where
  "TestRunStatus_foot gv h x = pairFoot (sliceFoot asKubernetes (conditionFoot gv)) (sliceFoot asTestResult flatFoot) h (trstmConditions x, trstmResults x)"

definition TestRun_view :: "'x LibraryViews \<Rightarrow> 'x Cell Heap \<Rightarrow> 'x TestRunMem \<Rightarrow> TestRun option" where
  "TestRun_view gv h x = map_option (\<lambda>(a, b, c). \<lparr>APIVersion = tmAPIVersion (trTypeMeta x), Kind = tmKind (trTypeMeta x), Meta = a, run_Spec = b, run_Status = c\<rparr>)
     (pairView (metaView gv) (pairView (TestRunSpec_view gv) (TestRunStatus_view gv)) h (trMeta x, trSpec x, trStatus x))"

definition TestRun_foot :: "'x LibraryViews \<Rightarrow> 'x Cell Heap \<Rightarrow> 'x TestRunMem \<Rightarrow> addr set" where
  "TestRun_foot gv h x = pairFoot (metaFoot gv) (pairFoot (TestRunSpec_foot gv) (TestRunStatus_foot gv)) h (trMeta x, trSpec x, trStatus x)"

definition TestRunList_view :: "'x LibraryViews \<Rightarrow> 'x Cell Heap \<Rightarrow> 'x TestRunListMem \<Rightarrow> TestRun ListValue option" where
  "TestRunList_view gv h x = map_option (\<lambda>(a, b). \<lparr>lvTypeMeta = trlTypeMeta x, lvMeta = a, lvItems = b\<rparr>)
     (pairView (listMetaView gv) (sliceView asTestRun (TestRun_view gv)) h (trlMeta x, trlItems x))"

definition TestRunList_foot :: "'x LibraryViews \<Rightarrow> 'x Cell Heap \<Rightarrow> 'x TestRunListMem \<Rightarrow> addr set" where
  "TestRunList_foot gv h x = pairFoot (listMetaFoot gv) (sliceFoot asTestRun (TestRun_foot gv)) h (trlMeta x, trlItems x)"

definition TestSuiteSpec_view :: "'x LibraryViews \<Rightarrow> 'x Cell Heap \<Rightarrow> TestSuiteSpecMem \<Rightarrow> TestSuiteSpec option" where
  "TestSuiteSpec_view gv h x = map_option (\<lambda>a. \<lparr>tssHistoryLimit = tssmHistoryLimit x, tssSetUp = tssmSetUp x, tssTemplate = a, tssWhen = tssmWhen x\<rparr>)
     (TestRunSpec_view gv h (tssmTemplate x))"

definition TestSuiteSpec_foot :: "'x LibraryViews \<Rightarrow> 'x Cell Heap \<Rightarrow> TestSuiteSpecMem \<Rightarrow> addr set" where
  "TestSuiteSpec_foot gv h x = TestRunSpec_foot gv h (tssmTemplate x)"

definition TestSuiteStatus_view :: "'x LibraryViews \<Rightarrow> 'x Cell Heap \<Rightarrow> 'x TestSuiteStatusMem \<Rightarrow> TestSuiteStatus option" where
  "TestSuiteStatus_view gv h x = map_option (\<lambda>(a, b). \<lparr>tsstConditions = a, tsstPhase = tsstmPhase x, CurrentTestRun = tsstmCurrentTestRun x, NextRun = b\<rparr>)
     (pairView (sliceView asKubernetes (conditionView gv)) (optionView (timeView gv)) h (tsstmConditions x, tsstmNextRun x))"

definition TestSuiteStatus_foot :: "'x LibraryViews \<Rightarrow> 'x Cell Heap \<Rightarrow> 'x TestSuiteStatusMem \<Rightarrow> addr set" where
  "TestSuiteStatus_foot gv h x = pairFoot (sliceFoot asKubernetes (conditionFoot gv)) (optionFoot (timeFoot gv)) h (tsstmConditions x, tsstmNextRun x)"

definition TestSuite_view :: "'x LibraryViews \<Rightarrow> 'x Cell Heap \<Rightarrow> 'x TestSuiteMem \<Rightarrow> TestSuite option" where
  "TestSuite_view gv h x = map_option (\<lambda>(a, b, c). \<lparr>APIVersion = tmAPIVersion (tsTypeMeta x), Kind = tmKind (tsTypeMeta x), Meta = a, suite_Spec = b, suite_Trigger = tsTrigger x, suite_Status = c\<rparr>)
     (pairView (metaView gv) (pairView (TestSuiteSpec_view gv) (TestSuiteStatus_view gv)) h (tsMeta x, tsSpec x, tsStatus x))"

definition TestSuite_foot :: "'x LibraryViews \<Rightarrow> 'x Cell Heap \<Rightarrow> 'x TestSuiteMem \<Rightarrow> addr set" where
  "TestSuite_foot gv h x = pairFoot (metaFoot gv) (pairFoot (TestSuiteSpec_foot gv) (TestSuiteStatus_foot gv)) h (tsMeta x, tsSpec x, tsStatus x)"

definition TestSuiteList_view :: "'x LibraryViews \<Rightarrow> 'x Cell Heap \<Rightarrow> 'x TestSuiteListMem \<Rightarrow> TestSuite ListValue option" where
  "TestSuiteList_view gv h x = map_option (\<lambda>(a, b). \<lparr>lvTypeMeta = tslTypeMeta x, lvMeta = a, lvItems = b\<rparr>)
     (pairView (listMetaView gv) (sliceView asTestSuite (TestSuite_view gv)) h (tslMeta x, tslItems x))"

definition TestSuiteList_foot :: "'x LibraryViews \<Rightarrow> 'x Cell Heap \<Rightarrow> 'x TestSuiteListMem \<Rightarrow> addr set" where
  "TestSuiteList_foot gv h x = pairFoot (listMetaFoot gv) (sliceFoot asTestSuite (TestSuite_foot gv)) h (tslMeta x, tslItems x)"

section \<open>Every generated function is a deep copier\<close>

lemma traverse_return: "State_Monad.traverse_list State_Monad.return xs = State_Monad.return xs"
  by (induction xs) simp_all

lemma copyFlat_slice: "copyFlat mk un = copySlice mk un State_Monad.return"
  by (simp add: copyFlat_def copySlice_def fun_eq_iff traverse_return)

lemma library_laws:
  assumes "librarySpec lib gv"
  shows "deep_copier (ObjectMeta_DeepCopyInto lib) (metaView gv) (metaFoot gv)"
    and "deep_copier (ListMeta_DeepCopyInto lib) (listMetaView gv) (listMetaFoot gv)"
    and "deep_copier (PodTemplateSpec_DeepCopyInto lib) (templateView gv) (templateFoot gv)"
    and "deep_copier (Condition_DeepCopyInto lib) (conditionView gv) (conditionFoot gv)"
    and "deep_copier (Time_DeepCopy lib) (timeView gv) (timeFoot gv)"
    and "rangesAll (rangeOrder lib)"
  using assms by (simp_all add: librarySpec_def)

lemma copier_HelmPolicySpec:
  shows "deep_copier HelmPolicySpec_DeepCopyInto HelmPolicySpec_view HelmPolicySpec_foot"
  by (rule deep_copier_struct [OF deep_copier_slice [OF cell_String.cell_type_axioms deep_copier_flat], where
        get = "\<lambda>x. hpsExportTo x" and put = "\<lambda>a x. x\<lparr>hpsExportTo := a\<rparr>" and
        build = "\<lambda>x a. \<lparr>ExportTo = a\<rparr>"])
    (auto simp: HelmPolicySpec_DeepCopyInto_def HelmPolicySpec_view_def HelmPolicySpec_foot_def copyPair_def copyFlat_slice)

lemma copier_HelmPolicy:
  assumes "librarySpec lib gv"
  shows "deep_copier (HelmPolicy_DeepCopyInto lib) (HelmPolicy_view gv) (HelmPolicy_foot gv)"
  by (rule deep_copier_struct [OF deep_copier_pair [OF library_laws(1) [OF assms] copier_HelmPolicySpec], where
        get = "\<lambda>x. (hpMeta x, hpSpec x)" and put = "\<lambda>(a, b) x. x\<lparr>hpMeta := a, hpSpec := b\<rparr>" and
        build = "\<lambda>x (a, b). \<lparr>APIVersion = tmAPIVersion (hpTypeMeta x), Kind = tmKind (hpTypeMeta x), Meta = a, policy_Spec = b\<rparr>"])
    (auto simp: HelmPolicy_DeepCopyInto_def HelmPolicy_view_def HelmPolicy_foot_def copyPair_def copyFlat_slice)

lemma copier_HelmPolicyList:
  assumes "librarySpec lib gv"
  shows "deep_copier (HelmPolicyList_DeepCopyInto lib) (HelmPolicyList_view gv) (HelmPolicyList_foot gv)"
  by (rule deep_copier_struct [OF deep_copier_pair [OF library_laws(2) [OF assms] deep_copier_slice [OF cell_HelmPolicy.cell_type_axioms copier_HelmPolicy [OF assms]]], where
        get = "\<lambda>x. (hplMeta x, hplItems x)" and put = "\<lambda>(a, b) x. x\<lparr>hplMeta := a, hplItems := b\<rparr>" and
        build = "\<lambda>x (a, b). \<lparr>lvTypeMeta = hplTypeMeta x, lvMeta = a, lvItems = b\<rparr>"])
    (auto simp: HelmPolicyList_DeepCopyInto_def HelmPolicyList_view_def HelmPolicyList_foot_def copyPair_def copyFlat_slice)

lemma copier_TestTemplate:
  assumes "librarySpec lib gv"
  shows "deep_copier (TestTemplate_DeepCopyInto lib) (TestTemplate_view gv) (TestTemplate_foot gv)"
  by (rule deep_copier_struct [OF library_laws(3) [OF assms], where
        get = "\<lambda>x. ttmTemplate x" and put = "\<lambda>a x. x\<lparr>ttmTemplate := a\<rparr>" and
        build = "\<lambda>x a. \<lparr>ttDescription = ttmDescription x, ttRetentionPolicy = ttmRetentionPolicy x, ttTemplate = a\<rparr>"])
    (auto simp: TestTemplate_DeepCopyInto_def TestTemplate_view_def TestTemplate_foot_def copyPair_def copyFlat_slice)

lemma copier_TestSpec:
  assumes "librarySpec lib gv"
  shows "deep_copier (TestSpec_DeepCopyInto lib) (TestSpec_view gv) (TestSpec_foot gv)"
  by (rule deep_copier_struct [OF library_laws(3) [OF assms], where
        get = "\<lambda>x. tsmTemplate x" and put = "\<lambda>a x. x\<lparr>tsmTemplate := a\<rparr>" and
        build = "\<lambda>x a. \<lparr>tsRetentionPolicy = tsmRetentionPolicy x, tsTemplate = a\<rparr>"])
    (auto simp: TestSpec_DeepCopyInto_def TestSpec_view_def TestSpec_foot_def copyPair_def copyFlat_slice)

lemma copier_TestStatus:
  assumes "librarySpec lib gv"
  shows "deep_copier (TestStatus_DeepCopyInto lib) (TestStatus_view gv) (TestStatus_foot gv)"
  by (rule deep_copier_struct [OF deep_copier_pair [OF deep_copier_slice [OF cell_Kubernetes.cell_type_axioms library_laws(4) [OF assms]] deep_copier_map [OF cell_Entries.cell_type_axioms library_laws(6) [OF assms]]], where
        get = "\<lambda>x. (tstmConditions x, tstmMessages x)" and put = "\<lambda>(a, b) x. x\<lparr>tstmConditions := a, tstmMessages := b\<rparr>" and
        build = "\<lambda>x (a, b). \<lparr>tstConditions = a, tstPhase = tstmPhase x, tstMessages = b\<rparr>"])
    (auto simp: TestStatus_DeepCopyInto_def TestStatus_view_def TestStatus_foot_def copyPair_def copyFlat_slice)

lemma copier_Test:
  assumes "librarySpec lib gv"
  shows "deep_copier (Test_DeepCopyInto lib) (Test_view gv) (Test_foot gv)"
  by (rule deep_copier_struct [OF deep_copier_pair [OF library_laws(1) [OF assms] deep_copier_pair [OF copier_TestSpec [OF assms] copier_TestStatus [OF assms]]], where
        get = "\<lambda>x. (tMeta x, tSpec x, tStatus x)" and put = "\<lambda>(a, b, c) x. x\<lparr>tMeta := a, tSpec := b, tStatus := c\<rparr>" and
        build = "\<lambda>x (a, b, c). \<lparr>APIVersion = tmAPIVersion (tTypeMeta x), Kind = tmKind (tTypeMeta x), Meta = a, test_Spec = b, test_Status = c\<rparr>"])
    (auto simp: Test_DeepCopyInto_def Test_view_def Test_foot_def copyPair_def copyFlat_slice)

lemma copier_TestList:
  assumes "librarySpec lib gv"
  shows "deep_copier (TestList_DeepCopyInto lib) (TestList_view gv) (TestList_foot gv)"
  by (rule deep_copier_struct [OF deep_copier_pair [OF library_laws(2) [OF assms] deep_copier_slice [OF cell_Test.cell_type_axioms copier_Test [OF assms]]], where
        get = "\<lambda>x. (tlMeta x, tlItems x)" and put = "\<lambda>(a, b) x. x\<lparr>tlMeta := a, tlItems := b\<rparr>" and
        build = "\<lambda>x (a, b). \<lparr>lvTypeMeta = tlTypeMeta x, lvMeta = a, lvItems = b\<rparr>"])
    (auto simp: TestList_DeepCopyInto_def TestList_view_def TestList_foot_def copyPair_def copyFlat_slice)

lemma copier_TestRunSpec:
  assumes "librarySpec lib gv"
  shows "deep_copier (TestRunSpec_DeepCopyInto lib) (TestRunSpec_view gv) (TestRunSpec_foot gv)"
  by (rule deep_copier_struct [OF deep_copier_slice [OF cell_TestTemplate.cell_type_axioms copier_TestTemplate [OF assms]], where
        get = "\<lambda>x. trsmTests x" and put = "\<lambda>a x. x\<lparr>trsmTests := a\<rparr>" and
        build = "\<lambda>x a. \<lparr>trsRetentionPolicy = trsmRetentionPolicy x, trsTests = a\<rparr>"])
    (auto simp: TestRunSpec_DeepCopyInto_def TestRunSpec_view_def TestRunSpec_foot_def copyPair_def copyFlat_slice)

lemma copier_TestRunStatus:
  assumes "librarySpec lib gv"
  shows "deep_copier (TestRunStatus_DeepCopyInto lib) (TestRunStatus_view gv) (TestRunStatus_foot gv)"
  by (rule deep_copier_struct [OF deep_copier_pair [OF deep_copier_slice [OF cell_Kubernetes.cell_type_axioms library_laws(4) [OF assms]] deep_copier_slice [OF cell_TestResult.cell_type_axioms deep_copier_flat]], where
        get = "\<lambda>x. (trstmConditions x, trstmResults x)" and put = "\<lambda>(a, b) x. x\<lparr>trstmConditions := a, trstmResults := b\<rparr>" and
        build = "\<lambda>x (a, b). \<lparr>trstConditions = a, trstPhase = trstmPhase x, trstMessage = trstmMessage x, trstResults = b\<rparr>"])
    (auto simp: TestRunStatus_DeepCopyInto_def TestRunStatus_view_def TestRunStatus_foot_def copyPair_def copyFlat_slice)

lemma copier_TestRun:
  assumes "librarySpec lib gv"
  shows "deep_copier (TestRun_DeepCopyInto lib) (TestRun_view gv) (TestRun_foot gv)"
  by (rule deep_copier_struct [OF deep_copier_pair [OF library_laws(1) [OF assms] deep_copier_pair [OF copier_TestRunSpec [OF assms] copier_TestRunStatus [OF assms]]], where
        get = "\<lambda>x. (trMeta x, trSpec x, trStatus x)" and put = "\<lambda>(a, b, c) x. x\<lparr>trMeta := a, trSpec := b, trStatus := c\<rparr>" and
        build = "\<lambda>x (a, b, c). \<lparr>APIVersion = tmAPIVersion (trTypeMeta x), Kind = tmKind (trTypeMeta x), Meta = a, run_Spec = b, run_Status = c\<rparr>"])
    (auto simp: TestRun_DeepCopyInto_def TestRun_view_def TestRun_foot_def copyPair_def copyFlat_slice)

lemma copier_TestRunList:
  assumes "librarySpec lib gv"
  shows "deep_copier (TestRunList_DeepCopyInto lib) (TestRunList_view gv) (TestRunList_foot gv)"
  by (rule deep_copier_struct [OF deep_copier_pair [OF library_laws(2) [OF assms] deep_copier_slice [OF cell_TestRun.cell_type_axioms copier_TestRun [OF assms]]], where
        get = "\<lambda>x. (trlMeta x, trlItems x)" and put = "\<lambda>(a, b) x. x\<lparr>trlMeta := a, trlItems := b\<rparr>" and
        build = "\<lambda>x (a, b). \<lparr>lvTypeMeta = trlTypeMeta x, lvMeta = a, lvItems = b\<rparr>"])
    (auto simp: TestRunList_DeepCopyInto_def TestRunList_view_def TestRunList_foot_def copyPair_def copyFlat_slice)

lemma copier_TestSuiteSpec:
  assumes "librarySpec lib gv"
  shows "deep_copier (TestSuiteSpec_DeepCopyInto lib) (TestSuiteSpec_view gv) (TestSuiteSpec_foot gv)"
  by (rule deep_copier_struct [OF copier_TestRunSpec [OF assms], where
        get = "\<lambda>x. tssmTemplate x" and put = "\<lambda>a x. x\<lparr>tssmTemplate := a\<rparr>" and
        build = "\<lambda>x a. \<lparr>tssHistoryLimit = tssmHistoryLimit x, tssSetUp = tssmSetUp x, tssTemplate = a, tssWhen = tssmWhen x\<rparr>"])
    (auto simp: TestSuiteSpec_DeepCopyInto_def TestSuiteSpec_view_def TestSuiteSpec_foot_def copyPair_def copyFlat_slice)

lemma copier_TestSuiteStatus:
  assumes "librarySpec lib gv"
  shows "deep_copier (TestSuiteStatus_DeepCopyInto lib) (TestSuiteStatus_view gv) (TestSuiteStatus_foot gv)"
  by (rule deep_copier_struct [OF deep_copier_pair [OF deep_copier_slice [OF cell_Kubernetes.cell_type_axioms library_laws(4) [OF assms]] deep_copier_option [OF library_laws(5) [OF assms]]], where
        get = "\<lambda>x. (tsstmConditions x, tsstmNextRun x)" and put = "\<lambda>(a, b) x. x\<lparr>tsstmConditions := a, tsstmNextRun := b\<rparr>" and
        build = "\<lambda>x (a, b). \<lparr>tsstConditions = a, tsstPhase = tsstmPhase x, CurrentTestRun = tsstmCurrentTestRun x, NextRun = b\<rparr>"])
    (auto simp: TestSuiteStatus_DeepCopyInto_def TestSuiteStatus_view_def TestSuiteStatus_foot_def copyPair_def copyFlat_slice)

lemma copier_TestSuite:
  assumes "librarySpec lib gv"
  shows "deep_copier (TestSuite_DeepCopyInto lib) (TestSuite_view gv) (TestSuite_foot gv)"
  by (rule deep_copier_struct [OF deep_copier_pair [OF library_laws(1) [OF assms] deep_copier_pair [OF copier_TestSuiteSpec [OF assms] copier_TestSuiteStatus [OF assms]]], where
        get = "\<lambda>x. (tsMeta x, tsSpec x, tsStatus x)" and put = "\<lambda>(a, b, c) x. x\<lparr>tsMeta := a, tsSpec := b, tsStatus := c\<rparr>" and
        build = "\<lambda>x (a, b, c). \<lparr>APIVersion = tmAPIVersion (tsTypeMeta x), Kind = tmKind (tsTypeMeta x), Meta = a, suite_Spec = b, suite_Trigger = tsTrigger x, suite_Status = c\<rparr>"])
    (auto simp: TestSuite_DeepCopyInto_def TestSuite_view_def TestSuite_foot_def copyPair_def copyFlat_slice)

lemma copier_TestSuiteList:
  assumes "librarySpec lib gv"
  shows "deep_copier (TestSuiteList_DeepCopyInto lib) (TestSuiteList_view gv) (TestSuiteList_foot gv)"
  by (rule deep_copier_struct [OF deep_copier_pair [OF library_laws(2) [OF assms] deep_copier_slice [OF cell_TestSuite.cell_type_axioms copier_TestSuite [OF assms]]], where
        get = "\<lambda>x. (tslMeta x, tslItems x)" and put = "\<lambda>(a, b) x. x\<lparr>tslMeta := a, tslItems := b\<rparr>" and
        build = "\<lambda>x (a, b). \<lparr>lvTypeMeta = tslTypeMeta x, lvMeta = a, lvItems = b\<rparr>"])
    (auto simp: TestSuiteList_DeepCopyInto_def TestSuiteList_view_def TestSuiteList_foot_def copyPair_def copyFlat_slice)
section \<open>The objects of the API\<close>

text \<open>What a pointer to an object of the API stands for.\<close>

datatype Value =
    HelmPolicyVal HelmPolicy
  | HelmPolicyListVal "HelmPolicy ListValue"
  | TestVal Test
  | TestListVal "Test ListValue"
  | TestRunVal TestRun
  | TestRunListVal "TestRun ListValue"
  | TestSuiteVal TestSuite
  | TestSuiteListVal "TestSuite ListValue"

fun objectView :: "'x LibraryViews \<Rightarrow> 'x Cell Heap \<Rightarrow> RuntimeObject \<Rightarrow> Value option option" where
  "objectView gv h (HelmPolicyPtr p) = map_option (map_option HelmPolicyVal) (pointerView asHelmPolicy (HelmPolicy_view gv) h p)"
| "objectView gv h (HelmPolicyListPtr p) = map_option (map_option HelmPolicyListVal) (pointerView asHelmPolicyList (HelmPolicyList_view gv) h p)"
| "objectView gv h (TestPtr p) = map_option (map_option TestVal) (pointerView asTest (Test_view gv) h p)"
| "objectView gv h (TestListPtr p) = map_option (map_option TestListVal) (pointerView asTestList (TestList_view gv) h p)"
| "objectView gv h (TestRunPtr p) = map_option (map_option TestRunVal) (pointerView asTestRun (TestRun_view gv) h p)"
| "objectView gv h (TestRunListPtr p) = map_option (map_option TestRunListVal) (pointerView asTestRunList (TestRunList_view gv) h p)"
| "objectView gv h (TestSuitePtr p) = map_option (map_option TestSuiteVal) (pointerView asTestSuite (TestSuite_view gv) h p)"
| "objectView gv h (TestSuiteListPtr p) = map_option (map_option TestSuiteListVal) (pointerView asTestSuiteList (TestSuiteList_view gv) h p)"

fun objectFoot :: "'x LibraryViews \<Rightarrow> 'x Cell Heap \<Rightarrow> RuntimeObject \<Rightarrow> addr set" where
  "objectFoot gv h (HelmPolicyPtr p) = pointerFoot asHelmPolicy (HelmPolicy_foot gv) h p"
| "objectFoot gv h (HelmPolicyListPtr p) = pointerFoot asHelmPolicyList (HelmPolicyList_foot gv) h p"
| "objectFoot gv h (TestPtr p) = pointerFoot asTest (Test_foot gv) h p"
| "objectFoot gv h (TestListPtr p) = pointerFoot asTestList (TestList_foot gv) h p"
| "objectFoot gv h (TestRunPtr p) = pointerFoot asTestRun (TestRun_foot gv) h p"
| "objectFoot gv h (TestRunListPtr p) = pointerFoot asTestRunList (TestRunList_foot gv) h p"
| "objectFoot gv h (TestSuitePtr p) = pointerFoot asTestSuite (TestSuite_foot gv) h p"
| "objectFoot gv h (TestSuiteListPtr p) = pointerFoot asTestSuiteList (TestSuiteList_foot gv) h p"

text \<open>
  The promise for \<open>DeepCopyObject\<close>: nil for nil; otherwise an object of its own with the same value,
  which no write to the memory of the original changes, nor the other way round.
\<close>

definition copied :: "'x LibraryViews \<Rightarrow> RuntimeObject \<Rightarrow> Value option \<Rightarrow> RuntimeObject option \<Rightarrow> 'x Cell Heap \<Rightarrow> bool" where
  "copied gv obj val r h' \<longleftrightarrow>
     (case r of
        None \<Rightarrow> val = None
      | Some c \<Rightarrow>
          val \<noteq> None \<and> objectView gv h' obj = Some val \<and> objectView gv h' c = Some val \<and>
          (\<forall>h''. sameOn (- objectFoot gv h' c) h' h'' \<longrightarrow> objectView gv h'' obj = Some val) \<and>
          (\<forall>h''. sameOn (- objectFoot gv h' obj) h' h'' \<longrightarrow> objectView gv h'' c = Some val))"

lemma copied_pointer:
  assumes copier: "deep_copier (deepCopy mk un copy) (pointerView un view) (pointerFoot un foot)"
    and v: "pointerView un view h p = Some b" and f: "pointerFoot un foot h p \<subseteq> allocated h"
    and r: "run_state (deepCopy mk un copy p) h = (q, h')"
    and views: "\<And>h p. objectView gv h (ptr p) = map_option (map_option val) (pointerView un view h p)"
    and foots: "\<And>h p. objectFoot gv h (ptr p) = pointerFoot un foot h p"
  shows "copied gv (ptr p) (map_option val b) (if q \<noteq> None then Some (ptr q) else None) h'"
proof -
  have "holds (pointerView un view) (pointerFoot un foot) h p b" using v f by (simp add: holds_def)
  note i = deep_copier.independent [OF copier this r]
  have "q = None \<longleftrightarrow> b = None"
    using i(2) by (cases q) (auto simp: holds_def pointerView_def bind_eq_Some_conv)
  then show ?thesis
    using i by (auto simp: copied_def views foots holds_def)
qed

lemma copied_HelmPolicy:
  assumes "librarySpec lib gv" and "objectView gv h (HelmPolicyPtr p) = Some w"
    and "objectFoot gv h (HelmPolicyPtr p) \<subseteq> allocated h"
    and "run_state (HelmPolicy_DeepCopyObject lib p) h = (r, h')"
  shows "copied gv (HelmPolicyPtr p) w r h'"
proof -
  obtain b where b: "pointerView asHelmPolicy (HelmPolicy_view gv) h p = Some b" "w = map_option HelmPolicyVal b"
    using assms(2) by auto
  obtain q where q: "run_state (HelmPolicy_DeepCopy lib p) h = (q, h')"
    "r = (if q \<noteq> None then Some (HelmPolicyPtr q) else None)"
    using assms(4) by (auto simp: HelmPolicy_DeepCopyObject_def split: prod.splits if_splits)
  show ?thesis
    using copied_pointer [OF deep_copier_pointer [OF cell_HelmPolicy.cell_type_axioms copier_HelmPolicy [OF assms(1)]] b(1)
      assms(3) [simplified] q(1) [unfolded HelmPolicy_DeepCopy_def], where gv = gv and ptr = HelmPolicyPtr and val = HelmPolicyVal] b(2) q(2)
    by simp
qed

lemma copied_HelmPolicyList:
  assumes "librarySpec lib gv" and "objectView gv h (HelmPolicyListPtr p) = Some w"
    and "objectFoot gv h (HelmPolicyListPtr p) \<subseteq> allocated h"
    and "run_state (HelmPolicyList_DeepCopyObject lib p) h = (r, h')"
  shows "copied gv (HelmPolicyListPtr p) w r h'"
proof -
  obtain b where b: "pointerView asHelmPolicyList (HelmPolicyList_view gv) h p = Some b" "w = map_option HelmPolicyListVal b"
    using assms(2) by auto
  obtain q where q: "run_state (HelmPolicyList_DeepCopy lib p) h = (q, h')"
    "r = (if q \<noteq> None then Some (HelmPolicyListPtr q) else None)"
    using assms(4) by (auto simp: HelmPolicyList_DeepCopyObject_def split: prod.splits if_splits)
  show ?thesis
    using copied_pointer [OF deep_copier_pointer [OF cell_HelmPolicyList.cell_type_axioms copier_HelmPolicyList [OF assms(1)]] b(1)
      assms(3) [simplified] q(1) [unfolded HelmPolicyList_DeepCopy_def], where gv = gv and ptr = HelmPolicyListPtr and val = HelmPolicyListVal] b(2) q(2)
    by simp
qed

lemma copied_Test:
  assumes "librarySpec lib gv" and "objectView gv h (TestPtr p) = Some w"
    and "objectFoot gv h (TestPtr p) \<subseteq> allocated h"
    and "run_state (Test_DeepCopyObject lib p) h = (r, h')"
  shows "copied gv (TestPtr p) w r h'"
proof -
  obtain b where b: "pointerView asTest (Test_view gv) h p = Some b" "w = map_option TestVal b"
    using assms(2) by auto
  obtain q where q: "run_state (Test_DeepCopy lib p) h = (q, h')"
    "r = (if q \<noteq> None then Some (TestPtr q) else None)"
    using assms(4) by (auto simp: Test_DeepCopyObject_def split: prod.splits if_splits)
  show ?thesis
    using copied_pointer [OF deep_copier_pointer [OF cell_Test.cell_type_axioms copier_Test [OF assms(1)]] b(1)
      assms(3) [simplified] q(1) [unfolded Test_DeepCopy_def], where gv = gv and ptr = TestPtr and val = TestVal] b(2) q(2)
    by simp
qed

lemma copied_TestList:
  assumes "librarySpec lib gv" and "objectView gv h (TestListPtr p) = Some w"
    and "objectFoot gv h (TestListPtr p) \<subseteq> allocated h"
    and "run_state (TestList_DeepCopyObject lib p) h = (r, h')"
  shows "copied gv (TestListPtr p) w r h'"
proof -
  obtain b where b: "pointerView asTestList (TestList_view gv) h p = Some b" "w = map_option TestListVal b"
    using assms(2) by auto
  obtain q where q: "run_state (TestList_DeepCopy lib p) h = (q, h')"
    "r = (if q \<noteq> None then Some (TestListPtr q) else None)"
    using assms(4) by (auto simp: TestList_DeepCopyObject_def split: prod.splits if_splits)
  show ?thesis
    using copied_pointer [OF deep_copier_pointer [OF cell_TestList.cell_type_axioms copier_TestList [OF assms(1)]] b(1)
      assms(3) [simplified] q(1) [unfolded TestList_DeepCopy_def], where gv = gv and ptr = TestListPtr and val = TestListVal] b(2) q(2)
    by simp
qed

lemma copied_TestRun:
  assumes "librarySpec lib gv" and "objectView gv h (TestRunPtr p) = Some w"
    and "objectFoot gv h (TestRunPtr p) \<subseteq> allocated h"
    and "run_state (TestRun_DeepCopyObject lib p) h = (r, h')"
  shows "copied gv (TestRunPtr p) w r h'"
proof -
  obtain b where b: "pointerView asTestRun (TestRun_view gv) h p = Some b" "w = map_option TestRunVal b"
    using assms(2) by auto
  obtain q where q: "run_state (TestRun_DeepCopy lib p) h = (q, h')"
    "r = (if q \<noteq> None then Some (TestRunPtr q) else None)"
    using assms(4) by (auto simp: TestRun_DeepCopyObject_def split: prod.splits if_splits)
  show ?thesis
    using copied_pointer [OF deep_copier_pointer [OF cell_TestRun.cell_type_axioms copier_TestRun [OF assms(1)]] b(1)
      assms(3) [simplified] q(1) [unfolded TestRun_DeepCopy_def], where gv = gv and ptr = TestRunPtr and val = TestRunVal] b(2) q(2)
    by simp
qed

lemma copied_TestRunList:
  assumes "librarySpec lib gv" and "objectView gv h (TestRunListPtr p) = Some w"
    and "objectFoot gv h (TestRunListPtr p) \<subseteq> allocated h"
    and "run_state (TestRunList_DeepCopyObject lib p) h = (r, h')"
  shows "copied gv (TestRunListPtr p) w r h'"
proof -
  obtain b where b: "pointerView asTestRunList (TestRunList_view gv) h p = Some b" "w = map_option TestRunListVal b"
    using assms(2) by auto
  obtain q where q: "run_state (TestRunList_DeepCopy lib p) h = (q, h')"
    "r = (if q \<noteq> None then Some (TestRunListPtr q) else None)"
    using assms(4) by (auto simp: TestRunList_DeepCopyObject_def split: prod.splits if_splits)
  show ?thesis
    using copied_pointer [OF deep_copier_pointer [OF cell_TestRunList.cell_type_axioms copier_TestRunList [OF assms(1)]] b(1)
      assms(3) [simplified] q(1) [unfolded TestRunList_DeepCopy_def], where gv = gv and ptr = TestRunListPtr and val = TestRunListVal] b(2) q(2)
    by simp
qed

lemma copied_TestSuite:
  assumes "librarySpec lib gv" and "objectView gv h (TestSuitePtr p) = Some w"
    and "objectFoot gv h (TestSuitePtr p) \<subseteq> allocated h"
    and "run_state (TestSuite_DeepCopyObject lib p) h = (r, h')"
  shows "copied gv (TestSuitePtr p) w r h'"
proof -
  obtain b where b: "pointerView asTestSuite (TestSuite_view gv) h p = Some b" "w = map_option TestSuiteVal b"
    using assms(2) by auto
  obtain q where q: "run_state (TestSuite_DeepCopy lib p) h = (q, h')"
    "r = (if q \<noteq> None then Some (TestSuitePtr q) else None)"
    using assms(4) by (auto simp: TestSuite_DeepCopyObject_def split: prod.splits if_splits)
  show ?thesis
    using copied_pointer [OF deep_copier_pointer [OF cell_TestSuite.cell_type_axioms copier_TestSuite [OF assms(1)]] b(1)
      assms(3) [simplified] q(1) [unfolded TestSuite_DeepCopy_def], where gv = gv and ptr = TestSuitePtr and val = TestSuiteVal] b(2) q(2)
    by simp
qed

lemma copied_TestSuiteList:
  assumes "librarySpec lib gv" and "objectView gv h (TestSuiteListPtr p) = Some w"
    and "objectFoot gv h (TestSuiteListPtr p) \<subseteq> allocated h"
    and "run_state (TestSuiteList_DeepCopyObject lib p) h = (r, h')"
  shows "copied gv (TestSuiteListPtr p) w r h'"
proof -
  obtain b where b: "pointerView asTestSuiteList (TestSuiteList_view gv) h p = Some b" "w = map_option TestSuiteListVal b"
    using assms(2) by auto
  obtain q where q: "run_state (TestSuiteList_DeepCopy lib p) h = (q, h')"
    "r = (if q \<noteq> None then Some (TestSuiteListPtr q) else None)"
    using assms(4) by (auto simp: TestSuiteList_DeepCopyObject_def split: prod.splits if_splits)
  show ?thesis
    using copied_pointer [OF deep_copier_pointer [OF cell_TestSuiteList.cell_type_axioms copier_TestSuiteList [OF assms(1)]] b(1)
      assms(3) [simplified] q(1) [unfolded TestSuiteList_DeepCopy_def], where gv = gv and ptr = TestSuiteListPtr and val = TestSuiteListVal] b(2) q(2)
    by simp
qed
section \<open>The types that need no library\<close>

lemma deep_copier_assign:
  assumes "\<And>x. copy x = State_Monad.return x"
  shows "deep_copier copy flatView flatFoot"
proof -
  have "copy = State_Monad.return" using assms by (rule ext)
  then show ?thesis by (simp add: deep_copier_flat)
qed

lemma copier_flat:
  "deep_copier TestResult_DeepCopyInto flatView flatFoot"
  "deep_copier TestSuiteHelmSetUp_DeepCopyInto flatView flatFoot"
  "deep_copier TestSuiteHelmTrigger_DeepCopyInto flatView flatFoot"
  "deep_copier TestSuiteSetUp_DeepCopyInto flatView flatFoot"
  "deep_copier TestSuiteTrigger_DeepCopyInto flatView flatFoot"
  "deep_copier TestSuiteTriggers_DeepCopyInto flatView flatFoot"
  by (rule deep_copier_assign; simp add: TestResult_DeepCopyInto_def TestSuiteHelmSetUp_DeepCopyInto_def
      TestSuiteHelmTrigger_DeepCopyInto_def TestSuiteSetUp_DeepCopyInto_def
      TestSuiteTrigger_DeepCopyInto_def TestSuiteTriggers_DeepCopyInto_def)+

interpretation policy_spec: deep_copier HelmPolicySpec_DeepCopy
    "pointerView asHelmPolicySpec HelmPolicySpec_view" "pointerFoot asHelmPolicySpec HelmPolicySpec_foot"
  unfolding HelmPolicySpec_DeepCopy_def
  by (rule deep_copier_pointer [OF cell_HelmPolicySpec.cell_type_axioms copier_HelmPolicySpec])

interpretation test_result: deep_copier TestResult_DeepCopy
    "pointerView asTestResult flatView" "pointerFoot asTestResult flatFoot"
  unfolding TestResult_DeepCopy_def
  by (rule deep_copier_pointer [OF cell_TestResult.cell_type_axioms copier_flat(1)])

interpretation suite_set_up: deep_copier TestSuiteSetUp_DeepCopy
    "pointerView asTestSuiteSetUp flatView" "pointerFoot asTestSuiteSetUp flatFoot"
  unfolding TestSuiteSetUp_DeepCopy_def
  by (rule deep_copier_pointer [OF cell_TestSuiteSetUp.cell_type_axioms copier_flat(4)])

section \<open>The property\<close>

text \<open>
  C13. A deep copy of an object of the API is an object of its own with the same value. Writing to the
  original, to its slices, maps and pointers included, does not change the copy, and writing to the
  copy does not change the original, which is what a patch from \<open>orig := obj.DeepCopy()\<close> to the
  modified \<open>obj\<close> needs. The copy of a nil pointer is the nil interface.
\<close>

theorem deep_copies_independent:
  assumes "librarySpec lib gv" and "objectView gv h obj = Some val"
    and "objectFoot gv h obj \<subseteq> allocated h"
    and "run_state (DeepCopyObject lib obj) h = (r, h')"
  shows "copied gv obj val r h'"
  using assms
  by (cases obj) (simp_all del: objectView.simps objectFoot.simps
      add: copied_HelmPolicy copied_HelmPolicyList copied_Test copied_TestList copied_TestRun
        copied_TestRunList copied_TestSuite copied_TestSuiteList)

text \<open>
  A library for evaluation: a value holds a slice of finalizers, which its copier copies; a \<open>range\<close>
  goes over a map from its end.
\<close>

record KubernetesValue =
  kvMeta :: ObjectMeta
  kvListMeta :: ListMeta
  kvTemplate :: PodTemplateSpec
  kvCondition :: Condition
  kvTime :: Time
  kvFinalizers :: Slice

definition KubernetesValue_DeepCopyInto :: "KubernetesValue \<Rightarrow> (KubernetesValue Cell, KubernetesValue) go" where
  "KubernetesValue_DeepCopyInto x = do {
     fs \<leftarrow> copyFlat StringCell asString (kvFinalizers x);
     State_Monad.return (x\<lparr>kvFinalizers := fs\<rparr>) }"

definition kvView :: "(KubernetesValue \<Rightarrow> string list \<Rightarrow> 'a) \<Rightarrow> KubernetesValue Cell Heap \<Rightarrow> KubernetesValue \<Rightarrow> 'a option" where
  "kvView build h x = map_option (build x) (sliceView asString flatView h (kvFinalizers x))"

definition kvFoot :: "KubernetesValue Cell Heap \<Rightarrow> KubernetesValue \<Rightarrow> addr set" where
  "kvFoot h x = sliceFoot asString flatFoot h (kvFinalizers x)"

definition kvLibrary :: "KubernetesValue Library" where
  "kvLibrary = \<lparr>ObjectMeta_DeepCopyInto = KubernetesValue_DeepCopyInto,
     ListMeta_DeepCopyInto = KubernetesValue_DeepCopyInto,
     PodTemplateSpec_DeepCopyInto = KubernetesValue_DeepCopyInto,
     Condition_DeepCopyInto = KubernetesValue_DeepCopyInto,
     Time_DeepCopy = KubernetesValue_DeepCopyInto, rangeOrder = rev\<rparr>"

definition kvViews :: "KubernetesValue LibraryViews" where
  "kvViews = \<lparr>metaView = kvView (\<lambda>x fs. (kvMeta x)\<lparr>Finalizers := fs\<rparr>), metaFoot = kvFoot,
     listMetaView = kvView (\<lambda>x fs. kvListMeta x), listMetaFoot = kvFoot,
     templateView = kvView (\<lambda>x fs. kvTemplate x), templateFoot = kvFoot,
     conditionView = kvView (\<lambda>x fs. kvCondition x), conditionFoot = kvFoot,
     timeView = kvView (\<lambda>x fs. kvTime x), timeFoot = kvFoot\<rparr>"

lemma copier_KubernetesValue:
  assumes "\<And>x s fs. build (x\<lparr>kvFinalizers := s\<rparr>) fs = build x fs"
  shows "deep_copier KubernetesValue_DeepCopyInto (kvView build) kvFoot"
  by (rule deep_copier_struct [OF deep_copier_slice [OF cell_String.cell_type_axioms deep_copier_flat],
        where get = kvFinalizers and put = "\<lambda>s x. x\<lparr>kvFinalizers := s\<rparr>" and build = build])
    (simp_all add: KubernetesValue_DeepCopyInto_def kvView_def kvFoot_def copyFlat_slice assms)

lemma kvLibrary_spec: "librarySpec kvLibrary kvViews"
  unfolding librarySpec_def kvLibrary_def kvViews_def rangesAll_def
  by (simp add: copier_KubernetesValue)

definition sampleValue :: KubernetesValue where
  "sampleValue = \<lparr>kvMeta = emptyMeta\<lparr>Name := ''test''\<rparr>, kvListMeta = \<lparr>lmResourceVersion = '''', lmContinue = ''''\<rparr>,
     kvTemplate = \<lparr>ptMeta = emptyMeta, ptSpec = \<lparr>RestartPolicy = '''', Containers = []\<rparr>\<rparr>,
     kvCondition = newCondition ''Ready'' ConditionTrue 1 ''Done'' '''', kvTime = 0, kvFinalizers = NilSlice\<rparr>"

definition sampleHeap :: "KubernetesValue Cell Heap" where
  "sampleHeap = \<lparr>nextAddr = 4, cells = [
     0 \<mapsto> TestCell [\<lparr>tTypeMeta = \<lparr>tmAPIVersion = ''v1'', tmKind = ''Test''\<rparr>,
            tMeta = sampleValue\<lparr>kvFinalizers := SliceOf 3 0 1\<rparr>,
            tSpec = \<lparr>tsmRetentionPolicy = '''', tsmTemplate = sampleValue\<rparr>,
            tStatus = \<lparr>tstmConditions = SliceOf 1 0 1, tstmPhase = TestPassed, tstmMessages = Some 2\<rparr>\<rparr>],
     1 \<mapsto> KubernetesCell [sampleValue],
     2 \<mapsto> EntriesCell [(''a'', ''x''), (''b'', ''y'')],
     3 \<mapsto> StringCell [''finalizer'']]\<rparr>"

definition sampleObject :: RuntimeObject where
  "sampleObject = TestPtr (Some \<lparr>ptrArray = 0, ptrIndex = 0\<rparr>)"

lemmas deep_copy_views = Test_view_def TestSpec_view_def TestStatus_view_def kvViews_def kvView_def
  pairView_def pointerView_def pointee_def arrayAt_def sliceView_def mapView_def flatView_def
  asTest_def asKubernetes_def asString_def asEntries_def

lemmas deep_copy_feet = Test_foot_def TestSpec_foot_def TestStatus_foot_def kvViews_def kvFoot_def
  pairFoot_def pointerFoot_def pointee_def arrayAt_def sliceFoot_def mapFoot_def flatFoot_def
  asTest_def asKubernetes_def asString_def asEntries_def

theorem deep_copies_independent_witness:
  "\<exists>val r h'. objectView kvViews sampleHeap sampleObject = Some (Some (TestVal val)) \<and>
     tstMessages (test_Status val) = Some [''b'' \<mapsto> ''y'', ''a'' \<mapsto> ''x''] \<and>
     run_state (DeepCopyObject kvLibrary sampleObject) sampleHeap = (r, h') \<and>
     copied kvViews sampleObject (Some (TestVal val)) r h'"
proof -
  obtain val where val: "objectView kvViews sampleHeap sampleObject = Some (Some (TestVal val))"
    "tstMessages (test_Status val) = Some [''b'' \<mapsto> ''y'', ''a'' \<mapsto> ''x'']"
    by (simp add: sampleObject_def sampleHeap_def sampleValue_def deep_copy_views)
  have foot: "objectFoot kvViews sampleHeap sampleObject \<subseteq> allocated sampleHeap"
    by (simp add: sampleObject_def sampleHeap_def sampleValue_def deep_copy_feet allocated_def)
  obtain r h' where r: "run_state (DeepCopyObject kvLibrary sampleObject) sampleHeap = (r, h')" by fastforce
  show ?thesis
    using val r deep_copies_independent [OF kvLibrary_spec val(1) foot r] by blast
qed

end
