(* ===== verification/Helm_Watcher.thy ===== *)
theory Helm_Watcher
  imports TestSuite_Controller
begin

text \<open>
  src/controllers/helmrelease_watcher.go: the predicate that picks Helm's release secrets and the
  handler that enqueues the test suites subscribed to a release.

  For the namespaces a policy exports to, the handler starts a goroutine that lists the suites
  and sends their requests over an unbuffered channel, which the handler empties into the queue.
  The two run concurrently. They are modelled twice: as one sequence of calls, in the definition
  of the handler, and as a step relation with every interleaving, which the theorems show to
  enqueue the same requests in the same order and never to get stuck.
\<close>

section \<open>The predicate\<close>

definition isHelmRelease :: "Object \<Rightarrow> bool" where
  "isHelmRelease rawObj =
     (case rawObj of SecretObj secret \<Rightarrow> secret_Type secret = HelmSecretType | _ \<Rightarrow> False)"

datatype WatchEvent =
    CreateEvent Object
  | UpdateEvent Object Object \<comment> \<open>the old and the new object\<close>
  | DeleteEvent Object
  | GenericEvent Object

fun IsHelmRelease :: "WatchEvent \<Rightarrow> bool" where
  "IsHelmRelease (CreateEvent obj) = isHelmRelease obj"
| "IsHelmRelease (DeleteEvent obj) = isHelmRelease obj"
| "IsHelmRelease (UpdateEvent old new) = isHelmRelease new"
| "IsHelmRelease (GenericEvent obj) = isHelmRelease obj"

section \<open>The handler\<close>

definition AddRateLimited :: "NamespacedName \<Rightarrow> ('w Env, unit) state" where
  "AddRateLimited req = logCall (EnqueueCall req)"

definition requestOf :: "TestSuite \<Rightarrow> NamespacedName" where
  "requestOf ts = \<lparr>nnNamespace = Namespace (Meta ts), nnName = Name (Meta ts)\<rparr>"

fun enqueueAll :: "NamespacedName list \<Rightarrow> ('w Env, unit) state" where
  "enqueueAll [] = ret ()"
| "enqueueAll (req # reqs) = do { AddRateLimited req; enqueueAll reqs }"

definition releaseLabelMatcher :: "HelmReleaseMeta \<Rightarrow> ListOption" where
  "releaseLabelMatcher release =
     MatchingLabels [(TestSuiteHelmTriggerLabel, HelmReleaseMeta_LabelValue (Some release))]"

text \<open>
  The lists the goroutine asks for: all other namespaces when the policy exports to the one entry
  \<^verbatim>\<open>*\<close>, the exported namespaces one by one otherwise.
\<close>

definition exportLists :: "HelmReleaseMeta \<Rightarrow> HelmPolicy \<Rightarrow> ListOption list list" where
  "exportLists release policy =
     (if ExportTo (policy_Spec policy) = [''*'']
      then [[MatchingFieldsSelector (''metadata.namespace!='' @ hrNamespace release), releaseLabelMatcher release]]
      else map (\<lambda>ns. [InNamespace ns, releaseLabelMatcher release]) (ExportTo (policy_Spec policy)))"

text \<open>The goroutine and the loop over its channel; an error of a list ends the goroutine.\<close>

fun forwardExports ::
  "'w Client \<Rightarrow> ListOption list list \<Rightarrow> ('w Env, unit) state" where
  "forwardExports c [] = ret ()"
| "forwardExports c (opts # optss) = do {
     listed \<leftarrow> ListObjs (TestSuites c) opts;
     (case listed of
        Inl e \<Rightarrow> ret ()
      | Inr suites \<Rightarrow> do {
          enqueueAll (map requestOf suites);
          forwardExports c optss
        })
   }"

text \<open>
  The handler of a secret. The type assertion \<open>obj.(*v1.Secret)\<close> panics on an object of another
  kind: \<open>None\<close>.
\<close>

definition EnqueueForHelmTrigger_handle :: "'w Client \<Rightarrow> Object \<Rightarrow> ('w Env, unit option) state" where
  "EnqueueForHelmTrigger_handle c obj =
     (case obj of
        SecretObj secret \<Rightarrow>
          (case parsedRelease secret of
             None \<Rightarrow> ret (Some ())
           | Some release \<Rightarrow> do {
               listed \<leftarrow> ListObjs (TestSuites c)
                 [InNamespace (hrNamespace release), releaseLabelMatcher release];
               (case listed of
                  Inl e \<Rightarrow> ret (Some ())
                | Inr suites \<Rightarrow> do {
                    enqueueAll (map requestOf suites);
                    got \<leftarrow> Get (HelmPolicies c)
                      \<lparr>nnNamespace = hrNamespace release, nnName = hrName release\<rparr>;
                    (case got of
                       Inl e \<Rightarrow> ret (Some ())
                     | Inr policy \<Rightarrow> do {
                         forwardExports c (exportLists release policy);
                         ret (Some ())
                       })
                  })
             })
      | _ \<Rightarrow> ret None)"

text \<open>The dispatch on events: only a creation is handled.\<close>

definition EnqueueForHelmTrigger :: "'w Client \<Rightarrow> WatchEvent \<Rightarrow> ('w Env, unit option) state" where
  "EnqueueForHelmTrigger c e =
     (case e of CreateEvent obj \<Rightarrow> EnqueueForHelmTrigger_handle c obj | _ \<Rightarrow> ret (Some ()))"

section \<open>What is enqueued\<close>

fun enqueued :: "Call list \<Rightarrow> NamespacedName list" where
  "enqueued [] = []"
| "enqueued (call # cs) = (case call of EnqueueCall req \<Rightarrow> req # enqueued cs | _ \<Rightarrow> enqueued cs)"

lemma enqueued_append [simp]: "enqueued (cs @ ds) = enqueued cs @ enqueued ds"
  by (induction cs) (auto split: Call.splits)

text \<open>
  The requests for suites, and those of the goroutine in the order it sends them, from a cluster: a
  function of what the lists answer.
\<close>

definition requestsFor :: "TestSuite list \<Rightarrow> NamespacedName list" where
  "requestsFor suites = map (\<lambda>ts. \<lparr>nnNamespace = Namespace (Meta ts), nnName = Name (Meta ts)\<rparr>) suites"

lemma map_requestOf: "map requestOf suites = requestsFor suites"
  by (simp add: requestsFor_def requestOf_def [abs_def])

fun exportRequests :: "'w Client \<Rightarrow> ListOption list list \<Rightarrow> 'w \<Rightarrow> NamespacedName list" where
  "exportRequests c [] w = []"
| "exportRequests c (opts # optss) w =
     (case doList (TestSuites c) opts w of
        (Inl e, w') \<Rightarrow> []
      | (Inr suites, w') \<Rightarrow> requestsFor suites @ exportRequests c optss w')"

lemma run_enqueueAll [simp]:
  "run_state (enqueueAll reqs) s = ((), s\<lparr>trace := trace s @ map EnqueueCall reqs\<rparr>)"
  by (induction reqs arbitrary: s) (simp_all add: AddRateLimited_def)

lemma enqueued_map [simp]: "enqueued (map EnqueueCall reqs) = reqs"
  by (induction reqs) simp_all

lemma forwardExports_enqueues:
  "enqueued (trace (snd (run_state (forwardExports c optss) s)))
     = enqueued (trace s) @ exportRequests c optss (cluster s)"
  by (induction optss arbitrary: s) (auto simp: ListObjs_def map_requestOf simp del: map_map split: prod.split sum.split)

section \<open>The goroutine and its channel\<close>

text \<open>
  The goroutine has lists to ask for and requests to send, or has closed the channel; the handler
  has received a request that is not in the queue yet, or waits for one.
\<close>

record 'w Exchange =
  todo :: "ListOption list list"
  toSend :: "NamespacedName list"
  closed :: bool
  received :: "NamespacedName option"
  queue :: "NamespacedName list"
  world :: 'w

inductive exchange :: "'w Client \<Rightarrow> 'w Exchange \<Rightarrow> 'w Exchange \<Rightarrow> bool" for c where
  list_suites: "exchange c s (s\<lparr>todo := optss, toSend := map requestOf suites, world := w\<rparr>)"
    if "\<not> closed s" "toSend s = []" "todo s = opts # optss"
      "doList (TestSuites c) opts (world s) = (Inr suites, w)"
| list_error: "exchange c s (s\<lparr>closed := True, world := w\<rparr>)"
    if "\<not> closed s" "toSend s = []" "todo s = opts # optss"
      "doList (TestSuites c) opts (world s) = (Inl e, w)"
| close_channel: "exchange c s (s\<lparr>closed := True\<rparr>)"
    if "\<not> closed s" "toSend s = []" "todo s = []"
| rendezvous: "exchange c s (s\<lparr>toSend := reqs, received := Some req\<rparr>)"
    if "\<not> closed s" "toSend s = req # reqs" "received s = None"
| enqueue: "exchange c s (s\<lparr>received := None, queue := queue s @ [req]\<rparr>)"
    if "received s = Some req"

inductive_cases exchangeE: "exchange c s t"

text \<open>The handler leaves its loop when the channel is closed.\<close>

definition exchanged :: "'w Exchange \<Rightarrow> bool" where
  "exchanged s \<longleftrightarrow> closed s \<and> received s = None"

definition startExchange :: "ListOption list list \<Rightarrow> NamespacedName list \<Rightarrow> 'w \<Rightarrow> 'w Exchange" where
  "startExchange optss q w = \<lparr>todo = optss, toSend = [], closed = False, received = None, queue = q, world = w\<rparr>"

text \<open>What is in the queue, in the hands of the handler, waiting to be sent, and still to be listed.\<close>

definition inFlight :: "'w Client \<Rightarrow> 'w Exchange \<Rightarrow> NamespacedName list" where
  "inFlight c s =
     queue s @ (case received s of None \<Rightarrow> [] | Some req \<Rightarrow> [req]) @
     (if closed s then [] else toSend s @ exportRequests c (todo s) (world s))"

lemma exchange_inFlight: "exchange c s t \<Longrightarrow> inFlight c t = inFlight c s"
  by (cases rule: exchange.cases, assumption) (auto simp: inFlight_def map_requestOf split: option.split)

lemma exchanges_inFlight: "(exchange c)\<^sup>*\<^sup>* s t \<Longrightarrow> inFlight c t = inFlight c s"
  by (induction rule: rtranclp_induct) (auto simp: exchange_inFlight)

lemma exchange_progress: "(\<exists>t. exchange c s t) \<longleftrightarrow> \<not> exchanged s"
proof
  assume "\<exists>t. exchange c s t"
  then show "\<not> exchanged s" by (auto simp: exchanged_def elim: exchangeE)
next
  assume open': "\<not> exchanged s"
  show "\<exists>t. exchange c s t"
  proof (cases "received s")
    case (Some req)
    then show ?thesis by (blast intro: enqueue)
  next
    case None
    with open' have "\<not> closed s" by (simp add: exchanged_def)
    show ?thesis
    proof (cases "toSend s")
      case (Cons req reqs)
      with None \<open>\<not> closed s\<close> show ?thesis by (blast intro: rendezvous)
    next
      case Nil
      with \<open>\<not> closed s\<close> show ?thesis
        by (cases "todo s"; cases "doList (TestSuites c) (hd (todo s)) (world s)";
            cases "fst (doList (TestSuites c) (hd (todo s)) (world s))")
           (auto intro: list_suites list_error close_channel)
    qed
  qed
qed

definition exchangeMeasure :: "'w Exchange \<Rightarrow> nat \<times> nat" where
  "exchangeMeasure s =
     (length (todo s) + (if closed s then 0 else 1),
      2 * length (toSend s) + (case received s of None \<Rightarrow> 0 | Some _ \<Rightarrow> 1))"

lemma exchange_wf: "wf {(t, s). exchange c s t}"
proof (rule wf_subset)
  show "wf (inv_image (less_than <*lex*> less_than) exchangeMeasure)" by blast
  show "{(t, s). exchange c s t} \<subseteq> inv_image (less_than <*lex*> less_than) exchangeMeasure"
    by (auto simp: exchangeMeasure_def elim!: exchangeE)
qed

lemma exchange_ends: "\<exists>t. (exchange c)\<^sup>*\<^sup>* s t \<and> exchanged t"
proof (induction s rule: wf_induct_rule [OF exchange_wf [of c]])
  case (1 s)
  show ?case
  proof (cases "exchanged s")
    case False
    then obtain t where "exchange c s t" using exchange_progress by blast
    with 1 show ?thesis by (blast intro: converse_rtranclp_into_rtranclp)
  qed blast
qed

section \<open>Properties\<close>

text \<open>
  C18. Whatever the interleaving of the goroutine with the loop over its channel, when the loop ends
  the queue has received exactly the requests, in the order, of the sequential handler.
\<close>

theorem watcher_interleaving:
  assumes "(exchange c)\<^sup>*\<^sup>* (startExchange optss [] w) s" and "exchanged s"
  shows "queue s = enqueued (callsOf (forwardExports c optss) w)"
proof -
  have "inFlight c s = inFlight c (startExchange optss [] w)"
    using assms(1) by (rule exchanges_inFlight)
  then have "queue s = exportRequests c optss w"
    using assms(2) by (simp add: inFlight_def exchanged_def startExchange_def)
  then show ?thesis by (simp add: callsOf_def forwardExports_enqueues)
qed

theorem watcher_interleaving_witness:
  "let c = staticClient\<lparr>TestSuites := staticResource ''TestSuite'' None [sampleSuite TestSuiteReady '''' ''app'']\<rparr>
   in \<exists>s. (exchange c)\<^sup>*\<^sup>* (startExchange [[InNamespace ''ns'']] [] ()) s \<and> queue s = [\<lparr>nnNamespace = ''ns'', nnName = ''suite''\<rparr>]"
proof -
  let ?c = "staticClient\<lparr>TestSuites := staticResource ''TestSuite'' None [sampleSuite TestSuiteReady '''' ''app'']\<rparr>"
  obtain s where s: "(exchange ?c)\<^sup>*\<^sup>* (startExchange [[InNamespace ''ns'']] [] ()) s" "exchanged s"
    using exchange_ends by blast
  from watcher_interleaving [OF s] s(1) show ?thesis
    by (auto simp: callsOf_def go_defs requestOf_def AddRateLimited_def Let_def)
qed

text \<open>
  C19. The exchange never gets stuck and always ends: a state has a next step exactly when the loop
  has not ended, and no sequence of steps goes on forever.
\<close>

theorem watcher_terminates:
  "((\<exists>t. exchange c s t) \<longleftrightarrow> \<not> exchanged s) \<and> wf {(t, s). exchange c s t}"
  using exchange_progress exchange_wf by blast

text \<open>
  C20. For a secret that holds a release, the handler enqueues the suites of the namespace of the
  release that have its label, \<open>name.namespace\<close>, and then, with a policy named like the release, those
  with the label in the namespaces the policy exports to, one after the other, or in all other
  namespaces when it exports to \<^verbatim>\<open>*\<close> alone; with no policy, or on an error, nothing more.
\<close>

theorem watcher_enqueues:
  fixes release :: HelmReleaseMeta
  defines "matcher \<equiv> MatchingLabels [(TestSuiteHelmTriggerLabel,
    if hrNamespace release = '''' then hrName release else hrName release @ ''.'' @ hrNamespace release)]"
  assumes "parsedRelease secret = Some release"
    and "doList (TestSuites c) [InNamespace (hrNamespace release), matcher] w = (Inr suites, w\<^sub>1)"
    and "doGet (HelmPolicies c) \<lparr>nnNamespace = hrNamespace release, nnName = hrName release\<rparr> w\<^sub>1 = (got, w\<^sub>2)"
  shows "enqueued (callsOf (EnqueueForHelmTrigger c (CreateEvent (SecretObj secret))) w) =
    requestsFor suites @
    (case got of
       Inl e \<Rightarrow> []
     | Inr policy \<Rightarrow>
         exportRequests c
           (if ExportTo (policy_Spec policy) = [''*'']
            then [[MatchingFieldsSelector (''metadata.namespace!='' @ hrNamespace release), matcher]]
            else map (\<lambda>ns. [InNamespace ns, matcher]) (ExportTo (policy_Spec policy))) w\<^sub>2)"
proof -
  have matcher: "releaseLabelMatcher release = matcher"
    by (simp add: matcher_def releaseLabelMatcher_def HelmReleaseMeta_LabelValue_def)
  show ?thesis
    using assms(2-)
    by (cases got)
       (simp_all add: EnqueueForHelmTrigger_def EnqueueForHelmTrigger_handle_def callsOf_def Get_def matcher
         ListObjs_def forwardExports_enqueues exportLists_def map_requestOf case_prod_unfold del: map_map)
qed

text \<open>A client with a suite in every namespace it is asked for, and with one in another namespace.\<close>

definition suiteIn :: "string \<Rightarrow> TestSuite" where
  "suiteIn ns = (sampleSuite TestSuiteReady '''' ''app.ns'')\<lparr>Meta := emptyMeta\<lparr>Name := ''suite'', Namespace := ns\<rparr>\<rparr>"

definition exportingClient :: "string list option \<Rightarrow> unit Client" where
  "exportingClient exports =
     staticClient
       \<lparr>TestSuites := (staticResource ''TestSuite'' None [])
          \<lparr>doList := (\<lambda>opts w. (Inr [suiteIn (case hd opts of InNamespace ns \<Rightarrow> ns | _ \<Rightarrow> ''far'')], w))\<rparr>,
        HelmPolicies := staticResource ''HelmPolicy''
          (map_option (\<lambda>to. \<lparr>APIVersion = GroupVersion, Kind = ''HelmPolicy'', Meta = emptyMeta,
             policy_Spec = \<lparr>ExportTo = to\<rparr>\<rparr>) exports) []\<rparr>"

theorem watcher_enqueues_witness:
  "let got = (\<lambda>exports. map nnNamespace (enqueued (callsOf (EnqueueForHelmTrigger (exportingClient exports)
         (CreateEvent (SecretObj (sampleSecret ''ns'' ''app'' (Itoa 1))))) ())))
   in got None = [''ns''] \<and> got (Some [''a'', ''b'']) = [''ns'', ''a'', ''b''] \<and> got (Some [''*'']) = [''ns'', ''far'']"
proof -
  let ?h = "\<lparr>hrNamespace = ''ns'', hrName = ''app'', hrVersion = 1, hrVersionString = Itoa 1, hrStatus = ''deployed''\<rparr>"
  let ?policy = "\<lambda>to. \<lparr>APIVersion = GroupVersion, Kind = ''HelmPolicy'', Meta = emptyMeta, policy_Spec = \<lparr>ExportTo = to\<rparr>\<rparr>"
  have "Atoi (Itoa 1) = Some 1" by (rule Atoi_Itoa) simp_all
  then have parsed: "parsedRelease (sampleSecret ''ns'' ''app'' (Itoa 1)) = Some ?h"
    by (simp add: parsedRelease_Some_iff sampleSecret_simps)
  have lists: "doList (TestSuites (exportingClient exports)) (InNamespace ns # opts) () = (Inr [suiteIn ns], ())"
    "doList (TestSuites (exportingClient exports)) (MatchingFieldsSelector sel # opts) () = (Inr [suiteIn ''far''], ())"
    "doGet (HelmPolicies (exportingClient exports)) key () =
       (case exports of None \<Rightarrow> Inl notFound | Some to \<Rightarrow> Inr (?policy to), ())" for exports ns opts sel key
    by (simp_all add: exportingClient_def split: option.split)
  have ns: "Namespace (Meta (suiteIn n)) = n" for n by (simp add: suiteIn_def)
  have got: "map nnNamespace (enqueued (callsOf (EnqueueForHelmTrigger (exportingClient exports)
         (CreateEvent (SecretObj (sampleSecret ''ns'' ''app'' (Itoa 1))))) ())) =
      ''ns'' # (case exports of None \<Rightarrow> [] | Some to \<Rightarrow> (if to = [''*''] then [''far''] else to))" for exports
  proof -
    have each: "map nnNamespace (exportRequests (exportingClient ex) (map (\<lambda>ns. [InNamespace ns, m]) to) ()) = to"
      for ex to m by (induction to) (simp_all add: lists requestsFor_def ns)
    show ?thesis
      by (subst watcher_enqueues [OF parsed, where suites = "[suiteIn ''ns'']" and w\<^sub>1 = "()" and w\<^sub>2 = "()"
            and got = "case exports of None \<Rightarrow> Inl notFound | Some to \<Rightarrow> Inr (?policy to)"])
         (simp_all add: lists requestsFor_def ns each split: option.split)
  qed
  show ?thesis by (simp add: got)
qed

end
