(* ===== verification/Rbac.thy ===== *)
theory Rbac
  imports Helm_Watcher
begin

text \<open>
  The permissions of the operator: the markers \<^verbatim>\<open>+kubebuilder:rbac\<close> above each \<open>Reconcile\<close> method,
  from which the role of the operator's one service account is generated, and the requests that
  the calls of the reconcilers and of the watcher make to the API server. The theorem puts the two
  together: every request but one kind is covered by a marker.
\<close>

section \<open>Rules\<close>

record Rule =
  ruleGroup :: string
  ruleResources :: "string list"
  ruleVerbs :: "string list"

definition rule :: "string \<Rightarrow> string list \<Rightarrow> string list \<Rightarrow> Rule" where
  "rule g rs vs = \<lparr>ruleGroup = g, ruleResources = rs, ruleVerbs = vs\<rparr>"

definition readVerbs :: "string list" where
  "readVerbs = [''get'', ''list'', ''watch'']"

definition writeVerbs :: "string list" where
  "writeVerbs = [''create'', ''update'', ''patch'', ''delete'']"

definition testControllerRules :: "Rule list" where
  "testControllerRules =
     [rule GroupName [''tests''] readVerbs,
      rule GroupName [''tests/status''] [''get'', ''patch''],
      rule '''' [''pods''] (readVerbs @ writeVerbs),
      rule '''' [''pods/status''] [''get''],
      rule '''' [''events''] [''create'', ''patch'']]"

definition testRunControllerRules :: "Rule list" where
  "testRunControllerRules =
     [rule GroupName [''testruns''] (readVerbs @ [''patch'']),
      rule GroupName [''testruns/status''] [''get'', ''patch''],
      rule GroupName [''tests''] (readVerbs @ writeVerbs),
      rule '''' [''events''] [''create'', ''patch'']]"

definition testSuiteControllerRules :: "Rule list" where
  "testSuiteControllerRules =
     [rule GroupName [''testsuites''] (readVerbs @ [''patch'']),
      rule GroupName [''testsuites/trigger'', ''testsuites/status''] [''get'', ''patch''],
      rule GroupName [''testruns''] (readVerbs @ writeVerbs),
      rule '''' [''events''] [''create'', ''patch''],
      rule '''' [''secrets''] readVerbs]"

definition managerRole :: "Rule list" where
  "managerRole = testControllerRules @ testRunControllerRules @ testSuiteControllerRules"

definition allows :: "Rule list \<Rightarrow> string \<times> string \<times> string \<Rightarrow> bool" where
  "allows rules req = (case req of (g, res, verb) \<Rightarrow>
     list_ex (\<lambda>ru. ruleGroup ru = g \<and> List.member (ruleResources ru) res \<and>
       List.member (ruleVerbs ru) verb) rules)"

section \<open>Requests\<close>

text \<open>The kind of an object, and the group and the plural name of the resource of a kind.\<close>

definition kindOf :: "Object \<Rightarrow> string" where
  "kindOf obj = (case obj of
      PodObj _ \<Rightarrow> ''Pod'' | TestObj _ \<Rightarrow> ''Test'' | TestRunObj _ \<Rightarrow> ''TestRun''
    | TestSuiteObj _ \<Rightarrow> ''TestSuite'' | HelmPolicyObj _ \<Rightarrow> ''HelmPolicy'' | SecretObj _ \<Rightarrow> ''Secret'')"

definition resourceOf :: "string \<Rightarrow> string \<times> string" where
  "resourceOf k =
     (if k = ''Pod'' then ('''', ''pods'') else if k = ''Secret'' then ('''', ''secrets'')
      else if k = ''Test'' then (GroupName, ''tests'')
      else if k = ''TestRun'' then (GroupName, ''testruns'')
      else if k = ''TestSuite'' then (GroupName, ''testsuites'')
      else (GroupName, ''helmpolicies''))"

definition requestFor :: "string \<Rightarrow> string \<Rightarrow> string \<Rightarrow> string \<times> string \<times> string" where
  "requestFor k sub verb = (case resourceOf k of (g, res) \<Rightarrow> (g, res @ sub, verb))"

text \<open>What a call asks of the API server; metrics and the queue ask nothing. The two objects of a patch
  are versions of one object.\<close>

definition apiRequest :: "Call \<Rightarrow> (string \<times> string \<times> string) option" where
  "apiRequest call = (case call of
      GetCall k key \<Rightarrow> Some (requestFor k '''' ''get'')
    | ListCall k opts \<Rightarrow> Some (requestFor k '''' ''list'')
    | CreateCall obj e \<Rightarrow> Some (requestFor (kindOf obj) '''' ''create'')
    | DeleteCall obj e \<Rightarrow> Some (requestFor (kindOf obj) '''' ''delete'')
    | PatchCall new orig e \<Rightarrow> Some (requestFor (kindOf orig) '''' ''patch'')
    | StatusPatchCall new orig e \<Rightarrow> Some (requestFor (kindOf orig) ''/status'' ''patch'')
    | EventCall obj ty reason msg \<Rightarrow> Some ('''', ''events'', ''create'')
    | MetricCall m \<Rightarrow> None
    | EnqueueCall req \<Rightarrow> None)"

definition helmPolicyGet :: "string \<times> string \<times> string" where
  "helmPolicyGet = (GroupName, ''helmpolicies'', ''get'')"

definition granted :: "Call \<Rightarrow> bool" where
  "granted call = (case apiRequest call of
      None \<Rightarrow> True
    | Some req \<Rightarrow> allows managerRole req \<or> req = helmPolicyGet)"

text \<open>The names a client gives to its kinds are those of the objects.\<close>

definition namesKinds :: "'w Client \<Rightarrow> bool" where
  "namesKinds c \<longleftrightarrow>
     rcKind (Pods c) = ''Pod'' \<and> rcKind (Tests c) = ''Test'' \<and> rcKind (TestRuns c) = ''TestRun'' \<and>
     rcKind (TestSuites c) = ''TestSuite'' \<and> rcKind (HelmPolicies c) = ''HelmPolicy'' \<and>
     rcKind (Secrets c) = ''Secret''"

section \<open>Lemmas\<close>

lemmas rule_defs =
  managerRole_def testControllerRules_def testRunControllerRules_def testSuiteControllerRules_def
  rule_def readVerbs_def writeVerbs_def

lemma managerRole_allows:
  "allows managerRole (GroupName, ''tests'', verb)
     \<longleftrightarrow> verb \<in> {''get'', ''list'', ''watch'', ''create'', ''update'', ''patch'', ''delete''}"
  "allows managerRole (GroupName, ''testruns'', verb)
     \<longleftrightarrow> verb \<in> {''get'', ''list'', ''watch'', ''create'', ''update'', ''patch'', ''delete''}"
  "allows managerRole (GroupName, ''testsuites'', verb) \<longleftrightarrow> verb \<in> {''get'', ''list'', ''watch'', ''patch''}"
  "allows managerRole (GroupName, ''helmpolicies'', verb) \<longleftrightarrow> False"
  "allows managerRole ('''', ''pods'', verb)
     \<longleftrightarrow> verb \<in> {''get'', ''list'', ''watch'', ''create'', ''update'', ''patch'', ''delete''}"
  "allows managerRole ('''', ''secrets'', verb) \<longleftrightarrow> verb \<in> {''get'', ''list'', ''watch''}"
  "allows managerRole ('''', ''events'', verb) \<longleftrightarrow> verb \<in> {''create'', ''patch''}"
  "allows managerRole (GroupName, ''tests/status'', verb) \<longleftrightarrow> verb \<in> {''get'', ''patch''}"
  "allows managerRole (GroupName, ''testruns/status'', verb) \<longleftrightarrow> verb \<in> {''get'', ''patch''}"
  "allows managerRole (GroupName, ''testsuites/status'', verb) \<longleftrightarrow> verb \<in> {''get'', ''patch''}"
  by (auto simp: allows_def rule_defs GroupName_def)

lemmas granted_defs =
  granted_def apiRequest_def requestFor_def resourceOf_def kindOf_def helmPolicyGet_def
  managerRole_allows

lemma granted_reads [simp]:
  "granted (GetCall ''Test'' key)" "granted (GetCall ''TestRun'' key)"
  "granted (GetCall ''TestSuite'' key)" "granted (GetCall ''HelmPolicy'' key)"
  "granted (ListCall ''Pod'' opts)" "granted (ListCall ''Test'' opts)"
  "granted (ListCall ''TestRun'' opts)" "granted (ListCall ''TestSuite'' opts)"
  "granted (ListCall ''Secret'' opts)"
  by (simp_all add: granted_defs)

lemma granted_writes [simp]:
  "granted (CreateCall (PodObj p) e)" "granted (CreateCall (TestObj t) e)"
  "granted (CreateCall (TestRunObj run) e)"
  "granted (DeleteCall (PodObj p) e)" "granted (DeleteCall (TestObj t) e)"
  "granted (DeleteCall (TestRunObj run) e)"
  "granted (PatchCall new (PodObj p) e)" "granted (PatchCall new (TestObj t) e)"
  "granted (PatchCall new (TestRunObj run) e)" "granted (PatchCall new (TestSuiteObj s) e)"
  "granted (StatusPatchCall new (TestObj t) e)" "granted (StatusPatchCall new (TestRunObj run) e)"
  "granted (StatusPatchCall new (TestSuiteObj s) e)"
  by (simp_all add: granted_defs)

lemma granted_reports [simp]:
  "granted (EventCall obj ty reason msg)" "granted (MetricCall m)" "granted (EnqueueCall req)"
  by (simp_all add: granted_defs)

lemma cleanUpCall_granted:
  "cleanUpCall f (PodObj p) call \<Longrightarrow> granted call"
  "cleanUpCall f (TestObj t) call \<Longrightarrow> granted call"
  "cleanUpCall f (TestRunObj run) call \<Longrightarrow> granted call"
  "cleanUpCall f (TestSuiteObj s) call \<Longrightarrow> GetDeletionTimestamp s \<noteq> None \<Longrightarrow> granted call"
  by (auto simp: GetDeletionTimestamp_def elim!: cleanUpCall.elims)

lemma test_granted:
  assumes "namesKinds (trClient r)"
  shows "emits' (list_all granted) (TestReconciler_Reconcile r req)"
proof -
  have "test_call_property (\<lambda>_. True) r req granted"
    using assms by unfold_locales (auto simp: namesKinds_def intro: cleanUpCall_granted)
  then show ?thesis by (rule test_call_property.reconcile_each)
qed

lemma run_granted:
  assumes "namesKinds (rrClient r)"
  shows "emits' (list_all granted) (TestRunReconciler_Reconcile r req)"
proof -
  have "run_call_property (\<lambda>_. True) r req granted"
    using assms by unfold_locales (auto simp: namesKinds_def intro: cleanUpCall_granted)
  then show ?thesis by (rule run_call_property.Reconcile_calls)
qed

lemma suite_granted:
  assumes "namesKinds (srClient r)"
  shows "emits' (list_all granted) (TestSuiteReconciler_Reconcile r req)"
proof -
  have "suite_call_property (\<lambda>_. True) r req granted"
    using assms by unfold_locales (auto simp: namesKinds_def intro: cleanUpCall_granted)
  then show ?thesis by (rule suite_call_property.Reconcile_calls)
qed

lemma enqueueAll_granted: "emits' (list_all granted) (enqueueAll reqs)"
  by (rule emitsI) (auto simp: list_all_iff)

lemma forwardExports_granted:
  "namesKinds c \<Longrightarrow> emits' (list_all granted) (forwardExports c optss)"
  by (induction optss)
     (auto simp: namesKinds_def intro!: emit_rules each_call_rules enqueueAll_granted)

lemma watcher_granted:
  assumes "namesKinds c"
  shows "emits' (list_all granted) (EnqueueForHelmTrigger c ev)"
  using assms forwardExports_granted [OF assms]
  unfolding EnqueueForHelmTrigger_def EnqueueForHelmTrigger_handle_def
  by (auto simp: namesKinds_def split: WatchEvent.split Object.split
      intro!: emit_rules each_call_rules enqueueAll_granted)

section \<open>Properties\<close>

text \<open>
  C40. Every request that the reconcilers and the watcher make to the API server is allowed by the
  markers of the three controllers, except that none of them allows to get a HelmPolicy, which the
  suite reconciler and the watcher do.
\<close>

theorem requests_granted:
  assumes "namesKinds (trClient rt)" and "namesKinds (rrClient rr)" and "namesKinds (srClient rs)"
    and "namesKinds c"
  shows "list_all granted (callsOf (TestReconciler_Reconcile rt req) w) \<and>
    list_all granted (callsOf (TestRunReconciler_Reconcile rr req) w) \<and>
    list_all granted (callsOf (TestSuiteReconciler_Reconcile rs req) w) \<and>
    list_all granted (callsOf (EnqueueForHelmTrigger c ev) w) \<and>
    \<not> allows managerRole helmPolicyGet"
  using assms
  by (auto simp: helmPolicyGet_def managerRole_allows
      intro!: emits_callsOf [OF test_granted] emits_callsOf [OF run_granted]
        emits_callsOf [OF suite_granted] emits_callsOf [OF watcher_granted])

theorem requests_granted_witness:
  "list_all granted (callsOf (TestReconciler_Reconcile
     (sampleTestReconciler (sampleTest TestPending RetainNever) []) \<lparr>nnNamespace = ''ns'', nnName = ''t''\<rparr>) ()) \<and>
   list_all granted (callsOf (EnqueueForHelmTrigger staticClient
     (CreateEvent (SecretObj (sampleSecret ''ns'' ''app'' ''1'')))) ())"
  using requests_granted [of "sampleTestReconciler (sampleTest TestPending RetainNever) []"
      sampleRunReconciler sampleSuiteReconciler staticClient "\<lparr>nnNamespace = ''ns'', nnName = ''t''\<rparr>" "()"
      "CreateEvent (SecretObj (sampleSecret ''ns'' ''app'' ''1''))"]
  by (simp add: namesKinds_def sampleTestReconciler_def sampleRunReconciler_def sampleSuiteReconciler_def)

end
