(* ===== verification/Command_Line.thy ===== *)
theory Command_Line
  imports Go_Prelude
begin

text \<open>
  The command line of the operator: the flags that src/main.go defines, and the part of the
  package \<open>flag\<close> of the Go library that reads them. The flags that \<open>zap.Options.BindFlags\<close> adds
  are a parameter: for a name, whether it is a boolean flag and which values it accepts.
\<close>

section \<open>Flags\<close>

datatype FlagValue = StringValue string | BoolValue bool

record FlagDef =
  flagName :: string
  flagDefault :: FlagValue
  flagUsage :: string

definition mainFlags :: "FlagDef list" where
  "mainFlags =
     [\<lparr>flagName = ''metrics-bind-address'', flagDefault = StringValue '':8080'',
       flagUsage = ''The address the metric endpoint binds to.''\<rparr>,
      \<lparr>flagName = ''health-probe-bind-address'', flagDefault = StringValue '':8081'',
       flagUsage = ''The address the probe endpoint binds to.''\<rparr>,
      \<lparr>flagName = ''leader-elect'', flagDefault = BoolValue False,
       flagUsage = ''Enable leader election for controller manager. '' @
         ''Enabling this will ensure there is only one active controller manager.''\<rparr>]"

type_synonym FlagValues = "string \<Rightarrow> FlagValue option"
type_synonym BoundFlags = "string \<Rightarrow> (bool \<times> (string \<Rightarrow> bool)) option"

definition defaultValues :: FlagValues where
  "defaultValues = map_of (map (\<lambda>d. (flagName d, flagDefault d)) mainFlags)"

section \<open>Reading the command line\<close>

text \<open>\<open>strconv.ParseBool\<close>; \<open>None\<close> is a non-nil error.\<close>

definition ParseBool :: "string \<Rightarrow> bool option" where
  "ParseBool s =
     (if List.member [''1'', ''t'', ''T'', ''TRUE'', ''true'', ''True''] s then Some True
      else if List.member [''0'', ''f'', ''F'', ''FALSE'', ''false'', ''False''] s then Some False
      else None)"

datatype FlagError =
    BadSyntax string
  | NotDefined string
  | NeedsArgument string
  | InvalidValue string string
  | HelpRequested

definition setFlag ::
  "BoundFlags \<Rightarrow> string \<Rightarrow> string \<Rightarrow> FlagValues \<Rightarrow> FlagError + FlagValues" where
  "setFlag bound n v vals =
     (case vals n of
        Some (StringValue _) \<Rightarrow> Inr (vals(n \<mapsto> StringValue v))
      | Some (BoolValue _) \<Rightarrow>
          (case ParseBool v of
             None \<Rightarrow> Inl (InvalidValue n v)
           | Some b \<Rightarrow> Inr (vals(n \<mapsto> BoolValue b)))
      | None \<Rightarrow>
          (case bound n of
             None \<Rightarrow> Inl (NotDefined n)
           | Some (_, accepts) \<Rightarrow> if accepts v then Inr vals else Inl (InvalidValue n v)))"

text \<open>Whether a name is defined, and then whether its flag is boolean.\<close>

definition isBoolFlag :: "BoundFlags \<Rightarrow> FlagValues \<Rightarrow> string \<Rightarrow> bool option" where
  "isBoolFlag bound vals n =
     (case vals n of
        Some (BoolValue _) \<Rightarrow> Some True
      | Some (StringValue _) \<Rightarrow> Some False
      | None \<Rightarrow> map_option fst (bound n))"

text \<open>An argument without its minus signs: the name, and what follows the first equals sign.\<close>

definition splitAssign :: "string \<Rightarrow> string \<times> string option" where
  "splitAssign s =
     (case indexByte (tl s) CHR ''='' of
        None \<Rightarrow> (s, None)
      | Some i \<Rightarrow> (take (i + 1) s, Some (drop (i + 2) s)))"

text \<open>
  An argument: not a flag, the terminator of the flags, or a flag with its text after one or two
  minus signs.
\<close>

datatype Argument = NoFlag | Terminator | FlagText string

definition argument :: "string \<Rightarrow> Argument" where
  "argument s =
     (if length s < 2 \<or> hd s \<noteq> CHR ''-'' then NoFlag
      else if s = ''--'' then Terminator
      else FlagText (if s ! 1 = CHR ''-'' then drop 2 s else tl s))"

text \<open>\<open>FlagSet.Parse\<close>, with \<open>parseOne\<close> as the body of its loop.\<close>

fun parseFlags ::
  "BoundFlags \<Rightarrow> FlagValues \<Rightarrow> string list \<Rightarrow> FlagError + FlagValues" where
  "parseFlags bound vals [] = Inr vals"
| "parseFlags bound vals (s # args) =
     (case argument s of
        NoFlag \<Rightarrow> Inr vals
      | Terminator \<Rightarrow> Inr vals
      | FlagText txt \<Rightarrow>
          (if txt = '''' \<or> hd txt = CHR ''-'' \<or> hd txt = CHR ''='' then Inl (BadSyntax s)
           else (case splitAssign txt of (n, value) \<Rightarrow>
             (case isBoolFlag bound vals n of
                None \<Rightarrow> Inl (if n = ''help'' \<or> n = ''h'' then HelpRequested else NotDefined n)
              | Some True \<Rightarrow>
                  (case setFlag bound n (case value of None \<Rightarrow> ''true'' | Some v \<Rightarrow> v) vals of
                     Inl e \<Rightarrow> Inl e
                   | Inr vals' \<Rightarrow> parseFlags bound vals' args)
              | Some False \<Rightarrow>
                  (case value of
                     Some v \<Rightarrow>
                       (case setFlag bound n v vals of
                          Inl e \<Rightarrow> Inl e
                        | Inr vals' \<Rightarrow> parseFlags bound vals' args)
                   | None \<Rightarrow>
                       (case args of
                          [] \<Rightarrow> Inl (NeedsArgument n)
                        | v # args' \<Rightarrow>
                            (case setFlag bound n v vals of
                               Inl e \<Rightarrow> Inl e
                             | Inr vals' \<Rightarrow> parseFlags bound vals' args')))))))"

section \<open>The variables of main\<close>

record ManagerFlags =
  metricsAddr :: string
  probeAddr :: string
  enableLeaderElection :: bool

definition stringFlag :: "FlagValues \<Rightarrow> string \<Rightarrow> string" where
  "stringFlag vals n = (case vals n of Some (StringValue s) \<Rightarrow> s | _ \<Rightarrow> '''')"

definition boolFlag :: "FlagValues \<Rightarrow> string \<Rightarrow> bool" where
  "boolFlag vals n = (case vals n of Some (BoolValue b) \<Rightarrow> b | _ \<Rightarrow> False)"

definition managerFlags :: "FlagValues \<Rightarrow> ManagerFlags" where
  "managerFlags vals =
     \<lparr>metricsAddr = stringFlag vals ''metrics-bind-address'',
      probeAddr = stringFlag vals ''health-probe-bind-address'',
      enableLeaderElection = boolFlag vals ''leader-elect''\<rparr>"

definition parseMain :: "BoundFlags \<Rightarrow> string list \<Rightarrow> FlagError + ManagerFlags" where
  "parseMain bound args =
     (case parseFlags bound defaultValues args of Inl e \<Rightarrow> Inl e | Inr vals \<Rightarrow> Inr (managerFlags vals))"

text \<open>The arguments that ask for given values, each in the form with two minus signs and an equals sign.\<close>

definition renderFlags :: "ManagerFlags \<Rightarrow> string list" where
  "renderFlags f =
     [''--metrics-bind-address='' @ metricsAddr f, ''--health-probe-bind-address='' @ probeAddr f,
      ''--leader-elect='' @ (if enableLeaderElection f then ''true'' else ''false'')]"

section \<open>Lemmas\<close>

lemma splitAssign_append:
  "n \<noteq> '''' \<Longrightarrow> CHR ''='' \<notin> set (tl n) \<Longrightarrow> splitAssign (n @ CHR ''='' # v) = (n, Some v)"
  by (cases n) (simp_all add: splitAssign_def indexByte_append)

lemma argument_flag: "s \<noteq> '''' \<Longrightarrow> argument (''--'' @ s) = FlagText s"
  by (simp add: argument_def)

text \<open>One assignment of a defined string flag.\<close>

lemma parseFlags_assign:
  assumes "n \<noteq> ''''" and "hd n \<noteq> CHR ''-''" and "CHR ''='' \<notin> set n"
    and "setFlag bound n v vals = Inr vals'"
  shows "parseFlags bound vals ((''--'' @ n @ CHR ''='' # v) # args) = parseFlags bound vals' args"
proof -
  have "hd n \<noteq> CHR ''=''" "CHR ''='' \<notin> set (tl n)" using assms by (cases n; auto)+
  moreover have "isBoolFlag bound vals n \<noteq> None"
    using assms(4) by (auto simp: isBoolFlag_def setFlag_def split: option.splits FlagValue.splits)
  ultimately show ?thesis
    using assms argument_flag [of "n @ CHR ''='' # v"]
    by (auto simp: splitAssign_append split: option.splits bool.splits)
qed

lemma defaultValues_simps [simp]:
  "defaultValues ''metrics-bind-address'' = Some (StringValue '':8080'')"
  "defaultValues ''health-probe-bind-address'' = Some (StringValue '':8081'')"
  "defaultValues ''leader-elect'' = Some (BoolValue False)"
  by (simp_all add: defaultValues_def mainFlags_def)

lemma ParseBool_simps [simp]: "ParseBool ''true'' = Some True" "ParseBool ''false'' = Some False"
  by (simp_all add: ParseBool_def)

section \<open>Properties\<close>

text \<open>
  C32. The command line round trip: the arguments that ask for given values are read back as these
  values, whatever the addresses are, and no argument at all gives the defaults.
\<close>

theorem flags_roundtrip:
  "parseMain bound (renderFlags f) = Inr f \<and>
   parseMain bound [] = Inr \<lparr>metricsAddr = '':8080'', probeAddr = '':8081'', enableLeaderElection = False\<rparr>"
proof
  define vals where "vals = defaultValues
    (''metrics-bind-address'' \<mapsto> StringValue (metricsAddr f),
     ''health-probe-bind-address'' \<mapsto> StringValue (probeAddr f),
     ''leader-elect'' \<mapsto> BoolValue (enableLeaderElection f))"
  have b: "ParseBool (if enableLeaderElection f then ''true'' else ''false'') = Some (enableLeaderElection f)"
    by simp
  have "parseFlags bound defaultValues (renderFlags f) = Inr vals"
    unfolding renderFlags_def vals_def
    using parseFlags_assign [of "''metrics-bind-address''"]
      parseFlags_assign [of "''health-probe-bind-address''"] parseFlags_assign [of "''leader-elect''"] b
    by (simp add: setFlag_def)
  then show "parseMain bound (renderFlags f) = Inr f"
    by (simp add: parseMain_def managerFlags_def stringFlag_def boolFlag_def vals_def)
  show "parseMain bound [] = Inr \<lparr>metricsAddr = '':8080'', probeAddr = '':8081'', enableLeaderElection = False\<rparr>"
    by (simp add: parseMain_def managerFlags_def stringFlag_def boolFlag_def)
qed

end
