(* ===== verification/Logging.thy ===== *)
theory Logging
  imports Go_Prelude
begin

text \<open>
  src/logging/logging.go: a logger with the verbosities of debug and trace, and the encoders that
  name the levels below zap's debug level. The logger of logr and the options of zap are
  parameters: a logger is what \<open>V\<close>, \<open>Info\<close>, \<open>WithName\<close> and \<open>WithValues\<close> make of it.
\<close>

section \<open>Loggers\<close>

record ('l, 'e) LogSink =
  V :: "'l \<Rightarrow> int \<Rightarrow> 'l"
  Info :: "'l \<Rightarrow> string \<Rightarrow> string list \<Rightarrow> 'e"
  WithName :: "'l \<Rightarrow> string \<Rightarrow> 'l"
  WithValues :: "'l \<Rightarrow> string list \<Rightarrow> 'l"

record 'l Logger =
  baseLogger :: 'l
  debugLogger :: 'l
  traceLogger :: 'l

definition NewLogger :: "('l, 'e) LogSink \<Rightarrow> 'l \<Rightarrow> 'l Logger" where
  "NewLogger sink from = \<lparr>baseLogger = from, debugLogger = V sink from 1, traceLogger = V sink from 2\<rparr>"

definition Logger_Debug :: "('l, 'e) LogSink \<Rightarrow> 'l Logger \<Rightarrow> string \<Rightarrow> string list \<Rightarrow> 'e" where
  "Logger_Debug sink l msg kvs = Info sink (debugLogger l) msg kvs"

definition Logger_Trace :: "('l, 'e) LogSink \<Rightarrow> 'l Logger \<Rightarrow> string \<Rightarrow> string list \<Rightarrow> 'e" where
  "Logger_Trace sink l msg kvs = Info sink (traceLogger l) msg kvs"

definition Logger_WithValues :: "('l, 'e) LogSink \<Rightarrow> 'l Logger \<Rightarrow> string list \<Rightarrow> 'l Logger" where
  "Logger_WithValues sink l kvs = NewLogger sink (WithValues sink (baseLogger l) kvs)"

text \<open>The context's logger is \<open>logr.FromContextOrDiscard(ctx)\<close>.\<close>

definition FromContext :: "('l, 'e) LogSink \<Rightarrow> 'l \<Rightarrow> string list \<Rightarrow> 'l Logger" where
  "FromContext sink ctxLogger kvs = NewLogger sink (WithValues sink ctxLogger kvs)"

definition FromContextWithName :: "('l, 'e) LogSink \<Rightarrow> 'l \<Rightarrow> string \<Rightarrow> string list \<Rightarrow> 'l Logger" where
  "FromContextWithName sink ctxLogger n kvs =
     NewLogger sink (WithValues sink (WithName sink ctxLogger n) kvs)"

section \<open>Level encoders\<close>

text \<open>
  A level of zapcore is an \<open>int8\<close>, in which the difference \<open>DebugLevel - level\<close> is computed. What the
  encoder appends is the result. The debug level of zapcore and the names it gives to its own
  levels are parameters.
\<close>

type_synonym Level = "8 word"

definition traceName :: "Level \<Rightarrow> string \<Rightarrow> Level \<Rightarrow> string" where
  "traceName debugLevel base level =
     (let l = sint (debugLevel - level) in if l > 1 then base @ Itoa l else base)"

definition LowercaseLevelEncoder :: "Level \<Rightarrow> (Level \<Rightarrow> string) \<Rightarrow> Level \<Rightarrow> string" where
  "LowercaseLevelEncoder debugLevel levelString level =
     (if level <s debugLevel then traceName debugLevel ''trace'' level else levelString level)"

definition CapitalLevelEncoder :: "Level \<Rightarrow> (Level \<Rightarrow> string) \<Rightarrow> Level \<Rightarrow> string" where
  "CapitalLevelEncoder debugLevel levelCapitalString level =
     (if level <s debugLevel then traceName debugLevel ''TRACE'' level else levelCapitalString level)"

text \<open>
  The options of zap: functions that change an encoder's configuration, applied in order. A level
  encoder is any function that names a level.
\<close>

record 'e EncoderConfig =
  EncodeLevel :: 'e

record 'e ZapOptions =
  EncoderConfigOptions :: "('e EncoderConfig \<Rightarrow> 'e EncoderConfig) list"

definition EncoderLevelConfig :: "'e \<Rightarrow> 'e EncoderConfig \<Rightarrow> 'e EncoderConfig" where
  "EncoderLevelConfig enc c = c\<lparr>EncodeLevel := enc\<rparr>"

definition EncoderLevel :: "'e \<Rightarrow> 'e ZapOptions \<Rightarrow> 'e ZapOptions" where
  "EncoderLevel enc o' = o'\<lparr>EncoderConfigOptions := EncoderConfigOptions o' @ [EncoderLevelConfig enc]\<rparr>"

definition applyOptions :: "'e ZapOptions \<Rightarrow> 'e EncoderConfig \<Rightarrow> 'e EncoderConfig" where
  "applyOptions o' c = fold (\<lambda>f. f) (EncoderConfigOptions o') c"

section \<open>Lemmas\<close>

text \<open>The encoder added last is the one that is used.\<close>

lemma EncoderLevel_used: "EncodeLevel (applyOptions (EncoderLevel enc o') c) = enc"
  by (simp add: applyOptions_def EncoderLevel_def EncoderLevelConfig_def)

text \<open>Below -1, the debug level of zapcore, the difference does not leave the range of \<open>int8\<close>.\<close>

lemma trace_difference:
  fixes level :: Level
  assumes "sint level < - 1"
  shows "sint ((- 1) - level) = - 1 - sint level"
proof -
  have "- 128 \<le> sint level" using sint_ge [of level] by simp
  with assms have "- 128 \<le> - 1 - sint level" "- 1 - sint level < 128" by simp_all
  then show ?thesis
    by (simp add: sint_word_ariths signed_take_bit_int_eq_self)
qed

section \<open>Properties\<close>

text \<open>
  C39. With zapcore's debug level at -1, the levels below it: the first of them is called trace, and the others trace followed by
  their distance from the debug level, which the 8-bit subtraction computes without wrapping, so
  that no two levels have the same name.
\<close>

theorem logging_trace_levels:
  assumes "debugLevel = - 1" and "sint level < - 1" and "sint level' < - 1"
  shows "LowercaseLevelEncoder debugLevel f level =
      ''trace'' @ (if sint level = - 2 then '''' else Itoa (- 1 - sint level)) \<and>
    CapitalLevelEncoder debugLevel f level =
      ''TRACE'' @ (if sint level = - 2 then '''' else Itoa (- 1 - sint level)) \<and>
    (LowercaseLevelEncoder debugLevel f level = LowercaseLevelEncoder debugLevel f level' \<longleftrightarrow> level = level')"
proof -
  have less: "l <s - 1" if "sint l < - 1" for l :: Level
    using that by (simp add: word_sless_alt)
  have low: "LowercaseLevelEncoder debugLevel f l = ''trace'' @ (if sint l = - 2 then '''' else Itoa (- 1 - sint l))"
    if "sint l < - 1" for l
    using that less [OF that] assms(1) by (auto simp: LowercaseLevelEncoder_def traceName_def trace_difference)
  have ne: "Itoa a \<noteq> ''''" if "0 \<le> a" for a using that by (simp add: Itoa_def)
  have "LowercaseLevelEncoder debugLevel f level = LowercaseLevelEncoder debugLevel f level' \<longleftrightarrow> sint level = sint level'"
    using assms(2,3) Itoa_inject [of "- 1 - sint level" "- 1 - sint level'"] ne [of "- 1 - sint level"]
      ne [of "- 1 - sint level'"]
    by (auto simp: low)
  moreover have "CapitalLevelEncoder debugLevel f level =
      ''TRACE'' @ (if sint level = - 2 then '''' else Itoa (- 1 - sint level))"
    using assms(1,2) less [OF assms(2)]
    by (auto simp: CapitalLevelEncoder_def traceName_def trace_difference)
  ultimately show ?thesis
    using low [OF assms(2)] by (auto simp: signed_word_eqI)
qed

theorem logging_trace_levels_witness:
  "LowercaseLevelEncoder (- 1) (\<lambda>_. '''') (- 3) = ''trace2'' \<and> LowercaseLevelEncoder (- 1) (\<lambda>_. '''') (- 2) = ''trace''"
proof -
  have "Itoa 2 = ''2''" by code_simp
  moreover have "sint (- 3 :: Level) = - 3" "sint (- 2 :: Level) = - 2" by simp_all
  ultimately show ?thesis
    using logging_trace_levels [of "- 1" "- 3" "- 2" "\<lambda>_. ''''"] logging_trace_levels [of "- 1" "- 2" "- 3" "\<lambda>_. ''''"]
    by simp
qed

end
