(* ===== verification/Manager.thy ===== *)
theory Manager
  imports Rbac Command_Line Logging
begin

text \<open>
  src/main.go and the \<open>SetupWithManager\<close> methods: the reconcilers that are made, the index
  functions and the controllers that are registered, and the order of the set-up, each step of
  which ends the process with exit code 1 when it fails. The manager of controller-runtime is a
  parameter, a record of the methods called on it and an arbitrary type of its states; making it
  includes finding the configuration of the cluster, without which the program ends the same way.
\<close>

section \<open>The reconcilers\<close>

definition mainTestReconciler :: "'w Client \<Rightarrow> 'w TestReconciler" where
  "mainTestReconciler c = \<lparr>trClient = c, trErrRequeueDelay = Minute\<rparr>"

definition mainTestRunReconciler :: "'w Client \<Rightarrow> 'w TestRunReconciler" where
  "mainTestRunReconciler c = \<lparr>rrClient = c, rrErrRequeueDelay = Minute\<rparr>"

text \<open>The standard cron parser and the real clock are parameters, as in the reconciler itself.\<close>

definition mainTestSuiteReconciler ::
  "'w Client \<Rightarrow> (string \<Rightarrow> error + Schedule) \<Rightarrow> ('w \<Rightarrow> Time \<times> 'w) \<Rightarrow> (TestRunSpec \<Rightarrow> string)
    \<Rightarrow> (string \<Rightarrow> string) \<Rightarrow> (TestRun list \<Rightarrow> TestRun list) \<Rightarrow> char \<Rightarrow> 'w TestSuiteReconciler" where
  "mainTestSuiteReconciler c ParseStandard RealClock spew encode sortRuns separator =
     \<lparr>srClient = c, srErrRequeueDelay = Minute, CronParser = ParseStandard, ClockNow = RealClock,
      spewPrint = spew, SafeEncodeString = encode, sortSlice = sortRuns, Separator = separator\<rparr>"

section \<open>The scheme\<close>

text \<open>The kinds that the \<open>init\<close> functions of the API package register, in the order of the files.\<close>

definition helmPolicyKinds :: "string list" where
  "helmPolicyKinds = [''HelmPolicy'', ''HelmPolicyList'']"

definition testKinds :: "string list" where
  "testKinds = [''Test'', ''TestList'']"

definition testRunKinds :: "string list" where
  "testRunKinds = [''TestRun'', ''TestRunList'']"

definition testSuiteKinds :: "string list" where
  "testSuiteKinds = [''TestSuite'', ''TestSuiteList'']"

definition SchemeBuilder :: "(string \<times> string) list" where
  "SchemeBuilder = map (\<lambda>k. (GroupVersion, k)) (helmPolicyKinds @ testKinds @ testRunKinds @ testSuiteKinds)"

text \<open>The scheme of \<open>main\<close>: the kinds of client-go first.\<close>

definition mainScheme :: "(string \<times> string) list \<Rightarrow> (string \<times> string) list" where
  "mainScheme clientgoscheme = clientgoscheme @ SchemeBuilder"

section \<open>The manager\<close>

record Options =
  optScheme :: "(string \<times> string) list"
  MetricsBindAddress :: string
  HealthProbeBindAddress :: string
  LeaderElection :: bool
  LeaderElectionID :: string

definition mainOptions :: "(string \<times> string) list \<Rightarrow> ManagerFlags \<Rightarrow> Options" where
  "mainOptions clientgoscheme flags =
     \<lparr>optScheme = mainScheme clientgoscheme, MetricsBindAddress = metricsAddr flags,
      HealthProbeBindAddress = probeAddr flags, LeaderElection = enableLeaderElection flags,
      LeaderElectionID = ''1337e21f.goraft.tech''\<rparr>"

text \<open>The options of the logger, before the flags of zap are applied to them.\<close>

definition mainLogOptions :: "Level \<Rightarrow> (Level \<Rightarrow> string) \<Rightarrow> (Level \<Rightarrow> string) ZapOptions" where
  "mainLogOptions debugLevel levelString =
     \<lparr>EncoderConfigOptions = [EncoderLevelConfig (LowercaseLevelEncoder debugLevel levelString)]\<rparr>"

lemma mainLogOptions_encoder:
  "EncodeLevel (applyOptions (mainLogOptions debugLevel levelString) c) = LowercaseLevelEncoder debugLevel levelString"
  by (simp add: mainLogOptions_def applyOptions_def EncoderLevelConfig_def)

text \<open>
  What a controller is built from: the kind it is for, the kinds it owns, what else it watches with
  the predicate and the handler of the events, and the method it is completed with. An index
  function panics, \<open>None\<close>, on an object of another kind.
\<close>

record 'w Watch =
  watchKind :: string
  watchPredicate :: "WatchEvent \<Rightarrow> bool"
  watchHandler :: "WatchEvent \<Rightarrow> ('w Env, unit option) state"

record 'w Builder =
  bFor :: string
  bOwns :: "string list"
  bWatches :: "'w Watch list"
  bReconcile :: "NamespacedName \<Rightarrow> ('w Env, Outcome) state"

type_synonym Indexer = "Object \<Rightarrow> string list option"

record ('m, 'w) ManagerLib =
  NewManager :: "Options \<Rightarrow> error + 'm"
  GetClient :: "'m \<Rightarrow> 'w Client"
  IndexField :: "string \<Rightarrow> string \<Rightarrow> Indexer \<Rightarrow> 'm \<Rightarrow> error option \<times> 'm"
  CompleteController :: "'w Builder \<Rightarrow> 'm \<Rightarrow> error option \<times> 'm"
  AddHealthzCheck :: "string \<Rightarrow> 'm \<Rightarrow> error option \<times> 'm"
  AddReadyzCheck :: "string \<Rightarrow> 'm \<Rightarrow> error option \<times> 'm"
  StartManager :: "'m \<Rightarrow> error option \<times> 'm"

text \<open>A step of the set-up, and steps in sequence: the first error ends them.\<close>

type_synonym 'm Setup = "'m \<Rightarrow> error option \<times> 'm"

fun setupAll :: "'m Setup list \<Rightarrow> 'm Setup" where
  "setupAll [] m = (None, m)"
| "setupAll (step # steps) m =
     (case step m of (None, m') \<Rightarrow> setupAll steps m' | (Some e, m') \<Rightarrow> (Some e, m'))"

section \<open>The controllers\<close>

definition podIndexer :: "(ObjectMeta \<Rightarrow> OwnerReference option) \<Rightarrow> Indexer" where
  "podIndexer GetControllerOf rawObj =
     (case rawObj of
        PodObj pod \<Rightarrow> Some (TestReconciler_podIndex (\<lambda>p. GetControllerOf (Meta p)) pod) | _ \<Rightarrow> None)"

definition testIndexer :: "(ObjectMeta \<Rightarrow> OwnerReference option) \<Rightarrow> Indexer" where
  "testIndexer GetControllerOf rawObj =
     (case rawObj of
        TestObj test \<Rightarrow> Some (TestRunReconciler_testIndex (\<lambda>t. GetControllerOf (Meta t)) test) | _ \<Rightarrow> None)"

definition runIndexer :: "(ObjectMeta \<Rightarrow> OwnerReference option) \<Rightarrow> Indexer" where
  "runIndexer GetControllerOf rawObj =
     (case rawObj of
        TestRunObj run \<Rightarrow> Some (TestSuiteReconciler_runIndex (\<lambda>u. GetControllerOf (Meta u)) run) | _ \<Rightarrow> None)"

definition secretIndexer :: Indexer where
  "secretIndexer rawObj =
     (case rawObj of SecretObj secret \<Rightarrow> Some (TestSuiteReconciler_secretIndex secret) | _ \<Rightarrow> None)"

definition testBuilder :: "'w TestReconciler \<Rightarrow> 'w Builder" where
  "testBuilder r =
     \<lparr>bFor = ''Test'', bOwns = [''Pod''], bWatches = [],
      bReconcile = (\<lambda>req. do { (res, err) \<leftarrow> TestReconciler_Reconcile r req; ret (Return res err) })\<rparr>"

definition testRunBuilder :: "'w TestRunReconciler \<Rightarrow> 'w Builder" where
  "testRunBuilder r =
     \<lparr>bFor = ''TestRun'', bOwns = [''Test''], bWatches = [], bReconcile = TestRunReconciler_Reconcile r\<rparr>"

definition testSuiteBuilder :: "'w Client \<Rightarrow> 'w TestSuiteReconciler \<Rightarrow> 'w Builder" where
  "testSuiteBuilder c r =
     \<lparr>bFor = ''TestSuite'', bOwns = [''TestRun''],
      bWatches = [\<lparr>watchKind = ''Secret'', watchPredicate = IsHelmRelease,
        watchHandler = EnqueueForHelmTrigger c\<rparr>],
      bReconcile = TestSuiteReconciler_Reconcile r\<rparr>"

definition TestReconciler_SetupWithManager ::
  "('m, 'w) ManagerLib \<Rightarrow> (ObjectMeta \<Rightarrow> OwnerReference option) \<Rightarrow> 'w TestReconciler \<Rightarrow> 'm Setup" where
  "TestReconciler_SetupWithManager lib GetControllerOf r =
     setupAll
       [IndexField lib ''Pod'' podIndexKey (podIndexer GetControllerOf),
        CompleteController lib (testBuilder r)]"

definition TestRunReconciler_SetupWithManager ::
  "('m, 'w) ManagerLib \<Rightarrow> (ObjectMeta \<Rightarrow> OwnerReference option) \<Rightarrow> 'w TestRunReconciler \<Rightarrow> 'm Setup" where
  "TestRunReconciler_SetupWithManager lib GetControllerOf r =
     setupAll
       [IndexField lib ''Test'' testIndexKey (testIndexer GetControllerOf),
        CompleteController lib (testRunBuilder r)]"

definition TestSuiteReconciler_SetupWithManager ::
  "('m, 'w) ManagerLib \<Rightarrow> (ObjectMeta \<Rightarrow> OwnerReference option) \<Rightarrow> 'w TestSuiteReconciler \<Rightarrow> 'm Setup" where
  "TestSuiteReconciler_SetupWithManager lib GetControllerOf r =
     setupAll
       [IndexField lib ''TestRun'' testRunIndexKey (runIndexer GetControllerOf),
        IndexField lib ''Secret'' ''field:type'' secretIndexer,
        (\<lambda>m. CompleteController lib (testSuiteBuilder (GetClient lib m) r) m)]"

section \<open>The program\<close>

text \<open>
  How \<open>main\<close> ends: the exit code, and the manager it was working with. The error of a flag has the
  code 2, and a request for help the code 0, as the package \<open>flag\<close> ends a program.
\<close>

datatype 'm Ending = Ended int "'m option"

definition mainSetup ::
  "('m, 'w) ManagerLib \<Rightarrow> (ObjectMeta \<Rightarrow> OwnerReference option) \<Rightarrow> ('w Client \<Rightarrow> 'w TestSuiteReconciler)
    \<Rightarrow> 'm Setup list" where
  "mainSetup lib GetControllerOf makeSuiteReconciler =
     [(\<lambda>m. TestReconciler_SetupWithManager lib GetControllerOf (mainTestReconciler (GetClient lib m)) m),
      (\<lambda>m. TestRunReconciler_SetupWithManager lib GetControllerOf (mainTestRunReconciler (GetClient lib m)) m),
      (\<lambda>m. TestSuiteReconciler_SetupWithManager lib GetControllerOf (makeSuiteReconciler (GetClient lib m)) m),
      AddHealthzCheck lib ''healthz'',
      AddReadyzCheck lib ''readyz'']"

definition manager_main ::
  "('m, 'w) ManagerLib \<Rightarrow> (ObjectMeta \<Rightarrow> OwnerReference option) \<Rightarrow> ('w Client \<Rightarrow> 'w TestSuiteReconciler)
    \<Rightarrow> (string \<times> string) list \<Rightarrow> BoundFlags \<Rightarrow> string list \<Rightarrow> 'm Ending" where
  "manager_main lib GetControllerOf makeSuiteReconciler clientgoscheme bound args =
     (case parseMain bound args of
        Inl HelpRequested \<Rightarrow> Ended 0 None
      | Inl e \<Rightarrow> Ended 2 None
      | Inr flags \<Rightarrow>
          (case NewManager lib (mainOptions clientgoscheme flags) of
             Inl e \<Rightarrow> Ended 1 None
           | Inr m \<Rightarrow>
               (case setupAll (mainSetup lib GetControllerOf makeSuiteReconciler @ [StartManager lib]) m of
                  (Some e, m') \<Rightarrow> Ended 1 (Some m')
                | (None, m') \<Rightarrow> Ended 0 (Some m'))))"

section \<open>What the set-up registers\<close>

datatype Registration =
    IndexReg string string
  | ControllerReg string
  | HealthzReg string
  | ReadyzReg string

text \<open>
  With \<open>reg\<close> the registrations a manager holds: a step of the set-up registers \<open>xs\<close> when, on every
  manager that has none of them, it succeeds and adds them.
\<close>

definition registers :: "('m \<Rightarrow> Registration list) \<Rightarrow> Registration list \<Rightarrow> 'm Setup \<Rightarrow> bool" where
  "registers reg xs step \<longleftrightarrow>
     (\<forall>m. distinct (reg m @ xs) \<longrightarrow> fst (step m) = None \<and> reg (snd (step m)) = reg m @ xs)"

text \<open>
  What the program relies on: the library refuses no registration but one it has already, an index
  of a kind under a key, a controller by its kind, or a check by its name.
\<close>

definition refusesOnlyDuplicates :: "('m, 'w) ManagerLib \<Rightarrow> ('m \<Rightarrow> Registration list) \<Rightarrow> bool" where
  "refusesOnlyDuplicates lib reg \<longleftrightarrow>
     (\<forall>k f ix. registers reg [IndexReg k f] (IndexField lib k f ix)) \<and>
     (\<forall>b. registers reg [ControllerReg (bFor b)] (CompleteController lib b)) \<and>
     (\<forall>n. registers reg [HealthzReg n] (AddHealthzCheck lib n)) \<and>
     (\<forall>n. registers reg [ReadyzReg n] (AddReadyzCheck lib n))"

definition mainRegistrations :: "Registration list" where
  "mainRegistrations =
     [IndexReg ''Pod'' podIndexKey, ControllerReg ''Test'',
      IndexReg ''Test'' testIndexKey, ControllerReg ''TestRun'',
      IndexReg ''TestRun'' testRunIndexKey, IndexReg ''Secret'' ''field:type'', ControllerReg ''TestSuite'',
      HealthzReg ''healthz'', ReadyzReg ''readyz'']"

lemma registers_Nil: "registers reg [] (setupAll [])"
  by (simp add: registers_def)

lemma registers_Cons:
  assumes "registers reg xs step" and "registers reg ys (setupAll steps)"
  shows "registers reg (xs @ ys) (setupAll (step # steps))"
  unfolding registers_def
proof (intro allI impI)
  fix m assume d: "distinct (reg m @ xs @ ys)"
  obtain e m' where m': "step m = (e, m')" by fastforce
  have "fst (step m) = None \<and> reg (snd (step m)) = reg m @ xs"
    using assms(1) d unfolding registers_def by (metis distinct_append append_assoc)
  with m' have e: "e = None" "reg m' = reg m @ xs" by simp_all
  with assms(2) d have "fst (setupAll steps m') = None \<and> reg (snd (setupAll steps m')) = reg m @ xs @ ys"
    unfolding registers_def by (metis append_assoc)
  with m' e show "fst (setupAll (step # steps) m) = None \<and>
      reg (snd (setupAll (step # steps) m)) = reg m @ xs @ ys"
    by simp
qed

lemma registers_of_state: "(\<And>m. registers reg xs (f m)) \<Longrightarrow> registers reg xs (\<lambda>m. f m m)"
  by (simp add: registers_def)

lemma builder_simps [simp]:
  "bFor (testBuilder r) = ''Test''" "bFor (testRunBuilder r') = ''TestRun''"
  "bFor (testSuiteBuilder c r'') = ''TestSuite''"
  "bOwns (testBuilder r) = [''Pod'']" "bOwns (testRunBuilder r') = [''Test'']"
  "bOwns (testSuiteBuilder c r'') = [''TestRun'']"
  by (simp_all add: testBuilder_def testRunBuilder_def testSuiteBuilder_def)

lemma SetupWithManager_registers:
  assumes "refusesOnlyDuplicates lib reg"
  shows "registers reg [IndexReg ''Pod'' podIndexKey, ControllerReg ''Test'']
      (TestReconciler_SetupWithManager lib G rt)"
    and "registers reg [IndexReg ''Test'' testIndexKey, ControllerReg ''TestRun'']
      (TestRunReconciler_SetupWithManager lib G rr)"
    and "registers reg [IndexReg ''TestRun'' testRunIndexKey, IndexReg ''Secret'' ''field:type'',
        ControllerReg ''TestSuite''] (TestSuiteReconciler_SetupWithManager lib G rs)"
proof -
  have ix: "registers reg [IndexReg k f] (IndexField lib k f i)" for k f i
    using assms by (simp add: refusesOnlyDuplicates_def)
  have ct: "registers reg [ControllerReg (bFor b)] (CompleteController lib b)" for b
    using assms by (simp add: refusesOnlyDuplicates_def)
  have ct': "registers reg [ControllerReg ''TestSuite'']
      (\<lambda>m. CompleteController lib (testSuiteBuilder (GetClient lib m) rs) m)"
    by (rule registers_of_state) (use ct [of "testSuiteBuilder c rs" for c] in simp)
  show "registers reg [IndexReg ''Pod'' podIndexKey, ControllerReg ''Test'']
      (TestReconciler_SetupWithManager lib G rt)"
    unfolding TestReconciler_SetupWithManager_def
    using registers_Cons [OF ix registers_Cons [OF ct [of "testBuilder rt"] registers_Nil]] by simp
  show "registers reg [IndexReg ''Test'' testIndexKey, ControllerReg ''TestRun'']
      (TestRunReconciler_SetupWithManager lib G rr)"
    unfolding TestRunReconciler_SetupWithManager_def
    using registers_Cons [OF ix registers_Cons [OF ct [of "testRunBuilder rr"] registers_Nil]] by simp
  show "registers reg [IndexReg ''TestRun'' testRunIndexKey, IndexReg ''Secret'' ''field:type'',
        ControllerReg ''TestSuite''] (TestSuiteReconciler_SetupWithManager lib G rs)"
    unfolding TestSuiteReconciler_SetupWithManager_def
    using registers_Cons [OF ix registers_Cons [OF ix registers_Cons [OF ct' registers_Nil]]] by simp
qed

lemma mainSetup_registers:
  assumes "refusesOnlyDuplicates lib reg"
  shows "registers reg mainRegistrations (setupAll (mainSetup lib G mk))"
proof -
  have checks: "registers reg [HealthzReg n] (AddHealthzCheck lib n)"
      "registers reg [ReadyzReg n] (AddReadyzCheck lib n)" for n
    using assms by (simp_all add: refusesOnlyDuplicates_def)
  note ctl = registers_of_state [OF SetupWithManager_registers(1) [OF assms]]
    registers_of_state [OF SetupWithManager_registers(2) [OF assms]]
    registers_of_state [OF SetupWithManager_registers(3) [OF assms]]
  show ?thesis
    unfolding mainSetup_def
    using registers_Cons [OF ctl(1) registers_Cons [OF ctl(2) registers_Cons [OF ctl(3)
          registers_Cons [OF checks(1) registers_Cons [OF checks(2) registers_Nil]]]]]
    by (simp add: mainRegistrations_def)
qed

lemma setupAll_append:
  "setupAll (xs @ ys) m =
     (case setupAll xs m of (None, m') \<Rightarrow> setupAll ys m' | (Some e, m') \<Rightarrow> (Some e, m'))"
  by (induction xs arbitrary: m) (auto split: prod.splits option.splits)

text \<open>
  The objects a reconciler creates for a request: of a kind that its controller owns, in the
  namespace of the request, and indexed under its name, so that the list the reconciler makes for
  the request returns them.
\<close>

definition tracked :: "NamespacedName \<Rightarrow> string list \<Rightarrow> Indexer \<Rightarrow> Call \<Rightarrow> bool" where
  "tracked req owns indexer call =
     (case call of
        CreateCall obj e \<Rightarrow>
          List.member owns (kindOf obj) \<and> Namespace (objMeta obj) = nnNamespace req \<and>
          indexer obj = Some [nnName req]
      | _ \<Rightarrow> True)"

text \<open>
  What this relies on: \<open>metav1.GetControllerOf\<close> returns the owner that is marked as controller, a
  get answers with the object that was asked for, its type included, and the answer to a patch is
  the same object.
\<close>

definition findsController :: "(ObjectMeta \<Rightarrow> OwnerReference option) \<Rightarrow> bool" where
  "findsController GetControllerOf \<longleftrightarrow>
     (\<forall>meta owner. OwnerReferences meta = [owner] \<longrightarrow> orController owner = Some True
        \<longrightarrow> GetControllerOf meta = Some owner)"

definition identified :: "string \<Rightarrow> NamespacedName \<Rightarrow> 'a KObject_scheme \<Rightarrow> bool" where
  "identified k key obj \<longleftrightarrow>
     APIVersion obj = GroupVersion \<and> Kind obj = k \<and>
     Namespace (Meta obj) = nnNamespace key \<and> Name (Meta obj) = nnName key"

definition keepsIdentity :: "string \<Rightarrow> ('a KObject_scheme, 'w) ResourceClient \<Rightarrow> bool" where
  "keepsIdentity k rc \<longleftrightarrow>
     (\<forall>key w obj w'. doGet rc key w = (Inr obj, w') \<longrightarrow> identified k key obj) \<and>
     (\<forall>key new orig w obj w'. identified k key new \<longrightarrow>
        doPatch rc new orig w = (Inr obj, w') \<or> doStatusPatch rc new orig w = (Inr obj, w')
        \<longrightarrow> identified k key obj)"

lemma tracked_simps [simp]:
  "tracked req owns indexer (GetCall k key)" "tracked req owns indexer (ListCall k opts)"
  "tracked req owns indexer (PatchCall new orig e)" "tracked req owns indexer (StatusPatchCall new orig e)"
  "tracked req owns indexer (MetricCall m)" "tracked req owns indexer (EventCall obj ty reason msg)"
  "tracked req owns indexer (DeleteCall obj e)"
  by (simp_all add: tracked_def)

lemma cleanUpCall_tracked: "cleanUpCall f obj call \<Longrightarrow> tracked req owns indexer call"
  by (cases call) simp_all

lemma identified_SetFinalizers: "identified k key obj \<Longrightarrow> identified k key (SetFinalizers fs obj)"
  by (simp add: identified_def SetFinalizers_def)

lemma identified_updates:
  "identified k key test \<Longrightarrow> identified k key (setTestPhase p test)"
  "identified k key run \<Longrightarrow> identified k key (setRunPhase p' msg run)"
  "identified k key suite \<Longrightarrow> identified k key (setSuiteStatus f suite)"
  "identified k key suite \<Longrightarrow> suitePatch new suite \<Longrightarrow> identified k key new"
  by (auto simp: identified_def setTestPhase_def setRunPhase_def setSuiteStatus_def suitePatch_def
      dropSchedule_def annotateSchedule_def labelHelm_def resetTrigger_def annotateHelm_def setSuiteMeta_def)

lemma created_tracked:
  assumes "findsController G"
  shows "identified ''Test'' req test
      \<Longrightarrow> tracked req [''Pod''] (podIndexer G) (CreateCall (PodObj (newPod test)) e)"
    and "identified ''TestRun'' req run
      \<Longrightarrow> tracked req [''Test''] (testIndexer G) (CreateCall (TestObj (newTest run i)) e)"
    and "identified ''TestSuite'' req suite
      \<Longrightarrow> tracked req [''TestRun''] (runIndexer G) (CreateCall (TestRunObj (newRun rs suite)) e)"
proof -
  have G: "OwnerReferences meta = [owner] \<Longrightarrow> orController owner = Some True \<Longrightarrow> G meta = Some owner"
    for meta owner using assms by (simp add: findsController_def)
  show "tracked req [''Pod''] (podIndexer G) (CreateCall (PodObj (newPod test)) e)"
    if id: "identified ''Test'' req test"
  proof -
    obtain owner where "OwnerReferences (Meta (newPod test)) = [owner]" "orController owner = Some True"
      "orAPIVersion owner = GroupVersion" "orKind owner = ''Test''" "orName owner = nnName req"
      "Namespace (Meta (newPod test)) = nnNamespace req"
      using id by (simp add: newPod_def identified_def)
    with G show ?thesis
      by (simp add: tracked_def kindOf_def podIndexer_def TestReconciler_podIndex_def)
  qed
  show "tracked req [''Test''] (testIndexer G) (CreateCall (TestObj (newTest run i)) e)"
    if id: "identified ''TestRun'' req run"
  proof -
    obtain owner where "OwnerReferences (Meta (newTest run i)) = [owner]" "orController owner = Some True"
      "orAPIVersion owner = GroupVersion" "orKind owner = ''TestRun''" "orName owner = nnName req"
      "Namespace (Meta (newTest run i)) = nnNamespace req"
      using id by (simp add: newTest_def identified_def)
    with G show ?thesis
      by (simp add: tracked_def kindOf_def testIndexer_def TestRunReconciler_testIndex_def)
  qed
  show "tracked req [''TestRun''] (runIndexer G) (CreateCall (TestRunObj (newRun rs suite)) e)"
    if id: "identified ''TestSuite'' req suite"
  proof -
    obtain owner where "OwnerReferences (Meta (newRun rs suite)) = [owner]" "orController owner = Some True"
      "orAPIVersion owner = GroupVersion" "orKind owner = ''TestSuite''" "orName owner = nnName req"
      "Namespace (Meta (newRun rs suite)) = nnNamespace req"
      using id by (simp add: newRun_def Let_def identified_def)
    with G show ?thesis
      by (simp add: tracked_def kindOf_def runIndexer_def TestSuiteReconciler_runIndex_def)
  qed
qed

lemma keepsIdentity_get:
  "keepsIdentity k rc \<Longrightarrow> doGet rc key w = (Inr obj, w') \<Longrightarrow> identified k key obj"
  unfolding keepsIdentity_def by blast

lemma keepsIdentity_patch:
  "keepsIdentity k rc \<Longrightarrow> identified k key new \<Longrightarrow> doPatch rc new orig w = (Inr obj, w') \<Longrightarrow> identified k key obj"
  "keepsIdentity k rc \<Longrightarrow> identified k key new \<Longrightarrow> doStatusPatch rc new orig w = (Inr obj, w')
    \<Longrightarrow> identified k key obj"
  unfolding keepsIdentity_def by blast+

lemmas identity_rules =
  keepsIdentity_get keepsIdentity_patch identified_SetFinalizers identified_updates cleanUpCall_tracked

lemma test_tracked:
  assumes "findsController G" and "keepsIdentity ''Test'' (Tests (trClient r))"
  shows "emits' (list_all (tracked req [''Pod''] (podIndexer G))) (TestReconciler_Reconcile r req)"
proof -
  have "test_call_property (identified ''Test'' req) r req (tracked req [''Pod''] (podIndexer G))"
    using created_tracked(1) [OF assms(1)] assms(2)
    by unfold_locales (auto intro: identity_rules)
  then show ?thesis by (rule test_call_property.reconcile_each)
qed

lemma run_tracked:
  assumes "findsController G" and "keepsIdentity ''TestRun'' (TestRuns (rrClient r))"
  shows "emits' (list_all (tracked req [''Test''] (testIndexer G))) (TestRunReconciler_Reconcile r req)"
proof -
  have "run_call_property (identified ''TestRun'' req) r req (tracked req [''Test''] (testIndexer G))"
    using created_tracked(2) [OF assms(1)] assms(2)
    by unfold_locales (auto intro: identity_rules)
  then show ?thesis by (rule run_call_property.Reconcile_calls)
qed

lemma suite_tracked:
  assumes "findsController G" and "keepsIdentity ''TestSuite'' (TestSuites (srClient r))"
  shows "emits' (list_all (tracked req [''TestRun''] (runIndexer G))) (TestSuiteReconciler_Reconcile r req)"
proof -
  have "suite_call_property (identified ''TestSuite'' req) r req (tracked req [''TestRun''] (runIndexer G))"
    using created_tracked(3) [OF assms(1)] assms(2)
    by unfold_locales (auto intro: identity_rules)
  then show ?thesis by (rule suite_call_property.Reconcile_calls)
qed

section \<open>A manager that keeps its registrations\<close>

definition sampleAdd :: "Registration \<Rightarrow> Registration list Setup" where
  "sampleAdd x m = (if List.member m x then (Some (ErrorString ''conflict''), m) else (None, m @ [x]))"

definition sampleLib :: "(Registration list, unit) ManagerLib" where
  "sampleLib =
     \<lparr>NewManager = (\<lambda>_. Inr []), GetClient = (\<lambda>_. staticClient),
      IndexField = (\<lambda>k f _. sampleAdd (IndexReg k f)),
      CompleteController = (\<lambda>b. sampleAdd (ControllerReg (bFor b))),
      AddHealthzCheck = (\<lambda>n. sampleAdd (HealthzReg n)),
      AddReadyzCheck = (\<lambda>n. sampleAdd (ReadyzReg n)),
      StartManager = (\<lambda>m. (None, m))\<rparr>"

lemma sampleAdd_registers: "registers id [x] (sampleAdd x)"
  by (simp add: registers_def sampleAdd_def)

lemma sampleLib_refuses: "refusesOnlyDuplicates sampleLib id"
  by (simp add: refusesOnlyDuplicates_def sampleLib_def sampleAdd_registers)

definition sampleController :: "ObjectMeta \<Rightarrow> OwnerReference option" where
  "sampleController meta = find (\<lambda>owner. orController owner = Some True) (OwnerReferences meta)"

lemma sampleController_finds: "findsController sampleController"
  by (simp add: findsController_def sampleController_def)

section \<open>Properties\<close>

text \<open>
  C21. The set-up has no conflict of its own: on a manager that refuses only what it has already, every
  index, controller and check of the program is registered, in this order, and the program ends as
  the manager does, with the exit code 1 exactly when starting it returns an error.
\<close>

theorem setup_registers:
  assumes "parseMain bound args = Inr flags"
    and "NewManager lib (mainOptions clientgoscheme flags) = Inr m" and "reg m = []"
    and "refusesOnlyDuplicates lib reg"
  shows "\<exists>m'. setupAll (mainSetup lib G mk) m = (None, m') \<and> reg m' = mainRegistrations \<and>
    manager_main lib G mk clientgoscheme bound args =
      Ended (if fst (StartManager lib m') = None then 0 else 1) (Some (snd (StartManager lib m')))"
proof -
  have "distinct (reg m @ mainRegistrations)" using assms(3) by (simp add: mainRegistrations_def)
  then have "fst (setupAll (mainSetup lib G mk) m) = None \<and>
      reg (snd (setupAll (mainSetup lib G mk) m)) = mainRegistrations"
    using mainSetup_registers [OF assms(4)] assms(3) by (simp add: registers_def)
  then obtain m' where m': "setupAll (mainSetup lib G mk) m = (None, m')" "reg m' = mainRegistrations"
    by (metis prod.collapse)
  moreover have "manager_main lib G mk clientgoscheme bound args =
      Ended (if fst (StartManager lib m') = None then 0 else 1) (Some (snd (StartManager lib m')))"
    using assms(1,2) m'(1) by (simp add: manager_main_def setupAll_append split: prod.split option.split)
  ultimately show ?thesis by blast
qed

theorem setup_registers_witness:
  "manager_main sampleLib sampleController (\<lambda>_. sampleSuiteReconciler) [] (\<lambda>_. None) [''--leader-elect'']
     = Ended 0 (Some mainRegistrations)"
proof -
  have "parseMain (\<lambda>_. None) [''--leader-elect''] =
      Inr \<lparr>metricsAddr = '':8080'', probeAddr = '':8081'', enableLeaderElection = True\<rparr>"
    by (simp add: parseMain_def argument_def splitAssign_def isBoolFlag_def setFlag_def
        managerFlags_def stringFlag_def boolFlag_def)
  from setup_registers [OF this _ _ sampleLib_refuses, of "[]" "[]" sampleController "\<lambda>_. sampleSuiteReconciler"]
  show ?thesis by (auto simp: sampleLib_def)
qed

text \<open>
  C14. Every object a reconciler creates for a request is of the kind that its controller owns, so that
  its changes are noticed, is in the namespace of the request, and is indexed under the name of the
  request, so that the list the reconciler makes when it serves the request again returns it.
\<close>

theorem children_tracked:
  assumes "findsController G" and "keepsIdentity ''Test'' (Tests (trClient rt))"
    and "keepsIdentity ''TestRun'' (TestRuns (rrClient rr))"
    and "keepsIdentity ''TestSuite'' (TestSuites (srClient rs))"
  shows "list_all (tracked req (bOwns (testBuilder rt)) (podIndexer G))
      (callsOf (TestReconciler_Reconcile rt req) w) \<and>
    list_all (tracked req (bOwns (testRunBuilder rr)) (testIndexer G))
      (callsOf (TestRunReconciler_Reconcile rr req) w) \<and>
    list_all (tracked req (bOwns (testSuiteBuilder c rs)) (runIndexer G))
      (callsOf (TestSuiteReconciler_Reconcile rs req) w)"
  unfolding builder_simps
  by (intro conjI emits_callsOf [OF test_tracked [OF assms(1,2)]]
      emits_callsOf [OF run_tracked [OF assms(1,3)]] emits_callsOf [OF suite_tracked [OF assms(1,4)]])

text \<open>A client that finds a Test under its own name only, and no other object.\<close>

definition namedTest :: Test where
  "namedTest = sampleTest '''' RetainNever"

definition namedTests :: "(Test, unit) ResourceClient" where
  "namedTests = (staticResource ''Test'' None [])
     \<lparr>doGet := (\<lambda>key w. (if key = \<lparr>nnNamespace = ''ns'', nnName = ''t''\<rparr> then Inr namedTest else Inl notFound, w))\<rparr>"

lemma namedTests_keep: "keepsIdentity ''Test'' namedTests"
  by (auto simp: keepsIdentity_def namedTests_def namedTest_def identified_def sampleTest_def split: if_splits)

lemma static_keep: "keepsIdentity k (staticResource k None [])"
  by (simp add: keepsIdentity_def)

theorem children_tracked_witness:
  "let r = \<lparr>trClient = staticClient\<lparr>Tests := namedTests\<rparr>, trErrRequeueDelay = Minute\<rparr>;
       req = \<lparr>nnNamespace = ''ns'', nnName = ''t''\<rparr>
   in list_all (tracked req [''Pod''] (podIndexer sampleController)) (callsOf (TestReconciler_Reconcile r req) ()) \<and>
      list_ex (\<lambda>call. case call of CreateCall obj e \<Rightarrow> True | _ \<Rightarrow> False) (callsOf (TestReconciler_Reconcile r req) ())"
proof -
  let ?r = "\<lparr>trClient = staticClient\<lparr>Tests := namedTests\<rparr>, trErrRequeueDelay = Minute\<rparr>"
  let ?req = "\<lparr>nnNamespace = ''ns'', nnName = ''t''\<rparr>"
  have "list_ex (\<lambda>call. case call of CreateCall obj e \<Rightarrow> True | _ \<Rightarrow> False) (callsOf (TestReconciler_Reconcile ?r ?req) ())"
    by (simp add: callsOf_def TestReconciler_Reconcile_def TestReconciler_active_def go_defs namedTests_def
        namedTest_def sampleTest_def GetDeletionTimestamp_def emptyMeta_def addFinalizer_def GetFinalizers_def
        ensurePending_def setTestPhase_def TestReconciler_isRunning_def choosePod_def newPod_def observePod_def
        pod_phase_defs TestPhase_IsFinal_def test_phase_defs Let_def)
  then show ?thesis
    using children_tracked [OF sampleController_finds, of ?r sampleRunReconciler sampleSuiteReconciler ?req "()" staticClient]
    by (simp add: namedTests_keep static_keep sampleSuiteReconciler_def)
qed

end
