(* ===== verification/Metrics.thy ===== *)
theory Metrics
  imports Cluster_Client
begin

text \<open>
  The metrics of the operator: the vectors that test_controller.go and testsuite_controller.go define
  and register when the program starts, and the vector and the label values of each metric call of
  the reconcilers. \<open>MustRegister\<close> panics on two vectors of the same full name, and
  \<open>WithLabelValues\<close> on a number of values that is not that of the labels.
  \<open>prometheus.BuildFQName\<close> is a parameter.
\<close>

section \<open>Vectors\<close>

definition metricNamespace :: string where
  "metricNamespace = ''konfirm''"

datatype VecKind = CounterVec | GaugeVec

record MetricVec =
  mvKind :: VecKind
  mvNamespace :: string
  mvSubsystem :: string
  mvName :: string
  mvHelp :: string
  mvLabels :: "string list"

definition passed :: MetricVec where
  "passed = \<lparr>mvKind = CounterVec, mvNamespace = metricNamespace, mvSubsystem = ''tests'', mvName = ''passed'',
     mvHelp = ''The number of Tests that have passed'', mvLabels = [''test_namespace'']\<rparr>"

definition failed :: MetricVec where
  "failed = \<lparr>mvKind = CounterVec, mvNamespace = metricNamespace, mvSubsystem = ''tests'', mvName = ''failed'',
     mvHelp = ''The number of Tests that have failed'', mvLabels = [''test_namespace'']\<rparr>"

definition suitePassing :: MetricVec where
  "suitePassing = \<lparr>mvKind = GaugeVec, mvNamespace = metricNamespace, mvSubsystem = ''testsuites'',
     mvName = ''passing'', mvHelp = ''Test Suites are passing'',
     mvLabels = [''test_namespace'', ''test_suite'']\<rparr>"

definition suiteFailing :: MetricVec where
  "suiteFailing = \<lparr>mvKind = GaugeVec, mvNamespace = metricNamespace, mvSubsystem = ''testsuites'',
     mvName = ''failing'', mvHelp = ''Test Suites are failing'',
     mvLabels = [''test_namespace'', ''test_suite'']\<rparr>"

definition suiteRuns :: MetricVec where
  "suiteRuns = \<lparr>mvKind = CounterVec, mvNamespace = metricNamespace, mvSubsystem = ''testsuites'',
     mvName = ''runs'', mvHelp = ''Number of times Test Suites have run'',
     mvLabels = [''test_namespace'', ''test_suite'']\<rparr>"

text \<open>The vectors the \<open>init\<close> functions of the two files register.\<close>

definition testRegistrations :: "MetricVec list" where
  "testRegistrations = [passed, failed]"

definition suiteRegistrations :: "MetricVec list" where
  "suiteRegistrations = [suitePassing, suiteFailing, suiteRuns]"

section \<open>Calls\<close>

fun metricVec :: "Metric \<Rightarrow> MetricVec" where
  "metricVec (PassedWithLabelValues ns) = passed"
| "metricVec (PassedInc ns) = passed"
| "metricVec (FailedInc ns) = failed"
| "metricVec (SuiteRunsWithLabelValues ns n) = suiteRuns"
| "metricVec (SuitePassingWithLabelValues ns n) = suitePassing"
| "metricVec (SuiteFailingWithLabelValues ns n) = suiteFailing"
| "metricVec (SuiteRunsInc ns n) = suiteRuns"
| "metricVec (SuitePassingSet ns n v) = suitePassing"
| "metricVec (SuiteFailingSet ns n v) = suiteFailing"

fun labelValues :: "Metric \<Rightarrow> string list" where
  "labelValues (PassedWithLabelValues ns) = [ns]"
| "labelValues (PassedInc ns) = [ns]"
| "labelValues (FailedInc ns) = [ns]"
| "labelValues (SuiteRunsWithLabelValues ns n) = [ns, n]"
| "labelValues (SuitePassingWithLabelValues ns n) = [ns, n]"
| "labelValues (SuiteFailingWithLabelValues ns n) = [ns, n]"
| "labelValues (SuiteRunsInc ns n) = [ns, n]"
| "labelValues (SuitePassingSet ns n v) = [ns, n]"
| "labelValues (SuiteFailingSet ns n v) = [ns, n]"

section \<open>Values\<close>

text \<open>
  The value a sequence of calls leaves in a metric, for a vector and label values: a counter counts
  its increments, a gauge keeps what it was last set to, and asking for a metric creates it with 0.
\<close>

definition metricStep :: "MetricVec \<times> string list \<Rightarrow> Call \<Rightarrow> int option \<Rightarrow> int option" where
  "metricStep key call v =
     (case call of
        MetricCall m \<Rightarrow>
          (if (metricVec m, labelValues m) = key then
             (let old = (case v of None \<Rightarrow> 0 | Some x \<Rightarrow> x) in
              Some (case m of
                  PassedInc _ \<Rightarrow> old + 1 | FailedInc _ \<Rightarrow> old + 1 | SuiteRunsInc _ _ \<Rightarrow> old + 1
                | SuitePassingSet _ _ x \<Rightarrow> x | SuiteFailingSet _ _ x \<Rightarrow> x | _ \<Rightarrow> old))
           else v)
      | _ \<Rightarrow> v)"

definition metricValue :: "MetricVec \<times> string list \<Rightarrow> Call list \<Rightarrow> int option \<Rightarrow> int option" where
  "metricValue key calls v = fold (metricStep key) calls v"

section \<open>Lemmas\<close>

lemmas vec_defs = passed_def failed_def suitePassing_def suiteFailing_def suiteRuns_def metricNamespace_def

text \<open>Neither \<open>MustRegister\<close> nor \<open>WithLabelValues\<close> panics.\<close>

lemma metrics_registered:
  assumes "\<And>ns sub n. ns \<noteq> '''' \<Longrightarrow> sub \<noteq> '''' \<Longrightarrow> n \<noteq> '''' \<Longrightarrow> BuildFQName ns sub n = ns @ ''_'' @ sub @ ''_'' @ n"
  shows "distinct (map (\<lambda>v. BuildFQName (mvNamespace v) (mvSubsystem v) (mvName v))
    (testRegistrations @ suiteRegistrations))"
  by (simp add: testRegistrations_def suiteRegistrations_def vec_defs assms)

lemma metrics_arity: "length (labelValues m) = length (mvLabels (metricVec m))"
  by (cases m) (simp_all add: vec_defs)

lemma metricValue_append: "metricValue key (cs @ ds) v = metricValue key ds (metricValue key cs v)"
  by (simp add: metricValue_def)

lemma metricValue_simps [simp]:
  "metricValue key [] v = v"
  "metricValue key (c # cs) v = metricValue key cs (metricStep key c v)"
  by (simp_all add: metricValue_def)

end
