(* ===== verification/Api_Server.thy ===== *)
theory Api_Server
  imports Manager Metrics
begin

text \<open>
  What the controllers rely on of the Kubernetes API server, for one namespace and without
  concurrent writers: \<open>apiServer\<close> states the documented behaviour of the client on the objects the
  server stores, and is a hypothesis of the theorems that use it. A get and a list read what is
  stored, the list in the order of creation and by the index functions the manager registers; a
  create admits an object, which names it; a patch of the metadata or the specification leaves the
  status alone and may change the generation, a patch of the status changes nothing else.

  \<open>does m w x w' M\<close> is the logic of runs: from the cluster \<open>w\<close>, \<open>m\<close> returns \<open>x\<close> and leaves \<open>w'\<close>, and
  the metric calls it makes are \<open>M\<close>; \<open>contents S w\<close> is what the server stores in \<open>w\<close>.
\<close>

section \<open>Stored objects\<close>

record ('o, 'w) Storage =
  objects :: "'w \<Rightarrow> 'o list"
  store :: "'o list \<Rightarrow> 'w \<Rightarrow> 'w"
  admit :: "'w \<Rightarrow> 'o \<Rightarrow> 'o"
  newGeneration :: "'o \<Rightarrow> 'o \<Rightarrow> int"
  absent :: "NamespacedName \<Rightarrow> error"

record 'w ApiServer =
  nsOf :: string
  podStorage :: "(Pod, 'w) Storage"
  testStorage :: "(Test, 'w) Storage"
  runStorage :: "(TestRun, 'w) Storage"
  suiteStorage :: "(TestSuite, 'w) Storage"
  controllerOf :: "ObjectMeta \<Rightarrow> OwnerReference option"

abbreviation nameOf :: "'a KObject_scheme \<Rightarrow> string" where
  "nameOf x \<equiv> Name (Meta x)"

definition findNamed :: "string \<Rightarrow> 'a KObject_scheme list \<Rightarrow> 'a KObject_scheme option" where
  "findNamed n xs = find (\<lambda>x. nameOf x = n) xs"

definition replaceNamed :: "'a KObject_scheme \<Rightarrow> 'a KObject_scheme list \<Rightarrow> 'a KObject_scheme list" where
  "replaceNamed x xs = map (\<lambda>y. if nameOf y = nameOf x then x else y) xs"

text \<open>An object with the status of another.\<close>

definition withPodStatus :: "Pod \<Rightarrow> Pod \<Rightarrow> Pod" where
  "withPodStatus s x = x\<lparr>pod_Status := pod_Status s\<rparr>"

definition withTestStatus :: "Test \<Rightarrow> Test \<Rightarrow> Test" where
  "withTestStatus s x = x\<lparr>test_Status := test_Status s\<rparr>"

definition withRunStatus :: "TestRun \<Rightarrow> TestRun \<Rightarrow> TestRun" where
  "withRunStatus s x = x\<lparr>run_Status := run_Status s\<rparr>"

definition withSuiteStatus :: "TestSuite \<Rightarrow> TestSuite \<Rightarrow> TestSuite" where
  "withSuiteStatus s x = x\<lparr>suite_Status := suite_Status s\<rparr>"

definition regenerated :: "int \<Rightarrow> 'a KObject_scheme \<Rightarrow> 'a KObject_scheme" where
  "regenerated g x = x\<lparr>Meta := (Meta x)\<lparr>Generation := g\<rparr>\<rparr>"

section \<open>The laws\<close>

definition serves ::
  "string \<Rightarrow> ('a KObject_scheme \<Rightarrow> 'a KObject_scheme \<Rightarrow> 'a KObject_scheme) \<Rightarrow> ('a KObject_scheme \<Rightarrow> string list) \<Rightarrow>
   ('a KObject_scheme, 'w) ResourceClient \<Rightarrow> ('a KObject_scheme, 'w) Storage \<Rightarrow> bool" where
  "serves ns withStatus index rc st \<longleftrightarrow>
     (\<forall>xs w. objects st (store st xs w) = xs) \<and>
     (\<forall>n w. doGet rc \<lparr>nnNamespace = ns, nnName = n\<rparr> w =
        (case findNamed n (objects st w) of
           Some x \<Rightarrow> Inr x
         | None \<Rightarrow> Inl (absent st \<lparr>nnNamespace = ns, nnName = n\<rparr>), w)) \<and>
     (\<forall>v w. doList rc [InNamespace ns, MatchingFields ''.metadata.controller'' v] w =
        (Inr (filter (\<lambda>x. v \<in> set (index x)) (objects st w)), w)) \<and>
     (\<forall>x w. Namespace (Meta x) = ns \<longrightarrow>
        doCreate rc x w = (Inr (admit st w x), store st (objects st w @ [admit st w x]) w)) \<and>
     (\<forall>new orig cur w. findNamed (nameOf new) (objects st w) = Some cur \<longrightarrow> withStatus orig cur = orig \<longrightarrow>
        GetDeletionTimestamp cur = None \<longrightarrow> UID (Meta new) = UID (Meta cur) \<longrightarrow>
        (let x = withStatus cur (regenerated (newGeneration st cur new) new) in
         doPatch rc new orig w = (Inr x, store st (replaceNamed x (objects st w)) w))) \<and>
     (\<forall>new orig cur w. findNamed (nameOf new) (objects st w) = Some cur \<longrightarrow> withStatus orig cur = cur \<longrightarrow>
        doStatusPatch rc new orig w =
          (Inr (withStatus new cur), store st (replaceNamed (withStatus new cur) (objects st w)) w))"

text \<open>What admission sets: a fresh name, the identity, the fields of the server, and the defaults.\<close>

definition admitted ::
  "string \<Rightarrow> string \<Rightarrow> ('a KObject_scheme \<Rightarrow> 'a KObject_scheme) \<Rightarrow> string list \<Rightarrow>
   'a KObject_scheme \<Rightarrow> 'a KObject_scheme \<Rightarrow> bool" where
  "admitted version kind defaults names x y \<longleftrightarrow>
     (\<exists>n u g t. n \<noteq> '''' \<and> n \<notin> set names \<and>
        y = (defaults x)\<lparr>APIVersion := version, Kind := kind,
          Meta := (Meta x)\<lparr>Name := n, UID := u, Generation := g, CreationTimestamp := t,
            DeletionTimestamp := None\<rparr>\<rparr>)"

lemma admittedD:
  assumes "admitted version kind defaults names x y"
  shows "admitted version kind defaults [] x y" and "nameOf y \<notin> set names"
  using assms by (auto simp: admitted_def)

definition admits ::
  "string \<Rightarrow> string \<Rightarrow> ('a KObject_scheme \<Rightarrow> 'a KObject_scheme) \<Rightarrow> ('a KObject_scheme, 'w) Storage \<Rightarrow> bool" where
  "admits version kind defaults st \<longleftrightarrow>
     (\<forall>w x. admitted version kind defaults (map nameOf (objects st w)) x (admit st w x))"

definition pendingPod :: "Pod \<Rightarrow> Pod" where
  "pendingPod p = p\<lparr>pod_Status := \<lparr>psPhase = PodPending, ContainerStatuses = []\<rparr>\<rparr>"

definition apart :: "('o, 'w) Storage \<Rightarrow> ('p, 'w) Storage \<Rightarrow> bool" where
  "apart a b \<longleftrightarrow>
     (\<forall>xs w. objects a (store b xs w) = objects a w) \<and> (\<forall>xs w. objects b (store a xs w) = objects b w)"

definition apiServer :: "'w Client \<Rightarrow> 'w ApiServer \<Rightarrow> bool" where
  "apiServer c S \<longleftrightarrow>
     serves (nsOf S) withPodStatus (TestReconciler_podIndex (\<lambda>p. controllerOf S (Meta p))) (Pods c) (podStorage S) \<and>
     serves (nsOf S) withTestStatus (TestRunReconciler_testIndex (\<lambda>p. controllerOf S (Meta p))) (Tests c) (testStorage S) \<and>
     serves (nsOf S) withRunStatus (TestSuiteReconciler_runIndex (\<lambda>p. controllerOf S (Meta p))) (TestRuns c) (runStorage S) \<and>
     serves (nsOf S) withSuiteStatus (\<lambda>x. []) (TestSuites c) (suiteStorage S) \<and>
     admits ''v1'' ''Pod'' pendingPod (podStorage S) \<and>
     admits GroupVersion ''Test'' id (testStorage S) \<and>
     admits GroupVersion ''TestRun'' id (runStorage S) \<and>
     apart (podStorage S) (testStorage S) \<and> apart (podStorage S) (runStorage S) \<and>
     apart (podStorage S) (suiteStorage S) \<and> apart (testStorage S) (runStorage S) \<and>
     apart (testStorage S) (suiteStorage S) \<and> apart (runStorage S) (suiteStorage S) \<and>
     findsController (controllerOf S)"

section \<open>Runs against the server\<close>

record Contents =
  cPods :: "Pod list"
  cTests :: "Test list"
  cRuns :: "TestRun list"
  cSuites :: "TestSuite list"

definition contents :: "'w ApiServer \<Rightarrow> 'w \<Rightarrow> Contents" where
  "contents S w = \<lparr>cPods = objects (podStorage S) w, cTests = objects (testStorage S) w,
     cRuns = objects (runStorage S) w, cSuites = objects (suiteStorage S) w\<rparr>"

fun isMetric :: "Call \<Rightarrow> bool" where
  "isMetric (MetricCall m) = True"
| "isMetric _ = False"

definition does :: "('w Env, 'a) state \<Rightarrow> 'w \<Rightarrow> 'a \<Rightarrow> 'w \<Rightarrow> Call list \<Rightarrow> bool" where
  "does m w x w' M \<longleftrightarrow>
     (\<forall>s. cluster s = w \<longrightarrow>
        (\<exists>s' cs. run_state m s = (x, s') \<and> cluster s' = w' \<and> trace s' = trace s @ cs \<and>
           filter isMetric cs = M))"

lemma doesI:
  assumes "\<And>s. cluster s = w \<Longrightarrow>
    \<exists>s' cs. run_state m s = (x, s') \<and> cluster s' = w' \<and> trace s' = trace s @ cs \<and> filter isMetric cs = M"
  shows "does m w x w' M"
  using assms by (simp add: does_def)

lemma does_callsOf:
  assumes "does m w x w' M"
  shows "resultOf m w = x" and "cluster (snd (run_state m \<lparr>cluster = w, trace = []\<rparr>)) = w'"
    and "filter isMetric (callsOf m w) = M"
  using assms by (auto simp: does_def resultOf_def callsOf_def dest: spec [of _ "\<lparr>cluster = w, trace = []\<rparr>"])

lemma does_ret: "does (ret x) w x w []"
  by (rule doesI) auto

lemma does_bind:
  assumes "does m w x w' M" and "does (f x) w' y w'' M'"
  shows "does (State_Monad.bind m f) w y w'' (M @ M')"
proof (rule doesI)
  fix s :: "_ Env" assume "cluster s = w"
  then obtain s' cs where 1: "run_state m s = (x, s')" "cluster s' = w'"
    "trace s' = trace s @ cs" "filter isMetric cs = M" using assms(1) by (auto simp: does_def)
  then obtain s'' ds where "run_state (f x) s' = (y, s'')" "cluster s'' = w''"
    "trace s'' = trace s' @ ds" "filter isMetric ds = M'" using assms(2) by (auto simp: does_def)
  with 1 show "\<exists>s' cs. run_state (State_Monad.bind m f) s = (y, s') \<and> cluster s' = w'' \<and>
      trace s' = trace s @ cs \<and> filter isMetric cs = M @ M'"
    by (intro exI [of _ s''] exI [of _ "cs @ ds"]) simp
qed

text \<open>The same with a first part that makes no metric call.\<close>

lemma does_then:
  "does m w x w' [] \<Longrightarrow> does (f x) w' y w'' M \<Longrightarrow> does (State_Monad.bind m f) w y w'' M"
  using does_bind [of m w x w' "[]" f y w'' M] by simp

lemma does_andThen:
  assumes "does m w (Next x) w' []" and "does (f x) w' y w'' M"
  shows "does (andThen m f) w y w'' M"
  unfolding andThen_def by (rule does_then [OF assms(1)]) (simp add: assms(2))

lemma does_metric:
  "does (f ()) w x w' M \<Longrightarrow> does (State_Monad.bind (metric m) f) w x w' (MetricCall m # M)"
  by (rule does_bind [of "metric m" w "()" w "[MetricCall m]" f x w' M, simplified])
     (auto simp: metric_def intro!: doesI)

lemma does_Event: "does (Event obj ty reason msg) w () w []"
  by (rule doesI) (auto simp: Event_def)

lemma does_perform:
  assumes "f w = (x, w')" and "\<not> isMetric (c x)"
  shows "does (perform f c) w x w' []"
proof (rule doesI)
  fix s :: "_ Env" assume "cluster s = w"
  with assms show "\<exists>s' cs. run_state (perform f c) s = (x, s') \<and> cluster s' = w' \<and>
      trace s' = trace s @ cs \<and> filter isMetric cs = []"
    by (intro exI [of _ "s\<lparr>cluster := w', trace := trace s @ [c x]\<rparr>"] exI [of _ "[c x]"]) simp
qed

section \<open>The calls at one kind\<close>

text \<open>A kind that the server serves, with its part of what is stored and the update of that part.\<close>

definition served ::
  "'w ApiServer \<Rightarrow> ('a KObject_scheme \<Rightarrow> 'a KObject_scheme \<Rightarrow> 'a KObject_scheme) \<Rightarrow> ('a KObject_scheme \<Rightarrow> string list) \<Rightarrow>
   ('a KObject_scheme, 'w) ResourceClient \<Rightarrow> ('a KObject_scheme, 'w) Storage \<Rightarrow>
   (Contents \<Rightarrow> 'a KObject_scheme list) \<Rightarrow> ('a KObject_scheme list \<Rightarrow> Contents \<Rightarrow> Contents) \<Rightarrow> bool" where
  "served S ws index rc st part put \<longleftrightarrow>
     serves (nsOf S) ws index rc st \<and> (\<forall>w. objects st w = part (contents S w)) \<and>
     (\<forall>xs w. contents S (store st xs w) = put xs (contents S w))"

abbreviation podsServed :: "'w ApiServer \<Rightarrow> 'w Client \<Rightarrow> bool" where
  "podsServed S c \<equiv> served S withPodStatus (TestReconciler_podIndex (\<lambda>p. controllerOf S (Meta p)))
     (Pods c) (podStorage S) cPods (\<lambda>xs C. C\<lparr>cPods := xs\<rparr>)"

abbreviation testsServed :: "'w ApiServer \<Rightarrow> 'w Client \<Rightarrow> bool" where
  "testsServed S c \<equiv> served S withTestStatus (TestRunReconciler_testIndex (\<lambda>p. controllerOf S (Meta p)))
     (Tests c) (testStorage S) cTests (\<lambda>xs C. C\<lparr>cTests := xs\<rparr>)"

abbreviation runsServed :: "'w ApiServer \<Rightarrow> 'w Client \<Rightarrow> bool" where
  "runsServed S c \<equiv> served S withRunStatus (TestSuiteReconciler_runIndex (\<lambda>p. controllerOf S (Meta p)))
     (TestRuns c) (runStorage S) cRuns (\<lambda>xs C. C\<lparr>cRuns := xs\<rparr>)"

abbreviation suitesServed :: "'w ApiServer \<Rightarrow> 'w Client \<Rightarrow> bool" where
  "suitesServed S c \<equiv> served S withSuiteStatus (\<lambda>x. [])
     (TestSuites c) (suiteStorage S) cSuites (\<lambda>xs C. C\<lparr>cSuites := xs\<rparr>)"

lemma apiServer_served:
  assumes "apiServer c S"
  shows "podsServed S c" and "testsServed S c" and "runsServed S c" and "suitesServed S c"
  using assms by (simp_all add: apiServer_def served_def contents_def serves_def apart_def)

lemma does_Get:
  assumes "served S ws index rc st part put" and "findNamed n (part (contents S w)) = Some x"
  shows "does (Get rc \<lparr>nnNamespace = nsOf S, nnName = n\<rparr>) w (Inr x) w []"
  unfolding Get_def
  by (rule does_perform) (use assms in \<open>auto simp: served_def serves_def\<close>)

lemma does_List:
  assumes "served S ws index rc st part put" and "k = ''.metadata.controller''"
  shows "does (ListObjs rc [InNamespace (nsOf S), MatchingFields k v]) w
    (Inr (filter (\<lambda>x. v \<in> set (index x)) (part (contents S w)))) w []"
  unfolding ListObjs_def
  by (rule does_perform) (use assms in \<open>auto simp: served_def serves_def\<close>)

text \<open>What is stored after a write is given by \<open>contents\<close>; the cluster itself stays unspecified.\<close>

lemma does_StatusPatch:
  assumes "served S ws index rc st part put" and "findNamed (nameOf new) (part (contents S w)) = Some cur"
    and "ws orig cur = cur"
  obtains w' where "does (StatusPatch toObj rc new orig) w (None, ws new cur) w' []"
    and "contents S w' = put (replaceNamed (ws new cur) (part (contents S w))) (contents S w)"
proof
  let ?w' = "store st (replaceNamed (ws new cur) (objects st w)) w"
  have p: "doStatusPatch rc new orig w = (Inr (ws new cur), ?w')"
    using assms by (auto simp: served_def serves_def)
  show "does (StatusPatch toObj rc new orig) w (None, ws new cur) ?w' []"
    unfolding StatusPatch_def by (rule does_then [OF does_perform [where f = "doStatusPatch rc new orig", OF p]]) (simp_all add: does_ret)
  show "contents S ?w' = put (replaceNamed (ws new cur) (part (contents S w))) (contents S w)"
    using assms(1) by (simp add: served_def)
qed

lemma does_Patch:
  assumes "served S ws index rc st part put" and "findNamed (nameOf new) (part (contents S w)) = Some cur"
    and "ws orig cur = orig" and "GetDeletionTimestamp cur = None" and "UID (Meta new) = UID (Meta cur)"
  obtains w' g where "does (Patch toObj rc new orig) w (None, ws cur (regenerated g new)) w' []"
    and "contents S w' = put (replaceNamed (ws cur (regenerated g new)) (part (contents S w))) (contents S w)"
proof
  let ?x = "ws cur (regenerated (newGeneration st cur new) new)"
  let ?w' = "store st (replaceNamed ?x (objects st w)) w"
  have p: "doPatch rc new orig w = (Inr ?x, ?w')"
    using assms by (auto simp: served_def serves_def Let_def)
  show "does (Patch toObj rc new orig) w (None, ?x) ?w' []"
    unfolding Patch_def by (rule does_then [OF does_perform [where f = "doPatch rc new orig", OF p]]) (simp_all add: does_ret)
  show "contents S ?w' = put (replaceNamed ?x (part (contents S w))) (contents S w)"
    using assms(1) by (simp add: served_def)
qed

lemma does_Create:
  assumes "served S ws index rc st part put" and "admits version kind defaults st"
    and "Namespace (Meta x) = nsOf S"
  obtains w' y where "does (Create toObj rc x) w (Inr y) w' []"
    and "admitted version kind defaults (map nameOf (part (contents S w))) x y"
    and "contents S w' = put (part (contents S w) @ [y]) (contents S w)"
proof
  let ?y = "admit st w x"
  let ?w' = "store st (objects st w @ [?y]) w"
  have p: "doCreate rc x w = (Inr ?y, ?w')"
    using assms(1,3) by (auto simp: served_def serves_def)
  show "does (Create toObj rc x) w (Inr ?y) ?w' []"
    unfolding Create_def by (rule does_perform [where f = "doCreate rc x", OF p]) simp
  show "admitted version kind defaults (map nameOf (part (contents S w))) x ?y"
    using assms(1,2) by (simp add: admits_def served_def)
  show "contents S ?w' = put (part (contents S w) @ [?y]) (contents S w)"
    using assms(1) by (simp add: served_def)
qed

section \<open>Lists of named objects\<close>

lemma findNamed_name: "findNamed n xs = Some x \<Longrightarrow> nameOf x = n \<and> x \<in> set xs"
  by (auto simp: findNamed_def find_Some_iff)

lemma map_nameOf_replaceNamed [simp]: "map nameOf (replaceNamed x xs) = map nameOf xs"
  by (auto simp: replaceNamed_def)

lemma findNamed_replaceNamed:
  "findNamed n (replaceNamed x xs) = (if n = nameOf x \<and> findNamed n xs \<noteq> None then Some x else findNamed n xs)"
  by (induction xs) (auto simp: findNamed_def replaceNamed_def)

lemma findNamed_append [simp]:
  "findNamed n (xs @ ys) = (case findNamed n xs of None \<Rightarrow> findNamed n ys | Some x \<Rightarrow> Some x)"
  by (induction xs) (auto simp: findNamed_def)

lemma findNamed_simps [simp]:
  "findNamed n [] = None" "findNamed n (x # xs) = (if nameOf x = n then Some x else findNamed n xs)"
  by (simp_all add: findNamed_def)

lemma findNamed_None_iff: "findNamed n xs = None \<longleftrightarrow> n \<notin> nameOf ` set xs"
  by (auto simp: findNamed_def find_None_iff)

lemma replaceNamed_twice: "nameOf y = nameOf x \<Longrightarrow> replaceNamed y (replaceNamed x xs) = replaceNamed y xs"
  by (simp add: replaceNamed_def)

lemma replaceNamed_other: "nameOf x \<notin> nameOf ` set xs \<Longrightarrow> replaceNamed x xs = xs"
  unfolding replaceNamed_def by (rule map_idI) (metis image_eqI)

lemma replaceNamed_append [simp]: "replaceNamed x (xs @ ys) = replaceNamed x xs @ replaceNamed x ys"
  by (simp add: replaceNamed_def)

lemma replaceNamed_simps [simp]:
  "replaceNamed x [] = []"
  "replaceNamed x (y # ys) = (if nameOf y = nameOf x then x else y) # replaceNamed x ys"
  by (simp_all add: replaceNamed_def)

end
