(* ===== verification/Stored_Cluster.thy ===== *)
theory Stored_Cluster
  imports Api_Server
begin

text \<open>
  An API server for one namespace that keeps its objects in lists. Its client satisfies the laws of
  \<open>apiServer\<close>, so that the theorems with this hypothesis apply to it.
\<close>

section \<open>One kind\<close>

text \<open>A name that is longer than every name in use.\<close>

definition freshName :: "string list \<Rightarrow> string" where
  "freshName names = replicate (Suc (sum_list (map length names))) CHR ''x''"

lemma freshName_fresh: "freshName names \<noteq> ''''" "freshName names \<notin> set names"
proof -
  show "freshName names \<notin> set names"
  proof
    assume "freshName names \<in> set names"
    then have "length (freshName names) \<le> sum_list (map length names)"
      by (intro member_le_sum_list) simp_all
    then show False by (simp add: freshName_def)
  qed
qed (simp add: freshName_def)

definition admitAs :: "string \<Rightarrow> string \<Rightarrow> ('a KObject_scheme \<Rightarrow> 'a KObject_scheme) \<Rightarrow> string list \<Rightarrow>
  'a KObject_scheme \<Rightarrow> 'a KObject_scheme" where
  "admitAs version kind defaults names x =
     (defaults x)\<lparr>APIVersion := version, Kind := kind,
       Meta := (Meta x)\<lparr>Name := freshName names, UID := kind @ freshName names, Generation := 1,
         CreationTimestamp := 0, DeletionTimestamp := None\<rparr>\<rparr>"

lemma admitAs_admitted: "admitted version kind defaults names x (admitAs version kind defaults names x)"
  unfolding admitted_def admitAs_def using freshName_fresh by blast

definition storedAs :: "string \<Rightarrow> string \<Rightarrow> ('a KObject_scheme \<Rightarrow> 'a KObject_scheme) \<Rightarrow>
  ('w \<Rightarrow> 'a KObject_scheme list) \<Rightarrow> ('a KObject_scheme list \<Rightarrow> 'w \<Rightarrow> 'w) \<Rightarrow> ('a KObject_scheme, 'w) Storage" where
  "storedAs version kind defaults get put =
     \<lparr>objects = get, store = put,
      admit = (\<lambda>w. admitAs version kind defaults (map nameOf (get w))),
      newGeneration = (\<lambda>cur new. Generation (Meta cur) + 1), absent = (\<lambda>_. notFound)\<rparr>"

lemma storedAs_simps [simp]:
  "objects (storedAs version kind defaults get put) = get" "store (storedAs version kind defaults get put) = put"
  by (simp_all add: storedAs_def)

lemma storedAs_admits: "admits version kind defaults (storedAs version kind defaults get put)"
  by (simp add: admits_def storedAs_def admitAs_admitted)

definition selected :: "('o \<Rightarrow> string list) \<Rightarrow> 'o \<Rightarrow> ListOption \<Rightarrow> bool" where
  "selected index x opt = (case opt of MatchingFields k v \<Rightarrow> v \<in> set (index x) | _ \<Rightarrow> True)"

text \<open>
  A patch is refused when it was not made from the object as it is stored, its status apart for a patch
  of the object, and its status alone for a patch of the status.
\<close>

definition conflict :: error where
  "conflict = StatusError ''Conflict'' ''the object has been modified''"

definition storedResource :: "string \<Rightarrow> ('a KObject_scheme \<Rightarrow> 'a KObject_scheme \<Rightarrow> 'a KObject_scheme) \<Rightarrow>
  ('a KObject_scheme \<Rightarrow> string list) \<Rightarrow> ('a KObject_scheme, 'w) Storage \<Rightarrow> ('a KObject_scheme, 'w) ResourceClient" where
  "storedResource kind withStatus index st =
     \<lparr>rcKind = kind,
      doGet = (\<lambda>k w. (case findNamed (nnName k) (objects st w) of Some x \<Rightarrow> Inr x | None \<Rightarrow> Inl (absent st k), w)),
      doList = (\<lambda>opts w. (Inr (filter (\<lambda>x. list_all (selected index x) opts) (objects st w)), w)),
      doCreate = (\<lambda>x w. (Inr (admit st w x), store st (objects st w @ [admit st w x]) w)),
      doDelete = (\<lambda>x w. (None, store st (filter (\<lambda>y. nameOf y \<noteq> nameOf x) (objects st w)) w)),
      doPatch = (\<lambda>new orig w.
        (case findNamed (nameOf new) (objects st w) of
           None \<Rightarrow> (Inl notFound, w)
         | Some cur \<Rightarrow>
             (let x = withStatus cur (regenerated (newGeneration st cur new) new) in
              if withStatus orig cur = orig then (Inr x, store st (replaceNamed x (objects st w)) w)
              else (Inl conflict, w)))),
      doStatusPatch = (\<lambda>new orig w.
        (case findNamed (nameOf new) (objects st w) of
           None \<Rightarrow> (Inl notFound, w)
         | Some cur \<Rightarrow>
             (if withStatus orig cur = cur
              then (Inr (withStatus new cur), store st (replaceNamed (withStatus new cur) (objects st w)) w)
              else (Inl conflict, w))))\<rparr>"

lemma storedResource_serves:
  assumes "\<And>xs w. objects st (store st xs w) = xs"
  shows "serves ns withStatus index (storedResource kind withStatus index st) st"
  using assms by (simp add: serves_def storedResource_def selected_def Let_def)

section \<open>The cluster\<close>

record Stored =
  podsIn :: "Pod list"
  testsIn :: "Test list"
  runsIn :: "TestRun list"
  suitesIn :: "TestSuite list"

definition storedServer :: "string \<Rightarrow> Stored ApiServer" where
  "storedServer ns =
     \<lparr>nsOf = ns,
      podStorage = storedAs ''v1'' ''Pod'' pendingPod podsIn (\<lambda>xs. podsIn_update (\<lambda>_. xs)),
      testStorage = storedAs GroupVersion ''Test'' id testsIn (\<lambda>xs. testsIn_update (\<lambda>_. xs)),
      runStorage = storedAs GroupVersion ''TestRun'' id runsIn (\<lambda>xs. runsIn_update (\<lambda>_. xs)),
      suiteStorage = storedAs GroupVersion ''TestSuite'' id suitesIn (\<lambda>xs. suitesIn_update (\<lambda>_. xs)),
      controllerOf = sampleController\<rparr>"

text \<open>It keeps no Helm policies and no secrets.\<close>

definition storedClient :: "string \<Rightarrow> Stored Client" where
  "storedClient ns =
     (let S = storedServer ns in
      \<lparr>Pods = storedResource ''Pod'' withPodStatus (TestReconciler_podIndex (\<lambda>p. controllerOf S (Meta p))) (podStorage S),
       Tests = storedResource ''Test'' withTestStatus (TestRunReconciler_testIndex (\<lambda>p. controllerOf S (Meta p))) (testStorage S),
       TestRuns = storedResource ''TestRun'' withRunStatus (TestSuiteReconciler_runIndex (\<lambda>p. controllerOf S (Meta p))) (runStorage S),
       TestSuites = storedResource ''TestSuite'' withSuiteStatus (\<lambda>_. []) (suiteStorage S),
       HelmPolicies = storedResource ''HelmPolicy'' (\<lambda>_ x. x) (\<lambda>_. [])
         (storedAs '''' ''HelmPolicy'' id (\<lambda>_. []) (\<lambda>_ w. w)),
       Secrets = storedResource ''Secret'' (\<lambda>_ x. x) (\<lambda>_. []) (storedAs ''v1'' ''Secret'' id (\<lambda>_. []) (\<lambda>_ w. w)),
       IgnoreNotFound = staticIgnoreNotFound, SetStatusCondition = staticSetCondition\<rparr>)"

lemma stored_apiServer: "apiServer (storedClient ns) (storedServer ns)"
  by (simp add: apiServer_def storedClient_def storedServer_def Let_def storedResource_serves storedAs_admits
      apart_def sampleController_finds)

section \<open>A suite of the cluster\<close>

text \<open>A suite with two templates that a user asks to run, and its reconciler.\<close>

definition storedSuite :: TestSuite where
  "storedSuite =
     (let template = \<lambda>d. \<lparr>ttDescription = d, ttRetentionPolicy = RetainNever,
            ttTemplate = \<lparr>ptMeta = emptyMeta, ptSpec = \<lparr>RestartPolicy = '''', Containers = []\<rparr>\<rparr>\<rparr>;
          suite = sampleSuite TestSuiteReady '''' '''' in
      suite\<lparr>suite_Trigger := \<lparr>NeedsRun = True\<rparr>,
        suite_Spec := (suite_Spec suite)\<lparr>tssTemplate :=
          \<lparr>trsRetentionPolicy = RetainNever, trsTests = [template ''one'', template ''two'']\<rparr>\<rparr>\<rparr>)"

definition storedWorld :: Stored where
  "storedWorld = \<lparr>podsIn = [], testsIn = [], runsIn = [], suitesIn = [storedSuite]\<rparr>"

definition storedSuiteReconciler :: "Stored TestSuiteReconciler" where
  "storedSuiteReconciler =
     \<lparr>srClient = storedClient ''ns'', srErrRequeueDelay = Minute, CronParser = (\<lambda>s. Inr (\<lambda>t. t + Minute)),
      ClockNow = (\<lambda>w. (1000 * Second, w)), spewPrint = (\<lambda>_. ''spec''), SafeEncodeString = (\<lambda>s. s),
      sortSlice = sort_key (\<lambda>run. CreationTimestamp (Meta run)), Separator = CHR ''/''\<rparr>"

end
