(* ===== verification/Lifecycle.thy ===== *)
theory Lifecycle
  imports Stored_Cluster
begin

text \<open>
  The three controllers, the API server and the kubelet together: from a TestSuite that a user asks
  to run, through its TestRun, the Tests of the run and their pods, back to the verdict in the status
  of the run and in the metrics. A step of the system is a run of one of the reconcilers of
  \<open>Test_Controller\<close>, \<open>TestRun_Controller\<close> and \<open>TestSuite_Controller\<close> on any request, or the
  kubelet's change of the status of pods (\<open>progress\<close>). The sections follow one kind of object each:
  what a reconciliation of it writes to the server, and what that makes of the next one.
\<close>

section \<open>A Test and its pod\<close>

abbreviation key :: "'w ApiServer \<Rightarrow> string \<Rightarrow> NamespacedName" where
  "key S n \<equiv> \<lparr>nnNamespace = nsOf S, nnName = n\<rparr>"

abbreviation podKeys :: "'w ApiServer \<Rightarrow> Pod \<Rightarrow> string list" where
  "podKeys S \<equiv> TestReconciler_podIndex (\<lambda>p. controllerOf S (Meta p))"

abbreviation testKeys :: "'w ApiServer \<Rightarrow> Test \<Rightarrow> string list" where
  "testKeys S \<equiv> TestRunReconciler_testIndex (\<lambda>p. controllerOf S (Meta p))"

abbreviation runKeys :: "'w ApiServer \<Rightarrow> TestRun \<Rightarrow> string list" where
  "runKeys S \<equiv> TestSuiteReconciler_runIndex (\<lambda>p. controllerOf S (Meta p))"

lemma index_keys: "podIndexKey = ''.metadata.controller''" "testIndexKey = ''.metadata.controller''"
  by (simp_all add: podIndexKey_def testIndexKey_def)

text \<open>A Test the controller works on: its own, not being deleted, with the finalizer.\<close>

definition activeTest :: "'w ApiServer \<Rightarrow> Test \<Rightarrow> bool" where
  "activeTest S t \<longleftrightarrow>
     identified ''Test'' (key S (nameOf t)) t \<and> GetDeletionTimestamp t = None \<and>
     TestControllerFinalizer \<in> set (GetFinalizers t)"

text \<open>The same Test with another status.\<close>

definition sameTest :: "Test \<Rightarrow> Test \<Rightarrow> bool" where
  "sameTest t t' \<longleftrightarrow> withTestStatus t' t = t'"

lemma sameTest_simps [simp]:
  "sameTest t t" "sameTest t (setTestPhase p t)" "sameTest t (withTestStatus s t)"
  by (simp_all add: sameTest_def withTestStatus_def setTestPhase_def)

lemma sameTest_Meta: "sameTest t t' \<Longrightarrow> Meta t' = Meta t"
  by (cases t; cases t') (auto simp: sameTest_def withTestStatus_def)

lemma sameTest_trans: "sameTest t t' \<Longrightarrow> sameTest t' t'' \<Longrightarrow> sameTest t t''"
  by (cases t; cases t'; cases t'') (simp add: sameTest_def withTestStatus_def)

lemma sameTest_active: "sameTest t t' \<Longrightarrow> activeTest S t \<Longrightarrow> activeTest S t'"
  unfolding activeTest_def sameTest_def withTestStatus_def
  by (cases t; cases t') (auto simp: identified_def GetDeletionTimestamp_def GetFinalizers_def)

lemma pending_not_starting [simp]: "TestPending \<noteq> TestStarting"
  by (simp add: test_phase_defs)

lemma addFinalizer_present:
  "f \<in> set (GetFinalizers obj) \<Longrightarrow> addFinalizer toObj rc f obj = ret ((False, None), obj)"
  by (auto simp: addFinalizer_def list_all_iff)

text \<open>A reconciliation of such a Test comes to its pods.\<close>

lemma does_test_Reconcile:
  assumes server: "apiServer (trClient r) S"
    and t: "findNamed n (cTests (contents S w)) = Some t" "activeTest S t"
    and pods: "filter (\<lambda>p. n \<in> set (podKeys S p)) (cPods (contents S w)) = pods"
    and act: "does (TestReconciler_active r t pods) w x w' M"
  shows "does (TestReconciler_Reconcile r (key S n)) w x w'
    (MetricCall (PassedWithLabelValues (nsOf S)) # MetricCall (PassedWithLabelValues (nsOf S)) # M)"
proof -
  note sv = apiServer_served [OF server]
  have ns: "Namespace (Meta t) = nsOf S" "GetDeletionTimestamp t = None"
    using t(2) by (simp_all add: activeTest_def identified_def)
  note get = does_Get [OF sv(2) t(1)]
    and list = does_List [OF sv(1) index_keys(1), of n w, unfolded pods]
  show ?thesis
    unfolding TestReconciler_Reconcile_def
    by (rule does_then [OF get], simp add: ns, intro does_metric, rule does_then [OF list], simp add: ns act)
qed

lemma test_starts:
  assumes server: "apiServer (trClient r) S"
    and t: "findNamed n (cTests (contents S w)) = Some t" "activeTest S t"
      "tstPhase (test_Status t) = ''''"
    and no_pods: "\<forall>p \<in> set (cPods (contents S w)). n \<notin> set (podKeys S p)"
  obtains w' t' p where
    "does (TestReconciler_Reconcile r (key S n)) w (emptyResult, None) w'
       [MetricCall (PassedWithLabelValues (nsOf S)), MetricCall (PassedWithLabelValues (nsOf S))]"
    and "contents S w' = (contents S w)\<lparr>cTests := replaceNamed t' (cTests (contents S w)),
      cPods := cPods (contents S w) @ [p]\<rparr>"
    and "sameTest t t'" and "tstPhase (test_Status t') = TestStarting"
    and "podKeys S p = [n]" and "GetDeletionTimestamp p = None"
proof -
  let ?c = "trClient r"
  note sv = apiServer_served [OF server]
  have n: "nameOf t = n" "Namespace (Meta t) = nsOf S" "APIVersion t = GroupVersion" "Kind t = ''Test''"
    using findNamed_name [OF t(1)] t(2) by (simp_all add: activeTest_def identified_def)
  let ?t1 = "setTestPhase TestPending t"
  obtain w1 where w1: "does (StatusPatch TestObj (Tests ?c) ?t1 t) w (None, ?t1) w1 []"
    "contents S w1 = (contents S w)\<lparr>cTests := replaceNamed ?t1 (cTests (contents S w))\<rparr>"
    by (rule does_StatusPatch [OF sv(2), where new = ?t1 and w = w and cur = t and orig = t and toObj = TestObj])
       (use t n in \<open>simp_all add: setTestPhase_def withTestStatus_def\<close>)
  have admits: "admits ''v1'' ''Pod'' pendingPod (podStorage S)" using server by (simp add: apiServer_def)
  obtain w2 p where w2: "does (Create PodObj (Pods ?c) (newPod ?t1)) w1 (Inr p) w2 []"
    "admitted ''v1'' ''Pod'' pendingPod (map nameOf (cPods (contents S w1))) (newPod ?t1) p"
    "contents S w2 = (contents S w1)\<lparr>cPods := cPods (contents S w1) @ [p]\<rparr>"
    by (rule does_Create [OF sv(1) admits, where x = "newPod ?t1" and w = w1 and toObj = PodObj])
       (simp_all add: newPod_def setTestPhase_def n)
  let ?t2 = "startingTest ?c ?t1 p"
  have same: "sameTest t ?t2"
    by (simp add: startingTest_def setTestCondition_def setTestPhase_def sameTest_def withTestStatus_def)
  have find2: "findNamed n (cTests (contents S w2)) = Some ?t1"
    using t(1) n(1) w1(2) w2(3) by (simp add: findNamed_replaceNamed setTestPhase_def)
  have st2: "withTestStatus ?t2 ?t1 = ?t2" "nameOf ?t2 = n"
    by (simp_all add: startingTest_def setTestCondition_def setTestPhase_def withTestStatus_def n)
  obtain w3 where w3: "does (StatusPatch TestObj (Tests ?c) ?t2 ?t1) w2 (None, ?t2) w3 []"
    "contents S w3 = (contents S w2)\<lparr>cTests := replaceNamed ?t2 (cTests (contents S w2))\<rparr>"
    by (rule does_StatusPatch [OF sv(2), where new = ?t2 and w = w2 and cur = ?t1 and orig = ?t1 and toObj = TestObj])
       (use find2 st2 in \<open>simp_all add: withTestStatus_def\<close>)
  have p: "psPhase (pod_Status p) = PodPending" "GetDeletionTimestamp p = None"
    "OwnerReferences (Meta p) = OwnerReferences (Meta (newPod ?t1))"
    using w2(2) by (auto simp: admitted_def pendingPod_def GetDeletionTimestamp_def)
  have keys: "podKeys S p = [n]"
    using server p(3) n
    by (auto simp: apiServer_def findsController_def TestReconciler_podIndex_def newPod_def setTestPhase_def)
  show thesis
  proof (rule that [OF _ _ same _ keys p(2)])
    have obs: "does (observePod r ?t1 p) w2 (emptyResult, None) w3 []"
      unfolding observePod_def Let_def using p(1)
      by (simp add: does_then [OF w3(1)] does_then [OF does_Event] does_ret)
    have run: "does (TestReconciler_isRunning r ?t1 []) w1 (emptyResult, None) w3 []"
      unfolding TestReconciler_isRunning_def
      by (simp add: choosePod_def does_then [OF w2(1)] obs)
    have act: "does (TestReconciler_active r t []) w (emptyResult, None) w3 []"
      using t(2,3) unfolding TestReconciler_active_def ensurePending_def activeTest_def
      by (simp add: addFinalizer_present does_then [OF w1(1)] run)
    show "does (TestReconciler_Reconcile r (key S n)) w (emptyResult, None) w3
       [MetricCall (PassedWithLabelValues (nsOf S)), MetricCall (PassedWithLabelValues (nsOf S))]"
      using no_pods by (intro does_test_Reconcile [OF server t(1,2) _ act]) (simp add: filter_empty_conv)
    show "contents S w3 = (contents S w)\<lparr>cTests := replaceNamed ?t2 (cTests (contents S w)),
      cPods := cPods (contents S w) @ [p]\<rparr>"
      using w1(2) w2(3) w3(2) st2(2) n by (simp add: replaceNamed_twice setTestPhase_def)
    show "tstPhase (test_Status ?t2) = TestStarting"
      by (simp add: startingTest_def)
  qed
qed


lemma test_decides:
  assumes server: "apiServer (trClient r) S"
    and t: "findNamed n (cTests (contents S w)) = Some t" "activeTest S t"
      "tstPhase (test_Status t) \<noteq> ''''" "\<not> TestPhase_IsFinal (tstPhase (test_Status t))"
    and pods: "filter (\<lambda>p. n \<in> set (podKeys S p)) (cPods (contents S w)) = [p]"
    and p: "GetDeletionTimestamp p = None"
      "psPhase (pod_Status p) = (if ok then PodSucceeded else PodFailed)"
  obtains w' t' where
    "does (TestReconciler_Reconcile r (key S n)) w (emptyResult, None) w'
       [MetricCall (PassedWithLabelValues (nsOf S)), MetricCall (PassedWithLabelValues (nsOf S)),
        MetricCall (if ok then PassedInc (nsOf S) else FailedInc (nsOf S))]"
    and "contents S w' = (contents S w)\<lparr>cTests := replaceNamed t' (cTests (contents S w))\<rparr>"
    and "sameTest t t'" and "tstPhase (test_Status t') = (if ok then TestPassed else TestFailed)"
proof -
  let ?c = "trClient r"
  note sv = apiServer_served [OF server]
  have n: "nameOf t = n" "Namespace (Meta t) = nsOf S"
    using findNamed_name [OF t(1)] t(2) by (simp_all add: activeTest_def identified_def)
  let ?t1 = "if ok then passedTest ?c t p else failedTest ?c t p"
  have st1: "withTestStatus ?t1 t = ?t1" "nameOf ?t1 = n" "Namespace (Meta ?t1) = nsOf S"
    using n by (simp_all add: passedTest_def failedTest_def setTestCondition_def setTestMessages_def
        setTestPhase_def withTestStatus_def)
  then have same: "sameTest t ?t1" by (simp add: sameTest_def)
  obtain w1 where w1: "does (StatusPatch TestObj (Tests ?c) ?t1 t) w (None, ?t1) w1 []"
    "contents S w1 = (contents S w)\<lparr>cTests := replaceNamed ?t1 (cTests (contents S w))\<rparr>"
    by (rule does_StatusPatch [OF sv(2), where new = ?t1 and w = w and cur = t and orig = t and toObj = TestObj])
       (use t(1) st1 in \<open>simp_all add: withTestStatus_def\<close>)
  have obs: "does (observePod r t p) w (emptyResult, None) w1
      [MetricCall (if ok then PassedInc (nsOf S) else FailedInc (nsOf S))]"
    using p(2) w1(1) st1(3) unfolding observePod_def Let_def
    by (cases ok) (auto elim!: does_then intro!: does_metric does_then [OF does_Event] does_ret)
  have chosen: "choosePod r [p] = ret (Inr (Some p))"
    using p(1) by (simp add: choosePod_def ErrorList_HasError_def)
  have act: "does (TestReconciler_active r t [p]) w (emptyResult, None) w1
      [MetricCall (if ok then PassedInc (nsOf S) else FailedInc (nsOf S))]"
    using t(2-) obs unfolding TestReconciler_active_def ensurePending_def activeTest_def
    by (simp add: addFinalizer_present TestReconciler_isRunning_def chosen)
  show thesis
  proof (rule that [OF _ _ same])
    show "does (TestReconciler_Reconcile r (key S n)) w (emptyResult, None) w1
       [MetricCall (PassedWithLabelValues (nsOf S)), MetricCall (PassedWithLabelValues (nsOf S)),
        MetricCall (if ok then PassedInc (nsOf S) else FailedInc (nsOf S))]"
      by (rule does_test_Reconcile [OF server t(1,2) pods act])
    show "contents S w1 = (contents S w)\<lparr>cTests := replaceNamed ?t1 (cTests (contents S w))\<rparr>"
      by (rule w1(2))
  qed simp
qed

section \<open>Steps of the system\<close>

text \<open>
  A step is a run of one of the reconcilers, on any request, or a change of the status of pods,
  which is what the kubelet does. \<open>progress S R w M w'\<close>: the system can go from \<open>w\<close> to \<open>w'\<close> with the
  metric calls \<open>M\<close>.
\<close>

record 'w Reconcilers =
  testReconciler :: "'w TestReconciler"
  runReconciler :: "'w TestRunReconciler"
  suiteReconciler :: "'w TestSuiteReconciler"

definition afterwards :: "('w Env, 'a) state \<Rightarrow> 'w \<Rightarrow> 'w" where
  "afterwards m w = cluster (snd (run_state m \<lparr>cluster = w, trace = []\<rparr>))"

inductive progress :: "'w ApiServer \<Rightarrow> 'w Reconcilers \<Rightarrow> 'w \<Rightarrow> Call list \<Rightarrow> 'w \<Rightarrow> bool"
  for S :: "'w ApiServer" and R :: "'w Reconcilers" where
  stay: "progress S R w [] w"
| test: "progress S R w M w' \<Longrightarrow>
    progress S R w (M @ filter isMetric (callsOf (TestReconciler_Reconcile (testReconciler R) req) w'))
      (afterwards (TestReconciler_Reconcile (testReconciler R) req) w')"
| run: "progress S R w M w' \<Longrightarrow>
    progress S R w (M @ filter isMetric (callsOf (TestRunReconciler_Reconcile (runReconciler R) req) w'))
      (afterwards (TestRunReconciler_Reconcile (runReconciler R) req) w')"
| suite: "progress S R w M w' \<Longrightarrow>
    progress S R w (M @ filter isMetric (callsOf (TestSuiteReconciler_Reconcile (suiteReconciler R) req) w'))
      (afterwards (TestSuiteReconciler_Reconcile (suiteReconciler R) req) w')"
| kubelet: "progress S R w M w' \<Longrightarrow> (\<And>p. withPodStatus (f p) p = f p) \<Longrightarrow>
    progress S R w M (store (podStorage S) (map f (objects (podStorage S) w')) w')"

lemma progress_steps:
  assumes "progress S R w M w'"
  shows "does (TestReconciler_Reconcile (testReconciler R) req) w' x w'' M' \<Longrightarrow> progress S R w (M @ M') w''"
    and "does (TestRunReconciler_Reconcile (runReconciler R) req) w' y w'' M' \<Longrightarrow> progress S R w (M @ M') w''"
    and "does (TestSuiteReconciler_Reconcile (suiteReconciler R) req) w' y w'' M' \<Longrightarrow> progress S R w (M @ M') w''"
  using progress.test [OF assms, of req] progress.run [OF assms, of req] progress.suite [OF assms, of req]
  by (auto simp: afterwards_def dest: does_callsOf(2,3))

lemma progress_kubelet:
  assumes "apiServer c S" and "progress S R w M w'" and "\<And>p. withPodStatus (f p) p = f p"
  obtains w'' where "progress S R w M w''"
    and "contents S w'' = (contents S w')\<lparr>cPods := map f (cPods (contents S w'))\<rparr>"
  using progress.kubelet [OF assms(2,3)] apiServer_served(1) [OF assms(1)] that
  by (auto simp: served_def)


text \<open>The metric calls of a Test from its creation to its verdict.\<close>

definition testMetrics :: "'w ApiServer \<Rightarrow> bool \<Rightarrow> Call list" where
  "testMetrics S ok =
     replicate 4 (MetricCall (PassedWithLabelValues (nsOf S))) @
     [MetricCall (if ok then PassedInc (nsOf S) else FailedInc (nsOf S))]"

definition finishPod :: "'w ApiServer \<Rightarrow> string \<Rightarrow> bool \<Rightarrow> Pod \<Rightarrow> Pod" where
  "finishPod S n ok p =
     (if n \<in> set (podKeys S p)
      then p\<lparr>pod_Status := \<lparr>psPhase = (if ok then PodSucceeded else PodFailed), ContainerStatuses = []\<rparr>\<rparr>
      else p)"

text \<open>A new Test gets its pod, the pod ends, and the Test gets its verdict.\<close>

lemma test_lifecycle:
  assumes server: "apiServer (trClient (testReconciler R)) S" and go: "progress S R w0 M w"
    and t: "findNamed n (cTests (contents S w)) = Some t" "activeTest S t" "tstPhase (test_Status t) = ''''"
    and no_pods: "\<forall>p \<in> set (cPods (contents S w)). n \<notin> set (podKeys S p)"
  obtains w' t' p where "progress S R w0 (M @ testMetrics S ok) w'"
    and "contents S w' = (contents S w)\<lparr>cTests := replaceNamed t' (cTests (contents S w)),
      cPods := cPods (contents S w) @ [p]\<rparr>"
    and "sameTest t t'" and "tstPhase (test_Status t') = (if ok then TestPassed else TestFailed)"
    and "podKeys S p = [n]"
proof -
  let ?pods = "cPods (contents S w)" and ?tests = "cTests (contents S w)"
  obtain w1 t1 p where 1: "does (TestReconciler_Reconcile (testReconciler R) (key S n)) w (emptyResult, None) w1
       [MetricCall (PassedWithLabelValues (nsOf S)), MetricCall (PassedWithLabelValues (nsOf S))]"
    "contents S w1 = (contents S w)\<lparr>cTests := replaceNamed t1 ?tests, cPods := ?pods @ [p]\<rparr>"
    "sameTest t t1" "tstPhase (test_Status t1) = TestStarting" "podKeys S p = [n]" "GetDeletionTimestamp p = None"
    by (rule test_starts [OF server t no_pods])
  note go1 = progress_steps(1) [OF go 1(1)]
  let ?f = "finishPod S n ok"
  have only_status: "withPodStatus (?f q) q = ?f q" for q by (simp add: finishPod_def withPodStatus_def)
  obtain w2 where 2: "progress S R w0 (M @ [MetricCall (PassedWithLabelValues (nsOf S)), MetricCall (PassedWithLabelValues (nsOf S))]) w2"
    "contents S w2 = (contents S w1)\<lparr>cPods := map ?f (cPods (contents S w1))\<rparr>"
    by (rule progress_kubelet [OF server go1 only_status])
  have "map ?f ?pods = ?pods" using no_pods by (intro map_idI) (simp add: finishPod_def)
  then have pods: "cPods (contents S w2) = ?pods @ [?f p]" using 1(2) 2(2) by simp
  have p: "podKeys S (?f p) = [n]" "GetDeletionTimestamp (?f p) = None"
    "psPhase (pod_Status (?f p)) = (if ok then PodSucceeded else PodFailed)"
    using 1(5,6) by (simp_all add: finishPod_def TestReconciler_podIndex_def GetDeletionTimestamp_def)
  have "filter (\<lambda>p. n \<in> set (podKeys S p)) ?pods = []" using no_pods by (simp add: filter_empty_conv)
  then have the_pod: "filter (\<lambda>p. n \<in> set (podKeys S p)) (cPods (contents S w2)) = [?f p]"
    using pods p(1) by simp
  have n: "nameOf t1 = n" using findNamed_name [OF t(1)] sameTest_Meta [OF 1(3)] by simp
  have t1: "findNamed n (cTests (contents S w2)) = Some t1" "activeTest S t1"
    using 1(2) 2(2) n t(1) sameTest_active [OF 1(3) t(2)] by (simp_all add: findNamed_replaceNamed)
  obtain w3 t2 where 3: "does (TestReconciler_Reconcile (testReconciler R) (key S n)) w2 (emptyResult, None) w3
       [MetricCall (PassedWithLabelValues (nsOf S)), MetricCall (PassedWithLabelValues (nsOf S)),
        MetricCall (if ok then PassedInc (nsOf S) else FailedInc (nsOf S))]"
    "contents S w3 = (contents S w2)\<lparr>cTests := replaceNamed t2 (cTests (contents S w2))\<rparr>"
    "sameTest t1 t2" "tstPhase (test_Status t2) = (if ok then TestPassed else TestFailed)"
    by (rule test_decides [OF server t1 _ _ the_pod p(2,3)]) (use 1(4) in simp_all)
  show thesis
  proof (rule that [OF _ _ _ 3(4) p(1)])
    show "progress S R w0 (M @ testMetrics S ok) w3"
      using progress_steps(1) [OF 2(1) 3(1)] by (simp add: testMetrics_def numeral_eq_Suc)
    show "sameTest t t2" by (rule sameTest_trans [OF 1(3) 3(3)])
    show "contents S w3 = (contents S w)\<lparr>cTests := replaceNamed t2 ?tests, cPods := ?pods @ [?f p]\<rparr>"
      using 1(2) 2(2) 3(2) pods sameTest_Meta [OF 3(3)] by (simp add: replaceNamed_twice)
  qed
qed

text \<open>The Tests of a run, one after the other.\<close>

lemma tests_lifecycle:
  assumes server: "apiServer (trClient (testReconciler R)) S"
    and "progress S R w0 M w" and "length verdicts = length rest"
    and "cTests (contents S w) = prior @ rest" and "distinct (map nameOf (prior @ rest))"
    and "\<forall>t \<in> set rest. activeTest S t \<and> tstPhase (test_Status t) = ''''"
    and "\<forall>p \<in> set (cPods (contents S w)). set (podKeys S p) \<inter> nameOf ` set rest = {}"
  obtains w' final where "progress S R w0 (M @ concat (map (testMetrics S) verdicts)) w'"
    and "cTests (contents S w') = prior @ final" and "list_all2 sameTest rest final"
    and "map (\<lambda>t. tstPhase (test_Status t)) final = map (\<lambda>ok. if ok then TestPassed else TestFailed) verdicts"
    and "cRuns (contents S w') = cRuns (contents S w)" and "cSuites (contents S w') = cSuites (contents S w)"
  using assms(2-)
proof (induction rest arbitrary: prior verdicts M w thesis)
  case Nil
  then show ?case by auto
next
  case (Cons t rest)
  obtain ok oks where v: "verdicts = ok # oks" "length oks = length rest"
    using Cons.prems(3) by (cases verdicts) auto
  let ?n = "nameOf t"
  have distinct: "distinct (map nameOf (prior @ t # rest))" by (rule Cons.prems(5))
  then have absent: "?n \<notin> nameOf ` set prior" "?n \<notin> nameOf ` set rest" by auto
  have find: "findNamed ?n (cTests (contents S w)) = Some t"
    using Cons.prems(4) absent(1) findNamed_None_iff [of ?n prior] by simp
  obtain w1 t' p where 1: "progress S R w0 (M @ testMetrics S ok) w1"
    "contents S w1 = (contents S w)\<lparr>cTests := replaceNamed t' (cTests (contents S w)),
      cPods := cPods (contents S w) @ [p]\<rparr>"
    "sameTest t t'" "tstPhase (test_Status t') = (if ok then TestPassed else TestFailed)" "podKeys S p = [?n]"
    by (rule test_lifecycle [OF server Cons.prems(2) find]) (use Cons.prems(6,7) in auto)
  have n': "nameOf t' = ?n" using sameTest_Meta [OF 1(3)] by simp
  have tests: "cTests (contents S w1) = (prior @ [t']) @ rest"
    using 1(2) Cons.prems(4) absent n' by (simp add: replaceNamed_other)
  obtain w' final where 2: "progress S R w0 ((M @ testMetrics S ok) @ concat (map (testMetrics S) oks)) w'"
    "cTests (contents S w') = (prior @ [t']) @ final" "list_all2 sameTest rest final"
    "map (\<lambda>t. tstPhase (test_Status t)) final = map (\<lambda>ok. if ok then TestPassed else TestFailed) oks"
    "cRuns (contents S w') = cRuns (contents S w1)" "cSuites (contents S w') = cSuites (contents S w1)"
  proof (rule Cons.IH [OF _ 1(1) v(2) tests])
    show "distinct (map nameOf ((prior @ [t']) @ rest))" using distinct n' by simp
    show "\<forall>t \<in> set rest. activeTest S t \<and> tstPhase (test_Status t) = ''''" using Cons.prems(6) by simp
    show "\<forall>p \<in> set (cPods (contents S w1)). set (podKeys S p) \<inter> nameOf ` set rest = {}"
      using Cons.prems(7) 1(2,5) absent(2) by auto
  qed
  show ?case
    by (rule Cons.prems(1) [of w' "t' # final"]) (use 1 2 v in simp_all)
qed


section \<open>A TestRun and its Tests\<close>

definition activeRun :: "'w ApiServer \<Rightarrow> TestRun \<Rightarrow> bool" where
  "activeRun S run \<longleftrightarrow> identified ''TestRun'' (key S (nameOf run)) run \<and> GetDeletionTimestamp run = None"

text \<open>The same run with another status, other finalizers and another generation.\<close>

definition sameRun :: "TestRun \<Rightarrow> TestRun \<Rightarrow> bool" where
  "sameRun run run' \<longleftrightarrow>
     APIVersion run' = APIVersion run \<and> Kind run' = Kind run \<and> run_Spec run' = run_Spec run \<and>
     (Meta run')\<lparr>Generation := 0, Finalizers := []\<rparr> = (Meta run)\<lparr>Generation := 0, Finalizers := []\<rparr>"

lemma sameRun_refl [simp]: "sameRun run run"
  by (simp add: sameRun_def)

lemma sameRun_trans: "sameRun run run' \<Longrightarrow> sameRun run' run'' \<Longrightarrow> sameRun run run''"
  by (simp add: sameRun_def)

lemma sameMeta_fields:
  assumes "m\<lparr>Generation := 0, Finalizers := []\<rparr> = m'\<lparr>Generation := 0, Finalizers := []\<rparr>"
  shows "Name m = Name m'" "Namespace m = Namespace m'" "DeletionTimestamp m = DeletionTimestamp m'"
    "OwnerReferences m = OwnerReferences m'" "UID m = UID m'"
  using arg_cong [OF assms, of Name] arg_cong [OF assms, of Namespace] arg_cong [OF assms, of DeletionTimestamp]
    arg_cong [OF assms, of OwnerReferences] arg_cong [OF assms, of UID] by simp_all

lemma sameRun_simps:
  assumes "sameRun run run'"
  shows "nameOf run' = nameOf run" "run_Spec run' = run_Spec run"
    "activeRun S run' \<longleftrightarrow> activeRun S run" "newTest run' i = newTest run i"
proof -
  have s: "APIVersion run' = APIVersion run" "Kind run' = Kind run" "run_Spec run' = run_Spec run"
    "(Meta run')\<lparr>Generation := 0, Finalizers := []\<rparr> = (Meta run)\<lparr>Generation := 0, Finalizers := []\<rparr>"
    using assms by (simp_all add: sameRun_def)
  note m = sameMeta_fields [OF s(4)]
  show "nameOf run' = nameOf run" "run_Spec run' = run_Spec run"
    "activeRun S run' \<longleftrightarrow> activeRun S run" "newTest run' i = newTest run i"
    using s(1-3) m by (simp_all add: activeRun_def identified_def GetDeletionTimestamp_def newTest_def)
qed

text \<open>A Test as the run controller created it and the server admitted it.\<close>

definition madeTest :: "TestRun \<Rightarrow> nat \<Rightarrow> Test \<Rightarrow> bool" where
  "madeTest run i t \<longleftrightarrow> admitted GroupVersion ''Test'' id [] (newTest run i) t"

lemma madeTest_simps:
  assumes "findsController (controllerOf S)" and "activeRun S run" and "madeTest run i t"
  shows "activeTest S t" and "tstPhase (test_Status t) = ''''" and "testKeys S t = [nameOf run]"
    and "GenerateName (Meta t) = GenerateName (Meta (newTest run i))" and "nameOf t \<noteq> ''''"
  using assms
  by (auto simp: madeTest_def admitted_def activeTest_def activeRun_def identified_def newTest_def
      GetDeletionTimestamp_def GetFinalizers_def findsController_def TestRunReconciler_testIndex_def)

lemma ensureTests_creates:
  assumes server: "apiServer (rrClient r) S" and "activeRun S run"
  obtains w' ts where "does (ensureTests r run items i (replicate m None) t) w (Next t) w' []"
    and "contents S w' = (contents S w)\<lparr>cTests := cTests (contents S w) @ ts\<rparr>"
    and "length ts = m" and "\<forall>k < m. madeTest run (i + k) (ts ! k)"
    and "distinct (map nameOf ts)" and "nameOf ` set ts \<inter> nameOf ` set (cTests (contents S w)) = {}"
proof (induction m arbitrary: i w thesis)
  case 0
  show ?case by (rule 0 [of w "[]"]) (simp_all add: does_ret)
next
  case (Suc m)
  have admits: "admits GroupVersion ''Test'' id (testStorage S)" using server by (simp add: apiServer_def)
  obtain w1 y where 1: "does (Create TestObj (Tests (rrClient r)) (newTest run i)) w (Inr y) w1 []"
    "admitted GroupVersion ''Test'' id (map nameOf (cTests (contents S w))) (newTest run i) y"
    "contents S w1 = (contents S w)\<lparr>cTests := cTests (contents S w) @ [y]\<rparr>"
    by (rule does_Create [OF apiServer_served(2) [OF server] admits, where x = "newTest run i" and w = w and toObj = TestObj])
       (use assms(2) in \<open>simp_all add: newTest_def activeRun_def identified_def\<close>)
  obtain w' ts where 2: "does (ensureTests r run items (Suc i) (replicate m None) t) w1 (Next t) w' []"
    "contents S w' = (contents S w1)\<lparr>cTests := cTests (contents S w1) @ ts\<rparr>"
    "length ts = m" "\<forall>k < m. madeTest run (Suc i + k) (ts ! k)" "distinct (map nameOf ts)"
    "nameOf ` set ts \<inter> nameOf ` set (cTests (contents S w1)) = {}"
    by (rule Suc.IH)
  have y: "madeTest run i y" "nameOf y \<notin> nameOf ` set (cTests (contents S w))"
    using admittedD [OF 1(2)] by (simp_all add: madeTest_def)
  show ?case
  proof (rule Suc.prems [of w' "y # ts"])
    show "does (ensureTests r run items i (replicate (Suc m) None) t) w (Next t) w' []"
      by (simp add: does_then [OF 1(1)] does_then [OF does_Event] 2(1))
    show "\<forall>k < Suc m. madeTest run (i + k) ((y # ts) ! k)"
      using y(1) 2(4) by (auto simp: less_Suc_eq_0_disj)
  qed (use 1(3) 2(2,3,5,6) y(2) in auto)
qed

text \<open>A reconciliation of such a run, by its stages.\<close>

lemma does_run_Reconcile:
  assumes server: "apiServer (rrClient r) S"
    and run: "findNamed n (cRuns (contents S w)) = Some run" "activeRun S run"
    and tests: "filter (\<lambda>t. n \<in> set (testKeys S t)) (cTests (contents S w)) = tests"
    and fin: "does (ensureRunFinalizer r run) w (Next run1) w1 []"
    and start: "does (ensureStarting r run1) w1 (Next run2) w2 []"
    and live: "GetDeletionTimestamp run2 = None"
    and act: "does (TestRunReconciler_active r run2 tests) w2 x w' M"
  shows "does (TestRunReconciler_Reconcile r (key S n)) w x w' M"
proof -
  note sv = apiServer_served [OF server]
  note get = does_Get [OF sv(3) run(1)]
    and list = does_List [OF sv(2) index_keys(2), of n w, unfolded tests]
  show ?thesis
    unfolding TestRunReconciler_Reconcile_def
    by (rule does_then [OF get], simp, rule does_then [OF list], simp, rule does_then [OF fin], simp,
        rule does_then [OF start], simp add: live act)
qed

lemma completions_empty [simp]: "completions emptyTally = 0"
  by (simp add: emptyTally_def)

lemma run_starts:
  assumes server: "apiServer (rrClient r) S"
    and run: "findNamed n (cRuns (contents S w)) = Some run" "activeRun S run"
      "trstPhase (run_Status run) = ''''" "TestRunControllerFinalizer \<notin> set (GetFinalizers run)"
    and templates: "trsTests (run_Spec run) \<noteq> []"
    and no_tests: "\<forall>t \<in> set (cTests (contents S w)). n \<notin> set (testKeys S t)"
  obtains w' run' ts where "does (TestRunReconciler_Reconcile r (key S n)) w done' w' []"
    and "contents S w' = (contents S w)\<lparr>cRuns := replaceNamed run' (cRuns (contents S w)),
      cTests := cTests (contents S w) @ ts\<rparr>"
    and "sameRun run run'" and "trstPhase (run_Status run') = TestRunRunning"
    and "TestRunControllerFinalizer \<in> set (GetFinalizers run')"
    and "length ts = length (trsTests (run_Spec run))" and "\<forall>k < length ts. madeTest run' k (ts ! k)"
    and "distinct (map nameOf ts)" and "nameOf ` set ts \<inter> nameOf ` set (cTests (contents S w)) = {}"
proof -
  let ?c = "rrClient r" and ?C = "contents S w"
  let ?N = "length (trsTests (run_Spec run))"
  note sv = apiServer_served [OF server]
  have n: "nameOf run = n" "GetDeletionTimestamp run = None"
    using findNamed_name [OF run(1)] run(2) by (simp_all add: activeRun_def)
  let ?new = "SetFinalizers (GetFinalizers run @ [TestRunControllerFinalizer]) run"
  obtain w1 g where w1: "does (Patch TestRunObj (TestRuns ?c) ?new run) w (None, withRunStatus run (regenerated g ?new)) w1 []"
    "contents S w1 = ?C\<lparr>cRuns := replaceNamed (withRunStatus run (regenerated g ?new)) (cRuns ?C)\<rparr>"
    by (rule does_Patch [OF sv(3), where new = ?new and w = w and cur = run and orig = run and toObj = TestRunObj])
       (use run(1) n in \<open>simp_all add: SetFinalizers_def withRunStatus_def\<close>)
  define run1 where "run1 = withRunStatus run (regenerated g ?new)"
  note w1 = w1 [folded run1_def]
  have r1: "sameRun run run1" "run_Status run1 = run_Status run"
    "TestRunControllerFinalizer \<in> set (GetFinalizers run1)"
    by (simp_all add: run1_def sameRun_def withRunStatus_def regenerated_def SetFinalizers_def GetFinalizers_def)
  note n1 = sameRun_simps [OF r1(1)]
  let ?run2 = "setRunPhase TestRunStarting ''Test Run is starting'' run1"
  have find1: "findNamed n (cRuns (contents S w1)) = Some run1"
    using w1(2) run(1) n n1(1) by (simp add: findNamed_replaceNamed)
  obtain w2 where w2: "does (StatusPatch TestRunObj (TestRuns ?c) ?run2 run1) w1 (None, ?run2) w2 []"
    "contents S w2 = (contents S w1)\<lparr>cRuns := replaceNamed ?run2 (cRuns (contents S w1))\<rparr>"
    by (rule does_StatusPatch [OF sv(3), where new = ?run2 and w = w1 and cur = run1 and orig = run1 and toObj = TestRunObj])
       (use find1 n n1(1) in \<open>simp_all add: setRunPhase_def withRunStatus_def\<close>)
  have r2: "sameRun run ?run2" "TestRunControllerFinalizer \<in> set (GetFinalizers ?run2)"
    using r1(1,3) by (simp_all add: setRunPhase_def sameRun_def GetFinalizers_def)
  note n2 = sameRun_simps [OF r2(1)]
  obtain w3 ts where w3: "does (ensureTests r ?run2 [] 0 (replicate ?N None) emptyTally) w2 (Next emptyTally) w3 []"
    "contents S w3 = (contents S w2)\<lparr>cTests := cTests (contents S w2) @ ts\<rparr>"
    "length ts = ?N" "\<forall>k < ?N. madeTest ?run2 (0 + k) (ts ! k)"
    "distinct (map nameOf ts)" "nameOf ` set ts \<inter> nameOf ` set (cTests (contents S w2)) = {}"
    by (rule ensureTests_creates [OF server, where run = ?run2 and items = "[]" and i = 0 and m = ?N
          and t = emptyTally and w = w2]) (simp_all add: run(2) n2(3))
  let ?run3 = "inProgressRun ?c (int ?N) emptyTally (setRunResults [] ?run2)"
  have find3: "findNamed n (cRuns (contents S w3)) = Some ?run2"
    using w2(2) w3(2) find1 n n2(1) by (simp add: findNamed_replaceNamed)
  have r3: "withRunStatus ?run3 ?run2 = ?run3" "Meta ?run3 = Meta ?run2"
    by (simp_all add: inProgressRun_def setRunCondition_def setRunPhase_def setRunResults_def withRunStatus_def)
  obtain w4 where w4: "does (StatusPatch TestRunObj (TestRuns ?c) ?run3 ?run2) w3 (None, ?run3) w4 []"
    "contents S w4 = (contents S w3)\<lparr>cRuns := replaceNamed ?run3 (cRuns (contents S w3))\<rparr>"
    by (rule does_StatusPatch [OF sv(3), where new = ?run3 and w = w3 and cur = ?run2 and orig = ?run2 and toObj = TestRunObj])
       (use find3 n n2(1) r3 in \<open>simp_all add: withRunStatus_def\<close>)
  have recorded: "does (recordRun r ?run2 ?N emptyTally) w3 done' w4 []"
    using templates by (simp add: recordRun_def Let_def does_then [OF w4(1)] does_ret)
  have running: "does (TestRunReconciler_isRunning r ?run2 []) w2 done' w4 []"
    using n2(2) by (simp add: TestRunReconciler_isRunning_def Let_def mapTests.simps does_then [OF w3(1)] recorded)
  have active: "does (TestRunReconciler_active r ?run2 []) w2 done' w4 []"
    by (simp add: TestRunReconciler_active_def handleDeleted_all_live running)
  have fin: "does (ensureRunFinalizer r run) w (Next run1) w1 []"
    using run(3,4) n(2)
    by (auto simp: ensureRunFinalizer_def addFinalizer_def list_all_iff intro!: does_then [OF w1(1)] does_ret)
  have start: "does (ensureStarting r run1) w1 (Next ?run2) w2 []"
    using run(3) r1(2) by (simp add: ensureStarting_def does_then [OF w2(1)] does_then [OF does_Event] does_ret)
  have live2: "GetDeletionTimestamp ?run2 = None"
    using run(2) n2(3) [of S] by (simp add: activeRun_def)
  have no_list: "filter (\<lambda>t. n \<in> set (testKeys S t)) (cTests ?C) = []"
    using no_tests by (simp add: filter_empty_conv)
  have same3: "sameRun ?run2 ?run3"
    by (simp add: sameRun_def inProgressRun_def setRunCondition_def setRunPhase_def setRunResults_def)
  show thesis
  proof (rule that)
    show "does (TestRunReconciler_Reconcile r (key S n)) w done' w4 []"
      by (rule does_run_Reconcile [OF server run(1,2) no_list fin start _ active]) (simp add: live2)
    show "contents S w4 = ?C\<lparr>cRuns := replaceNamed ?run3 (cRuns ?C), cTests := cTests ?C @ ts\<rparr>"
      by (rule Contents.equality)
         (simp_all add: w1(2) w2(2) w3(2) w4(2) n1(1) n2(1) r3(2) replaceNamed_twice)
    show "sameRun run ?run3" by (rule sameRun_trans [OF r2(1) same3])
    show "trstPhase (run_Status ?run3) = TestRunRunning" by (simp add: inProgressRun_def)
    show "TestRunControllerFinalizer \<in> set (GetFinalizers ?run3)" using r2(2) r3(2) by (simp add: GetFinalizers_def)
    show "\<forall>k < length ts. madeTest ?run3 k (ts ! k)"
      using w3(3,4) sameRun_simps(4) [OF r2(1)] sameRun_simps(4) [OF same3] by (simp add: madeTest_def)
  qed (use w1(2) w2(2) w3 in simp_all)
qed


lemma recordRun_does:
  assumes server: "apiServer (rrClient r) S" and run: "findNamed (nameOf run) (cRuns (contents S w)) = Some run"
    and t: "completions t = int m"
  obtains w' where "does (recordRun r run m t) w done' w' []"
    and "contents S w' = (contents S w)\<lparr>cRuns :=
      replaceNamed (verdictRun (rrClient r) t (setRunResults (tallyResults t) run)) (cRuns (contents S w))\<rparr>"
proof -
  let ?new = "verdictRun (rrClient r) t (setRunResults (tallyResults t) run)"
  have st: "withRunStatus ?new run = ?new" "nameOf ?new = nameOf run"
    by (simp_all add: verdictRun_def passedRun_def failedRun_def setRunCondition_def setRunPhase_def
        setRunResults_def withRunStatus_def Let_def)
  obtain w' where w': "does (StatusPatch TestRunObj (TestRuns (rrClient r)) ?new run) w (None, ?new) w' []"
    "contents S w' = (contents S w)\<lparr>cRuns := replaceNamed ?new (cRuns (contents S w))\<rparr>"
    by (rule does_StatusPatch [OF apiServer_served(3) [OF server], where new = ?new and w = w and cur = run
          and orig = run and toObj = TestRunObj])
       (use run st in \<open>simp_all add: withRunStatus_def\<close>)
  have "does (recordRun r run m t) w done' w' []"
    using t w'(1) unfolding recordRun_def verdictRun_def Let_def
    by (cases "failures t = 0") (auto intro!: does_then [OF does_Event] elim!: does_then simp: does_ret)
  then show thesis using that w'(2) by blast
qed

lemma run_decides:
  assumes server: "apiServer (rrClient r) S"
    and run: "findNamed n (cRuns (contents S w)) = Some run" "activeRun S run" "n \<noteq> ''''"
      "trstPhase (run_Status run) = TestRunRunning" "TestRunControllerFinalizer \<in> set (GetFinalizers run)"
    and tests: "filter (\<lambda>t. n \<in> set (testKeys S t)) (cTests (contents S w)) = ts"
      "length ts = length (trsTests (run_Spec run))" "length ts \<le> 10"
      "\<forall>k < length ts. GenerateName (Meta (ts ! k)) = GenerateName (Meta (newTest run k))"
      "\<forall>t \<in> set ts. GetDeletionTimestamp t = None"
    and verdicts: "map (\<lambda>t. tstPhase (test_Status t)) ts = map (\<lambda>ok. if ok then TestPassed else TestFailed) verdicts"
  obtains w' run' where "does (TestRunReconciler_Reconcile r (key S n)) w done' w' []"
    and "contents S w' = (contents S w)\<lparr>cRuns := replaceNamed run' (cRuns (contents S w))\<rparr>"
    and "sameRun run run'"
    and "trstPhase (run_Status run') = (if list_all id verdicts then TestRunPassed else TestRunFailed)"
    and "map resPassed (trstResults (run_Status run')) = verdicts"
    and "map resDescription (trstResults (run_Status run')) = map ttDescription (trsTests (run_Spec run))"
proof -
  let ?N = "length ts"
  have n: "nameOf run = n" using findNamed_name [OF run(1)] by simp
  have len: "length verdicts = ?N" using arg_cong [OF verdicts, of length] by simp
  have phase: "tstPhase (test_Status (ts ! k)) = (if verdicts ! k then TestPassed else TestFailed)"
    if "k < ?N" for k
    using arg_cong [OF verdicts, of "\<lambda>xs. xs ! k"] that len by simp
  have index: "testIndex (int ?N - 1) (GenerateName (Meta (ts ! k))) = Index k" if "k < ?N" for k
  proof -
    have "k mod 10 = k" using that tests(3) by simp
    then show ?thesis
      using testIndex_newTest [of run k "int ?N - 1"] that tests(4) run(3) n by simp
  qed
  have mapped: "mapTests r (int ?N - 1) 0 ts (replicate ?N None) = ret (Next (ts, map Some [0..<?N]))"
    using index by (subst mapTests_in_order) simp_all
  have final: "\<forall>k < ?N. TestPhase_IsFinal (tstPhase (test_Status (ts ! k)))" using phase by simp
  obtain t where t: "ensureTests r run ts 0 (map Some [0..<?N]) emptyTally = ret (Next t)"
    "tallyResults t = runResults run ts 0 ?N" "tallied run ?N t"
    using ensureTests_all_final [OF final _ _ tallied_empty, where r = r] tests(2) by auto
  have results: "map resPassed (tallyResults t) = verdicts"
    using phase len unfolding t(2) by (intro nth_equalityI) (auto simp: runResults_def testResult_def TestPhase_IsSuccess_def)
  have "completions t = int ?N" using t(2,3) by (simp add: tallied_def runResults_def)
  then obtain w' where w': "does (recordRun r run ?N t) w done' w' []"
    "contents S w' = (contents S w)\<lparr>cRuns :=
      replaceNamed (verdictRun (rrClient r) t (setRunResults (tallyResults t) run)) (cRuns (contents S w))\<rparr>"
    using recordRun_does [OF server, of run w t ?N] run(1) n by metis
  let ?new = "verdictRun (rrClient r) t (setRunResults (tallyResults t) run)"
  have running: "does (TestRunReconciler_isRunning r run ts) w done' w' []"
    using mapped t(1) tests(2) w'(1) by (simp add: TestRunReconciler_isRunning_def Let_def)
  have live: "GetDeletionTimestamp run = None" using run(2) by (simp add: activeRun_def)
  have active: "does (TestRunReconciler_active r run ts) w done' w' []"
    using running run(4) tests(5)
    by (simp add: TestRunReconciler_active_def handleDeleted_all_live list_all_iff)
  have fin: "does (ensureRunFinalizer r run) w (Next run) w []"
    using run(4,5) live by (simp add: ensureRunFinalizer_def addFinalizer_present does_ret)
  have start: "does (ensureStarting r run) w (Next run) w []"
    using run(4) by (simp add: ensureStarting_def does_ret)
  show thesis
  proof (rule that)
    show "does (TestRunReconciler_Reconcile r (key S n)) w done' w' []"
      by (rule does_run_Reconcile [OF server run(1,2) tests(1) fin start live active])
    show "contents S w' = (contents S w)\<lparr>cRuns := replaceNamed ?new (cRuns (contents S w))\<rparr>" by (rule w'(2))
    show "sameRun run ?new"
      by (simp add: sameRun_def verdictRun_def passedRun_def failedRun_def setRunCondition_def setRunPhase_def
          setRunResults_def Let_def)
    have "failures t = 0 \<longleftrightarrow> list_all resPassed (tallyResults t)" using t(3) by (simp add: tallied_def no_failures)
    also have "\<dots> \<longleftrightarrow> list_all id verdicts" unfolding results [symmetric] by (simp add: list.pred_map)
    finally show "trstPhase (run_Status ?new) = (if list_all id verdicts then TestRunPassed else TestRunFailed)"
      by (simp add: verdictRun_simps)
    show "map resPassed (trstResults (run_Status ?new)) = verdicts"
      using results by (simp add: verdictRun_simps setRunResults_def)
    show "map resDescription (trstResults (run_Status ?new)) = map ttDescription (trsTests (run_Spec run))"
      using t(2,3) tests(2) by (simp add: verdictRun_simps setRunResults_def tallied_def runResults_def)
  qed
qed


section \<open>A TestSuite and its run\<close>

text \<open>A suite that is triggered by hand only, is not being deleted and has the finalizer.\<close>

definition manualSuite :: "'w ApiServer \<Rightarrow> TestSuite \<Rightarrow> bool" where
  "manualSuite S suite \<longleftrightarrow>
     identified ''TestSuite'' (key S (nameOf suite)) suite \<and> GetDeletionTimestamp suite = None \<and>
     TestSuiteControllerFinalizer \<in> set (GetFinalizers suite) \<and>
     whenSchedule (tssWhen (suite_Spec suite)) = '''' \<and> whenHelmRelease (tssWhen (suite_Spec suite)) = '''' \<and>
     mapLookup (Annotations (Meta suite)) TestSuiteScheduleAnnotation = None"

definition sameSuite :: "TestSuite \<Rightarrow> TestSuite \<Rightarrow> bool" where
  "sameSuite s s' \<longleftrightarrow>
     APIVersion s' = APIVersion s \<and> Kind s' = Kind s \<and> suite_Spec s' = suite_Spec s \<and>
     (Meta s')\<lparr>Generation := 0\<rparr> = (Meta s)\<lparr>Generation := 0\<rparr>"

lemma sameSuite_refl [simp]: "sameSuite s s"
  by (simp add: sameSuite_def)

lemma sameSuite_trans: "sameSuite s s' \<Longrightarrow> sameSuite s' s'' \<Longrightarrow> sameSuite s s''"
  by (simp add: sameSuite_def)

lemma sameSuite_simps:
  assumes "sameSuite s s'"
  shows "nameOf s' = nameOf s" "suite_Spec s' = suite_Spec s" "manualSuite S s' \<longleftrightarrow> manualSuite S s"
    "newRun r s' = newRun r s"
proof -
  have s: "APIVersion s' = APIVersion s" "Kind s' = Kind s" "suite_Spec s' = suite_Spec s"
    "(Meta s')\<lparr>Generation := 0\<rparr> = (Meta s)\<lparr>Generation := 0\<rparr>"
    using assms by (simp_all add: sameSuite_def)
  have "Name (Meta s') = Name (Meta s)" "Namespace (Meta s') = Namespace (Meta s)" "UID (Meta s') = UID (Meta s)"
    "DeletionTimestamp (Meta s') = DeletionTimestamp (Meta s)" "Finalizers (Meta s') = Finalizers (Meta s)"
    "Annotations (Meta s') = Annotations (Meta s)"
    using arg_cong [OF s(4), of Name] arg_cong [OF s(4), of Namespace] arg_cong [OF s(4), of UID]
      arg_cong [OF s(4), of DeletionTimestamp] arg_cong [OF s(4), of Finalizers]
      arg_cong [OF s(4), of Annotations] by simp_all
  then show "nameOf s' = nameOf s" "suite_Spec s' = suite_Spec s" "manualSuite S s' \<longleftrightarrow> manualSuite S s"
    "newRun r s' = newRun r s"
    using s(1-3)
    by (simp_all add: manualSuite_def identified_def GetDeletionTimestamp_def GetFinalizers_def newRun_def Let_def)
qed

lemma sameSuite_updates [simp]:
  "sameSuite s (setSuiteStatus f s)" "sameSuite s (setSuiteCondition c ty st re msg s)"
  "sameSuite s (clearNextRun s)" "sameSuite s (unscheduled c s)" "sameSuite s (triggered r s trigger)"
  "sameSuite s (runStarted c n s)" "sameSuite s (runCompleted c n s)" "sameSuite s (resetTrigger s)"
  "sameSuite s (regenerated g s)"
  by (simp_all add: sameSuite_def setSuiteStatus_def setSuiteCondition_def clearNextRun_def unscheduled_def
      triggered_def runStarted_def runCompleted_def resetTrigger_def regenerated_def)

text \<open>Updates of the status only.\<close>

lemma withSuiteStatus_updates [simp]:
  "withSuiteStatus (setSuiteStatus f s) s = setSuiteStatus f s"
  "withSuiteStatus (setSuiteCondition c ty st re msg s) s = setSuiteCondition c ty st re msg s"
  "withSuiteStatus (unscheduled c s) s = unscheduled c s"
  "withSuiteStatus (triggered r s trigger) s = triggered r s trigger"
  "withSuiteStatus (runStarted c n s) s = runStarted c n s"
  "withSuiteStatus (runCompleted c n s) s = runCompleted c n s"
  "withSuiteStatus s s = s"
  by (simp_all add: withSuiteStatus_def setSuiteStatus_def setSuiteCondition_def unscheduled_def
      clearNextRun_def triggered_def runStarted_def runCompleted_def)

lemma patchSuiteStatus_does:
  assumes server: "apiServer (srClient r) S" and cur: "findNamed (nameOf new) (cSuites (contents S w)) = Some cur"
    and "withSuiteStatus orig cur = cur" and new: "withSuiteStatus new cur = new"
  obtains w' where "does (patchSuiteStatus r new orig) w (Next new) w' []"
    and "contents S w' = (contents S w)\<lparr>cSuites := replaceNamed new (cSuites (contents S w))\<rparr>"
proof -
  obtain w' where w': "does (StatusPatch TestSuiteObj (TestSuites (srClient r)) new orig) w (None, new) w' []"
    "contents S w' = (contents S w)\<lparr>cSuites := replaceNamed new (cSuites (contents S w))\<rparr>"
    by (rule does_StatusPatch [OF apiServer_served(4) [OF server], where new = new and w = w and cur = cur
          and orig = orig and toObj = TestSuiteObj]) (use assms in simp_all)
  show thesis
    by (rule that [OF _ w'(2)]) (simp add: patchSuiteStatus_def does_then [OF w'(1)] does_ret)
qed

lemma does_finish: "does m w (Next x) w' M \<Longrightarrow> does (finish m) w x w' M"
  unfolding finish_def using does_bind [of m w "Next x" w' M _ x w' "[]"] by (simp add: does_ret)

text \<open>The stages of every reconciliation of such a suite, up to its phase.\<close>

definition suiteMetrics :: "'w ApiServer \<Rightarrow> string \<Rightarrow> Call list" where
  "suiteMetrics S n = [MetricCall (SuiteRunsWithLabelValues (nsOf S) n),
     MetricCall (SuitePassingWithLabelValues (nsOf S) n), MetricCall (SuiteFailingWithLabelValues (nsOf S) n)]"

lemma does_suite_Reconcile:
  assumes server: "apiServer (srClient r) S"
    and suite: "findNamed n (cSuites (contents S w)) = Some suite" "manualSuite S suite"
    and runs: "filter (\<lambda>run. n \<in> set (runKeys S run)) (cRuns (contents S w)) = runs"
      "list_all live runs"
  obtains w1 where
    "contents S w1 = (contents S w)\<lparr>cSuites :=
       replaceNamed (unscheduled (srClient r) suite) (cSuites (contents S w))\<rparr>"
    and "\<And>x w' M. does (andThen (ensurePhase r (sortSlice r runs) (unscheduled (srClient r) suite))
         (TestSuiteReconciler_phase r (sortSlice r runs))) w1 (Next x) w' M
       \<Longrightarrow> does (TestSuiteReconciler_Reconcile r (key S n)) w x w' (suiteMetrics S n @ M)"
proof -
  note sv = apiServer_served [OF server]
  have n: "nameOf suite = n" "Namespace (Meta suite) = nsOf S" "GetDeletionTimestamp suite = None"
    using findNamed_name [OF suite(1)] suite(2) by (simp_all add: manualSuite_def identified_def)
  let ?s = "unscheduled (srClient r) suite"
  have find: "findNamed (nameOf ?s) (cSuites (contents S w)) = Some suite"
    using suite(1) n(1) sameSuite_simps(1) [of suite ?s] by simp
  obtain w1 where w1: "does (patchSuiteStatus r ?s suite) w (Next ?s) w1 []"
    "contents S w1 = (contents S w)\<lparr>cSuites := replaceNamed ?s (cSuites (contents S w))\<rparr>"
    by (rule patchSuiteStatus_does [OF server find, where orig = suite]) simp_all
  have spec: "suite_Spec ?s = suite_Spec suite" by (rule sameSuite_simps(2)) simp
  have stages: "does (TestSuiteReconciler_active r suite runs) w x w' M"
    if rest: "does (andThen (ensurePhase r (sortSlice r runs) ?s) (TestSuiteReconciler_phase r (sortSlice r runs))) w1 (Next x) w' M"
    for x w' M
    unfolding TestSuiteReconciler_active_def
  proof (rule does_finish, rule does_andThen [of _ _ suite w])
    show "does (ensureSuiteFinalizer r suite) w (Next suite) w []"
      using suite(2) by (simp add: ensureSuiteFinalizer_def manualSuite_def addFinalizer_present does_ret)
    show "does (andThen (scheduleChanged r suite) (\<lambda>suite.
       andThen (do { suite \<leftarrow> helmTriggerChanged r suite; ret (Next suite) }) (\<lambda>suite.
       andThen (TestSuite_handleDeleted r runs) (\<lambda>runs.
       let runs = sortSlice r runs in
       andThen (ensurePhase r runs suite) (TestSuiteReconciler_phase r runs))))) w (Next x) w' M"
    proof (rule does_andThen [of _ _ ?s w1])
      show "does (scheduleChanged r suite) w (Next ?s) w1 []"
        using suite(2) by (simp add: scheduleChanged_def manualSuite_def Let_def does_andThen [OF does_ret] w1(1))
      have "does (TestSuite_handleDeleted r runs) w1 (Next runs) w1 []"
        by (simp add: TestSuite_handleDeleted_def handleDeleted_all_live [OF runs(2)] does_ret)
      then show "does (andThen (do { suite \<leftarrow> helmTriggerChanged r ?s; ret (Next suite) }) (\<lambda>suite.
         andThen (TestSuite_handleDeleted r runs) (\<lambda>runs.
         let runs = sortSlice r runs in
         andThen (ensurePhase r runs suite) (TestSuiteReconciler_phase r runs)))) w1 (Next x) w' M"
        using suite(2) spec rest
        by (simp add: helmTriggerChanged_def manualSuite_def does_andThen [OF does_ret] does_andThen Let_def)
    qed
  qed
  note get = does_Get [OF sv(4) suite(1)]
    and list = does_List [OF sv(3) index_keys(2), of n w, unfolded runs(1)]
  show thesis
  proof (rule that [OF w1(2)])
    fix x w' M
    assume "does (andThen (ensurePhase r (sortSlice r runs) ?s) (TestSuiteReconciler_phase r (sortSlice r runs))) w1 (Next x) w' M"
    note active = stages [OF this]
    show "does (TestSuiteReconciler_Reconcile r (key S n)) w x w' (suiteMetrics S n @ M)"
      unfolding TestSuiteReconciler_Reconcile_def suiteMetrics_def
      by (rule does_then [OF get], simp add: n(1,2), intro does_metric, rule does_then [OF list],
          simp add: n(3) active)
  qed
qed


lemma sortSlice_small:
  assumes "\<And>xs. mset (sortSlice r xs) = mset xs"
  shows "sortSlice r [] = []" and "sortSlice r [run] = [run]"
  using assms [of "[]"] assms [of "[run]"] by simp_all

lemma unscheduled_simps [simp]:
  "NeedsRun (suite_Trigger (unscheduled c s)) = NeedsRun (suite_Trigger s)"
  "CurrentTestRun (suite_Status (unscheduled c s)) = CurrentTestRun (suite_Status s)"
  by (simp_all add: unscheduled_def setSuiteCondition_def clearNextRun_def setSuiteStatus_def)

text \<open>A suite that needs a run is triggered.\<close>

lemma suite_triggers:
  assumes server: "apiServer (srClient r) S" and sort: "\<And>xs. mset (sortSlice r xs) = mset xs"
    and suite: "findNamed n (cSuites (contents S w)) = Some suite" "manualSuite S suite"
      "suitePhase suite = TestSuiteReady" "NeedsRun (suite_Trigger suite)"
    and runs: "\<forall>run \<in> set (cRuns (contents S w)). n \<notin> set (runKeys S run)"
  obtains w' suite' where "does (TestSuiteReconciler_Reconcile r (key S n)) w done' w' (suiteMetrics S n)"
    and "contents S w' = (contents S w)\<lparr>cSuites := replaceNamed suite' (cSuites (contents S w))\<rparr>"
    and "sameSuite suite suite'" and "suitePhase suite' = TestSuiteRunning"
    and "CurrentTestRun (suite_Status suite') = ''''" and "\<not> NeedsRun (suite_Trigger suite')"
proof -
  let ?s1 = "unscheduled (srClient r) suite"
  have n: "nameOf suite = n" using findNamed_name [OF suite(1)] by simp
  have none: "filter (\<lambda>run. n \<in> set (runKeys S run)) (cRuns (contents S w)) = []"
    using runs by (simp add: filter_empty_conv)
  obtain w1 where w1: "contents S w1 = (contents S w)\<lparr>cSuites := replaceNamed ?s1 (cSuites (contents S w))\<rparr>"
    "\<And>x w' M. does (andThen (ensurePhase r (sortSlice r []) ?s1) (TestSuiteReconciler_phase r (sortSlice r [])))
         w1 (Next x) w' M
       \<Longrightarrow> does (TestSuiteReconciler_Reconcile r (key S n)) w x w' (suiteMetrics S n @ M)"
    by (rule does_suite_Reconcile [OF server suite(1,2) none]) simp_all
  have s1: "sameSuite suite ?s1" "suitePhase ?s1 = TestSuiteReady" "NeedsRun (suite_Trigger ?s1)"
    using suite(3,4) by simp_all
  note spec1 = sameSuite_simps(1,2) [OF s1(1)]
  have "manualSuite S ?s1" using suite(2) by (simp add: sameSuite_simps(3) [OF s1(1)])
  then have live1: "GetDeletionTimestamp ?s1 = None" by (simp add: manualSuite_def)
  let ?new = "resetTrigger ?s1"
  have find1: "findNamed (nameOf ?new) (cSuites (contents S w1)) = Some ?s1"
    using w1(1) suite(1) n spec1(1) by (simp add: findNamed_replaceNamed resetTrigger_def)
  obtain w2 g where w2: "does (Patch TestSuiteObj (TestSuites (srClient r)) ?new ?s1) w1
      (None, withSuiteStatus ?s1 (regenerated g ?new)) w2 []"
    "contents S w2 = (contents S w1)\<lparr>cSuites := replaceNamed (withSuiteStatus ?s1 (regenerated g ?new)) (cSuites (contents S w1))\<rparr>"
    by (rule does_Patch [OF apiServer_served(4) [OF server] find1, where orig = ?s1 and toObj = TestSuiteObj])
       (simp_all add: live1 resetTrigger_def)
  define s2 where "s2 = withSuiteStatus ?s1 (regenerated g ?new)"
  note w2 = w2 [folded s2_def]
  have s2: "sameSuite ?s1 s2" "suite_Status s2 = suite_Status ?s1" "\<not> NeedsRun (suite_Trigger s2)"
    by (simp_all add: s2_def sameSuite_def withSuiteStatus_def regenerated_def resetTrigger_def)
  let ?trigger = "\<lparr>trigReason = ''Manual'', trigMessage = ''Test suite was manually triggered'', trigPatch = ?s1\<rparr>"
  let ?s3 = "triggered r s2 ?trigger"
  have find2: "findNamed (nameOf ?s3) (cSuites (contents S w2)) = Some s2"
    using w2(2) find1 spec1(1) sameSuite_simps(1) [OF s2(1)] sameSuite_simps(1) [of s2 ?s3]
    by (simp add: findNamed_replaceNamed resetTrigger_def)
  obtain w3 where w3: "does (patchSuiteStatus r ?s3 ?s1) w2 (Next ?s3) w3 []"
    "contents S w3 = (contents S w2)\<lparr>cSuites := replaceNamed ?s3 (cSuites (contents S w2))\<rparr>"
    by (rule patchSuiteStatus_does [OF server find2, where orig = ?s1])
       (use s2(2) in \<open>simp_all add: withSuiteStatus_def\<close>, simp add: triggered_def setSuiteCondition_def setSuiteStatus_def)
  have reset: "does (patchSuite r ?new ?s1) w1 (Next s2) w2 []"
    by (simp add: patchSuite_def does_then [OF w2(1)] does_ret)
  have pull: "does (pullTrigger r (s2, ?trigger)) w2 (Next done') w3 []"
    by (simp add: pullTrigger_def does_andThen [OF w3(1)] does_then [OF does_Event] does_ret)
  have choose: "does (chooseTrigger r None None ?s1) w1 (Next (s2, ?trigger)) w2 []"
    using s1(3) by (simp add: chooseTrigger_def does_andThen [OF reset] does_ret)
  have quiet: "ensureReady r ?s1 = ret (Next ?s1)" "enforceHistory r ?s1 [] = ret (Next [])"
    "ensureSchedule r ?s1 = ret (Next (?s1, None))" "currentHelmRelease r ?s1 = ret (Next None)"
    using suite(2) s1(2) spec1(2)
    by (simp_all add: ensureReady_def enforceHistory_def ensureSchedule_def currentHelmRelease_def manualSuite_def Let_def)
  have notRunning: "does (TestSuiteReconciler_notRunning r ?s1 []) w1 done' w3 []"
    unfolding TestSuiteReconciler_notRunning_def quiet
    by (rule does_finish) (simp add: quiet does_andThen [OF does_ret] does_andThen [OF choose] pull)
  have phase: "ensurePhase r [] ?s1 = ret (Next ?s1)"
    using s1(2) by (simp add: ensurePhase_def andThen_def)
  have rest: "does (andThen (ensurePhase r (sortSlice r []) ?s1) (TestSuiteReconciler_phase r (sortSlice r [])))
      w1 (Next done') w3 []"
    using s1(2)
    by (simp add: sortSlice_small(1) [OF sort] phase does_andThen [OF does_ret] TestSuiteReconciler_phase_def
        does_then [OF notRunning] does_ret)
  have same: "sameSuite suite ?s3"
    by (rule sameSuite_trans [OF s1(1)], rule sameSuite_trans [OF s2(1)]) simp
  show thesis
  proof (rule that [OF _ _ same])
    show "does (TestSuiteReconciler_Reconcile r (key S n)) w done' w3 (suiteMetrics S n)"
      using w1(2) [OF rest] by simp
    show "contents S w3 = (contents S w)\<lparr>cSuites := replaceNamed ?s3 (cSuites (contents S w))\<rparr>"
      using sameSuite_simps(1) [OF s1(1)] sameSuite_simps(1) [OF s2(1)] sameSuite_simps(1) [of s2 ?s3]
      by (simp add: w1(1) w2(2) w3(2) replaceNamed_twice)
  qed (use s2(3) in \<open>simp_all add: triggered_def setSuiteCondition_def setSuiteStatus_def\<close>)
qed


text \<open>A run as the suite controller created it and the server admitted it.\<close>

definition madeRun :: "'w TestSuiteReconciler \<Rightarrow> TestSuite \<Rightarrow> TestRun \<Rightarrow> bool" where
  "madeRun r suite run \<longleftrightarrow> admitted GroupVersion ''TestRun'' id [] (newRun r suite) run"

lemma madeRun_simps:
  assumes "findsController (controllerOf S)" and "manualSuite S suite" and "madeRun r suite run"
  shows "activeRun S run" and "trstPhase (run_Status run) = ''''" and "runKeys S run = [nameOf suite]"
    and "TestRunControllerFinalizer \<notin> set (GetFinalizers run)" and "nameOf run \<noteq> ''''"
    and "trsTests (run_Spec run) = trsTests (tssTemplate (suite_Spec suite))"
  using assms
  by (auto simp: madeRun_def admitted_def activeRun_def manualSuite_def identified_def newRun_def Let_def
      GetDeletionTimestamp_def GetFinalizers_def findsController_def TestSuiteReconciler_runIndex_def
      TestRunControllerFinalizer_def TestSuiteControllerFinalizer_def)

lemma suite_creates:
  assumes server: "apiServer (srClient r) S" and sort: "\<And>xs. mset (sortSlice r xs) = mset xs"
    and suite: "findNamed n (cSuites (contents S w)) = Some suite" "manualSuite S suite"
      "suitePhase suite = TestSuiteRunning" "CurrentTestRun (suite_Status suite) = ''''"
    and runs: "\<forall>run \<in> set (cRuns (contents S w)). n \<notin> set (runKeys S run)"
  obtains w' suite' run where "does (TestSuiteReconciler_Reconcile r (key S n)) w done' w' (suiteMetrics S n)"
    and "contents S w' = (contents S w)\<lparr>cSuites := replaceNamed suite' (cSuites (contents S w)),
      cRuns := cRuns (contents S w) @ [run]\<rparr>"
    and "sameSuite suite suite'" and "suitePhase suite' = TestSuiteRunning"
    and "CurrentTestRun (suite_Status suite') = nameOf run" and "madeRun r suite run"
    and "nameOf run \<notin> nameOf ` set (cRuns (contents S w))"
    and "NeedsRun (suite_Trigger suite') = NeedsRun (suite_Trigger suite)"
proof -
  let ?s1 = "unscheduled (srClient r) suite"
  have n: "nameOf suite = n" using findNamed_name [OF suite(1)] by simp
  have none: "filter (\<lambda>run. n \<in> set (runKeys S run)) (cRuns (contents S w)) = []"
    using runs by (simp add: filter_empty_conv)
  obtain w1 where w1: "contents S w1 = (contents S w)\<lparr>cSuites := replaceNamed ?s1 (cSuites (contents S w))\<rparr>"
    "\<And>x w' M. does (andThen (ensurePhase r (sortSlice r []) ?s1) (TestSuiteReconciler_phase r (sortSlice r [])))
         w1 (Next x) w' M
       \<Longrightarrow> does (TestSuiteReconciler_Reconcile r (key S n)) w x w' (suiteMetrics S n @ M)"
    by (rule does_suite_Reconcile [OF server suite(1,2) none]) simp_all
  have s1: "sameSuite suite ?s1" "suitePhase ?s1 = TestSuiteRunning" "CurrentTestRun (suite_Status ?s1) = ''''"
    using suite(3,4) by simp_all
  have admits: "admits GroupVersion ''TestRun'' id (runStorage S)" using server by (simp add: apiServer_def)
  have ns: "Namespace (Meta (newRun r ?s1)) = nsOf S"
    unfolding sameSuite_simps(4) [OF s1(1)]
    using suite(2) by (simp add: newRun_def Let_def manualSuite_def identified_def)
  obtain w2 run where w2: "does (Create TestRunObj (TestRuns (srClient r)) (newRun r ?s1)) w1 (Inr run) w2 []"
    "admitted GroupVersion ''TestRun'' id (map nameOf (cRuns (contents S w1))) (newRun r ?s1) run"
    "contents S w2 = (contents S w1)\<lparr>cRuns := cRuns (contents S w1) @ [run]\<rparr>"
    by (rule does_Create [OF apiServer_served(3) [OF server] admits ns, where w = w1 and toObj = TestRunObj])
  let ?s2 = "runStarted (srClient r) (nameOf run) ?s1"
  have same: "sameSuite suite ?s2" by (rule sameSuite_trans [OF s1(1)]) simp
  have find2: "findNamed (nameOf ?s2) (cSuites (contents S w2)) = Some ?s1"
    using w1(1) w2(3) suite(1) n sameSuite_simps(1) [OF same] sameSuite_simps(1) [OF s1(1)]
    by (simp add: findNamed_replaceNamed)
  obtain w3 where w3: "does (patchSuiteStatus r ?s2 ?s1) w2 (Next ?s2) w3 []"
    "contents S w3 = (contents S w2)\<lparr>cSuites := replaceNamed ?s2 (cSuites (contents S w2))\<rparr>"
    by (rule patchSuiteStatus_does [OF server find2, where orig = ?s1])
       (simp_all add: withSuiteStatus_def unscheduled_def runStarted_def setSuiteCondition_def setSuiteStatus_def)
  have start: "does (startRun r ?s1) w1 (Next done') w3 []"
    by (simp add: startRun_def does_then [OF w2(1)] does_then [OF does_Event] does_andThen [OF w3(1)] does_ret)
  have running: "does (TestSuiteReconciler_isRunning r ?s1 []) w1 done' w3 []"
    unfolding TestSuiteReconciler_isRunning_def Let_def
    by (rule does_finish) (use s1(3) start in simp)
  have rest: "does (andThen (ensurePhase r (sortSlice r []) ?s1) (TestSuiteReconciler_phase r (sortSlice r [])))
      w1 (Next done') w3 []"
    using s1(2)
    by (simp add: sortSlice_small(1) [OF sort] ensurePhase_def does_andThen [OF does_ret]
        TestSuiteReconciler_phase_def does_then [OF running] does_ret)
  show thesis
  proof (rule that [OF _ _ same])
    show "does (TestSuiteReconciler_Reconcile r (key S n)) w done' w3 (suiteMetrics S n)"
      using w1(2) [OF rest] by simp
    show "contents S w3 = (contents S w)\<lparr>cSuites := replaceNamed ?s2 (cSuites (contents S w)),
        cRuns := cRuns (contents S w) @ [run]\<rparr>"
      using sameSuite_simps(1) [OF same] sameSuite_simps(1) [OF s1(1)]
      by (intro Contents.equality) (simp_all add: w1(1) w2(3) w3(2) replaceNamed_twice)
    show "madeRun r suite run" "nameOf run \<notin> nameOf ` set (cRuns (contents S w))"
      using admittedD [OF w2(2) [unfolded sameSuite_simps(4) [OF s1(1)]]] w1(1) by (simp_all add: madeRun_def)
  qed (use s1(2) in \<open>simp_all add: runStarted_def setSuiteCondition_def setSuiteStatus_def\<close>)
qed

text \<open>The metric calls of the suite controller when a run has ended.\<close>

definition reportMetrics :: "'w ApiServer \<Rightarrow> string \<Rightarrow> bool \<Rightarrow> Call list" where
  "reportMetrics S n ok = map MetricCall (SuiteRunsInc (nsOf S) n #
     (if ok then [SuitePassingSet (nsOf S) n 1, SuiteFailingSet (nsOf S) n 0]
      else [SuiteFailingSet (nsOf S) n 1, SuitePassingSet (nsOf S) n 0]))"

lemma suite_reports:
  assumes server: "apiServer (srClient r) S" and sort: "\<And>xs. mset (sortSlice r xs) = mset xs"
    and suite: "findNamed n (cSuites (contents S w)) = Some suite" "manualSuite S suite"
      "suitePhase suite = TestSuiteRunning" "CurrentTestRun (suite_Status suite) = nameOf run" "nameOf run \<noteq> ''''"
    and run: "filter (\<lambda>run. n \<in> set (runKeys S run)) (cRuns (contents S w)) = [run]" "GetDeletionTimestamp run = None"
      "trstPhase (run_Status run) = (if ok then TestRunPassed else TestRunFailed)"
  obtains w' suite' where
    "does (TestSuiteReconciler_Reconcile r (key S n)) w done' w' (suiteMetrics S n @ reportMetrics S n ok)"
    and "contents S w' = (contents S w)\<lparr>cSuites := replaceNamed suite' (cSuites (contents S w))\<rparr>"
    and "sameSuite suite suite'" and "suitePhase suite' = TestSuiteReady"
    and "CurrentTestRun (suite_Status suite') = ''''"
    and "NeedsRun (suite_Trigger suite') = NeedsRun (suite_Trigger suite)"
proof -
  let ?s1 = "unscheduled (srClient r) suite"
  have n: "nameOf suite = n" "Namespace (Meta suite) = nsOf S"
    using findNamed_name [OF suite(1)] suite(2) by (simp_all add: manualSuite_def identified_def)
  obtain w1 where w1: "contents S w1 = (contents S w)\<lparr>cSuites := replaceNamed ?s1 (cSuites (contents S w))\<rparr>"
    "\<And>x w' M. does (andThen (ensurePhase r (sortSlice r [run]) ?s1) (TestSuiteReconciler_phase r (sortSlice r [run])))
         w1 (Next x) w' M
       \<Longrightarrow> does (TestSuiteReconciler_Reconcile r (key S n)) w x w' (suiteMetrics S n @ M)"
    by (rule does_suite_Reconcile [OF server suite(1,2) run(1)]) (simp_all add: run(2))
  have s1: "sameSuite suite ?s1" "suitePhase ?s1 = TestSuiteRunning" "CurrentTestRun (suite_Status ?s1) = nameOf run"
    using suite(3,4) by simp_all
  let ?s2 = "runCompleted (srClient r) (nameOf run) ?s1"
  have same: "sameSuite suite ?s2" by (rule sameSuite_trans [OF s1(1)]) simp
  have find2: "findNamed (nameOf ?s2) (cSuites (contents S w1)) = Some ?s1"
    using w1(1) suite(1) n(1) sameSuite_simps(1) [OF same] sameSuite_simps(1) [OF s1(1)]
    by (simp add: findNamed_replaceNamed)
  obtain w2 where w2: "does (patchSuiteStatus r ?s2 ?s1) w1 (Next ?s2) w2 []"
    "contents S w2 = (contents S w1)\<lparr>cSuites := replaceNamed ?s2 (cSuites (contents S w1))\<rparr>"
    by (rule patchSuiteStatus_does [OF server find2, where orig = ?s1])
       (simp_all add: withSuiteStatus_def unscheduled_def runCompleted_def setSuiteCondition_def setSuiteStatus_def)
  have name2: "nameOf ?s2 = n" "Namespace (Meta ?s2) = nsOf S"
    using n by (simp_all add: unscheduled_def clearNextRun_def runCompleted_def setSuiteCondition_def setSuiteStatus_def)
  have follow: "does (followRun r ?s1 run) w1 (Next done') w2 (reportMetrics S n ok)"
    using run(3) name2 unfolding followRun_def Let_def reportMetrics_def reportRun_def
    by (cases ok) (auto intro!: does_andThen [OF w2(1)] does_metric does_then [OF does_Event] simp: does_ret)
  have running: "does (TestSuiteReconciler_isRunning r ?s1 [run]) w1 done' w2 (reportMetrics S n ok)"
    unfolding TestSuiteReconciler_isRunning_def Let_def
    by (rule does_finish) (use s1(3) suite(5) follow in simp)
  have "does (TestSuiteReconciler_phase r [run] ?s1) w1 (Next done') w2 (reportMetrics S n ok)"
    using s1(2) does_bind [OF running does_ret, of Next] by (simp add: TestSuiteReconciler_phase_def)
  then have rest: "does (andThen (ensurePhase r (sortSlice r [run]) ?s1) (TestSuiteReconciler_phase r (sortSlice r [run])))
      w1 (Next done') w2 (reportMetrics S n ok)"
    using s1(2) by (simp add: sortSlice_small(2) [OF sort] ensurePhase_def does_andThen [OF does_ret])
  show thesis
  proof (rule that [OF w1(2) [OF rest] _ same])
    show "contents S w2 = (contents S w)\<lparr>cSuites := replaceNamed ?s2 (cSuites (contents S w))\<rparr>"
      using sameSuite_simps(1) [OF same] sameSuite_simps(1) [OF s1(1)]
      by (simp add: w1(1) w2(2) replaceNamed_twice)
  qed (simp_all add: runCompleted_def setSuiteCondition_def setSuiteStatus_def)
qed


section \<open>From the trigger to the verdict\<close>

lemma final_tests:
  assumes "list_all2 sameTest ts final" and "\<forall>t \<in> set ts. activeTest S t \<and> testKeys S t = [n]"
  shows "filter (\<lambda>t. n \<in> set (testKeys S t)) final = final" and "\<forall>t \<in> set final. GetDeletionTimestamp t = None"
    and "k < length final \<Longrightarrow> Meta (final ! k) = Meta (ts ! k)"
proof -
  have nth: "sameTest (ts ! k) (final ! k)" "ts ! k \<in> set ts" if "k < length final" for k
    using assms(1) that by (auto simp: list_all2_conv_all_nth)
  show m: "k < length final \<Longrightarrow> Meta (final ! k) = Meta (ts ! k)" for k
    using nth(1) by (rule sameTest_Meta)
  have all: "\<forall>t \<in> set final. activeTest S t \<and> testKeys S t = [n]"
  proof (clarsimp simp: in_set_conv_nth)
    fix k assume k: "k < length final"
    show "activeTest S (final ! k) \<and> testKeys S (final ! k) = [n]"
      using assms(2) nth [OF k] m [OF k] sameTest_active [OF nth(1) [OF k]]
      by (auto simp: TestRunReconciler_testIndex_def)
  qed
  then show "filter (\<lambda>t. n \<in> set (testKeys S t)) final = final" by (simp add: filter_id_conv)
  show "\<forall>t \<in> set final. GetDeletionTimestamp t = None" using all by (simp add: activeTest_def)
qed

lemma run_lifecycle:
  assumes server: "apiServer (rrClient (runReconciler R)) S" "apiServer (trClient (testReconciler R)) S"
    and go: "progress S R w0 M w"
    and run: "findNamed n (cRuns (contents S w)) = Some run" "activeRun S run" "n \<noteq> ''''"
      "trstPhase (run_Status run) = ''''" "TestRunControllerFinalizer \<notin> set (GetFinalizers run)"
    and templates: "trsTests (run_Spec run) \<noteq> []" "length (trsTests (run_Spec run)) \<le> 10"
      "length verdicts = length (trsTests (run_Spec run))"
    and fresh: "cTests (contents S w) = []" "cPods (contents S w) = []"
  obtains w' run' where "progress S R w0 (M @ concat (map (testMetrics S) verdicts)) w'"
    and "cRuns (contents S w') = replaceNamed run' (cRuns (contents S w))"
    and "cSuites (contents S w') = cSuites (contents S w)" and "sameRun run run'"
    and "trstPhase (run_Status run') = (if list_all id verdicts then TestRunPassed else TestRunFailed)"
    and "map resPassed (trstResults (run_Status run')) = verdicts"
    and "map resDescription (trstResults (run_Status run')) = map ttDescription (trsTests (run_Spec run))"
proof -
  obtain w1 run1 ts where 1: "does (TestRunReconciler_Reconcile (runReconciler R) (key S n)) w done' w1 []"
    "contents S w1 = (contents S w)\<lparr>cRuns := replaceNamed run1 (cRuns (contents S w)), cTests := cTests (contents S w) @ ts\<rparr>"
    "sameRun run run1" "trstPhase (run_Status run1) = TestRunRunning"
    "TestRunControllerFinalizer \<in> set (GetFinalizers run1)" "length ts = length (trsTests (run_Spec run))"
    "\<forall>k < length ts. madeTest run1 k (ts ! k)" "distinct (map nameOf ts)"
    by (rule run_starts [OF server(1) run(1,2,4,5) templates(1)]) (use fresh(1) in simp_all)
  note go1 = progress_steps(2) [OF go 1(1), simplified]
  note same1 = sameRun_simps [OF 1(3)]
  have n: "nameOf run1 = n" using findNamed_name [OF run(1)] same1(1) by simp
  have active1: "activeRun S run1" using run(2) by (simp add: same1(3))
  have controller: "findsController (controllerOf S)" using server by (simp add: apiServer_def)
  have made: "activeTest S t \<and> tstPhase (test_Status t) = '''' \<and> testKeys S t = [n]" if "t \<in> set ts" for t
    using that 1(7) madeTest_simps [OF controller active1] n by (auto simp: in_set_conv_nth)
  obtain w2 final where 2: "progress S R w0 (M @ concat (map (testMetrics S) verdicts)) w2"
    "cTests (contents S w2) = [] @ final" "list_all2 sameTest ts final"
    "map (\<lambda>t. tstPhase (test_Status t)) final = map (\<lambda>ok. if ok then TestPassed else TestFailed) verdicts"
    "cRuns (contents S w2) = cRuns (contents S w1)" "cSuites (contents S w2) = cSuites (contents S w1)"
    by (rule tests_lifecycle [OF server(2) go1, where verdicts = verdicts and rest = ts and prior = "[]"])
       (use 1(2,6,8) templates(3) fresh made in auto)
  have final: "filter (\<lambda>t. n \<in> set (testKeys S t)) (cTests (contents S w2)) = final"
    "\<forall>t \<in> set final. GetDeletionTimestamp t = None"
    "\<forall>k < length final. GenerateName (Meta (final ! k)) = GenerateName (Meta (newTest run1 k))"
    using final_tests [OF 2(3), of S n] made 2(2) list_all2_lengthD [OF 2(3)] 1(7)
      madeTest_simps(4) [OF controller active1] by auto
  have find2: "findNamed n (cRuns (contents S w2)) = Some run1"
    using 2(5) 1(2) run(1) n by (simp add: findNamed_replaceNamed)
  obtain w3 run2 where 3: "does (TestRunReconciler_Reconcile (runReconciler R) (key S n)) w2 done' w3 []"
    "contents S w3 = (contents S w2)\<lparr>cRuns := replaceNamed run2 (cRuns (contents S w2))\<rparr>" "sameRun run1 run2"
    "trstPhase (run_Status run2) = (if list_all id verdicts then TestRunPassed else TestRunFailed)"
    "map resPassed (trstResults (run_Status run2)) = verdicts"
    "map resDescription (trstResults (run_Status run2)) = map ttDescription (trsTests (run_Spec run1))"
    by (rule run_decides [OF server(1) find2 active1 run(3) 1(4,5) final(1) _ _ final(3,2) 2(4)])
       (use 1(6) list_all2_lengthD [OF 2(3)] templates(2) in \<open>simp_all add: same1(2)\<close>)
  show thesis
  proof (rule that [OF _ _ _ sameRun_trans [OF 1(3) 3(3)] 3(4,5)])
    show "progress S R w0 (M @ concat (map (testMetrics S) verdicts)) w3"
      using progress_steps(2) [OF 2(1) 3(1)] by simp
    show "cRuns (contents S w3) = replaceNamed run2 (cRuns (contents S w))"
      using 1(2) 2(5) 3(2) sameRun_simps(1) [OF 3(3)] by (simp add: replaceNamed_twice)
  qed (use 1(2) 2(6) 3(2,6) in \<open>simp_all add: same1(2)\<close>)
qed

text \<open>The value of a metric after the calls \<open>M\<close>, 0 when it was never asked for.\<close>

fun valueOf :: "int option \<Rightarrow> int" where
  "valueOf None = 0"
| "valueOf (Some x) = x"

definition counter :: "MetricVec \<Rightarrow> string list \<Rightarrow> Call list \<Rightarrow> int" where
  "counter vec labels M = valueOf (metricValue (vec, labels) M None)"

lemma vecs_differ [simp]:
  "passed \<noteq> failed" "failed \<noteq> passed" "passed \<noteq> suiteRuns" "passed \<noteq> suitePassing" "passed \<noteq> suiteFailing"
  "failed \<noteq> suiteRuns" "failed \<noteq> suitePassing" "failed \<noteq> suiteFailing" "suiteRuns \<noteq> suitePassing"
  "suiteRuns \<noteq> suiteFailing" "suitePassing \<noteq> suiteFailing" "suiteRuns \<noteq> passed" "suiteRuns \<noteq> failed"
  "suitePassing \<noteq> passed" "suitePassing \<noteq> failed" "suitePassing \<noteq> suiteRuns" "suiteFailing \<noteq> passed"
  "suiteFailing \<noteq> failed" "suiteFailing \<noteq> suiteRuns" "suiteFailing \<noteq> suitePassing"
  by (simp_all add: vec_defs)

lemma metricValue_tests:
  "valueOf (metricValue (passed, [nsOf S]) (concat (map (testMetrics S) oks)) v) = valueOf v + int (length (filter id oks))"
  "valueOf (metricValue (failed, [nsOf S]) (concat (map (testMetrics S) oks)) v) = valueOf v + int (length (filter Not oks))"
  "vec \<noteq> passed \<Longrightarrow> vec \<noteq> failed \<Longrightarrow> metricValue (vec, ls) (concat (map (testMetrics S) oks)) v = v"
proof (induction oks arbitrary: v)
  case (Cons ok oks)
  {
    case 1
    then show ?case using Cons.IH(1)
      by (cases ok; cases v) (simp_all add: testMetrics_def metricValue_append numeral_eq_Suc metricStep_def)
  next
    case 2
    then show ?case using Cons.IH(2)
      by (cases ok; cases v) (simp_all add: testMetrics_def metricValue_append numeral_eq_Suc metricStep_def)
  next
    case 3
    then show ?case using Cons.IH(3)
      by (cases ok) (auto simp add: testMetrics_def metricValue_append numeral_eq_Suc metricStep_def)
  }
qed simp_all

lemma madeRun_keys:
  assumes "findsController (controllerOf S)" and "madeRun r suite run" and "sameRun run run'"
    and "manualSuite S suite"
  shows "runKeys S run' = [nameOf suite]"
proof -
  have "OwnerReferences (Meta run') = OwnerReferences (Meta run)"
    using assms(3) sameMeta_fields(4) [of "Meta run'" "Meta run"] by (simp add: sameRun_def)
  then show ?thesis
    using assms(1,2,4)
    by (auto simp: madeRun_def admitted_def manualSuite_def identified_def newRun_def Let_def
        findsController_def TestSuiteReconciler_runIndex_def)
qed

lemma counters_after:
  assumes "M = suiteMetrics S n @ suiteMetrics S n @ concat (map (testMetrics S) oks) @ suiteMetrics S n @ reportMetrics S n ok"
  shows "counter passed [nsOf S] M = int (length (filter id oks))"
    and "counter failed [nsOf S] M = int (length (filter Not oks))"
    and "counter suiteRuns [nsOf S, n] M = 1"
    and "counter suitePassing [nsOf S, n] M = (if ok then 1 else 0)"
    and "counter suiteFailing [nsOf S, n] M = (if ok then 0 else 1)"
  unfolding assms counter_def
  by (simp_all add: metricValue_append metricValue_tests suiteMetrics_def reportMetrics_def metricStep_def)


text \<open>The stored suite has two templates; the pod of the first succeeds and that of the second fails.\<close>

definition storedReconcilers :: "Stored Reconcilers" where
  "storedReconcilers =
     (let c = storedClient ''ns'' in
      \<lparr>testReconciler = \<lparr>trClient = c, trErrRequeueDelay = Minute\<rparr>,
       runReconciler = \<lparr>rrClient = c, rrErrRequeueDelay = Minute\<rparr>,
       suiteReconciler = storedSuiteReconciler\<rparr>)"

lemma stored_simps:
  "contents (storedServer ns) storedWorld = \<lparr>cPods = [], cTests = [], cRuns = [], cSuites = [storedSuite]\<rparr>"
  "manualSuite (storedServer ''ns'') storedSuite" "nameOf storedSuite = ''suite''"
  "suitePhase storedSuite = TestSuiteReady" "NeedsRun (suite_Trigger storedSuite)"
  "map ttDescription (trsTests (tssTemplate (suite_Spec storedSuite))) = [''one'', ''two'']"
  by (simp_all add: contents_def storedServer_def storedWorld_def storedSuite_def sampleSuite_def Let_def
      manualSuite_def identified_def GetDeletionTimestamp_def GetFinalizers_def emptyMeta_def mapLookup_def)


end
