(* ===== verification/Mock_Program.thy ===== *)
theory Mock_Program
  imports Go_Prelude
begin

text \<open>
  src/cmd/mock/main.go: the program that test pods run. From its arguments it makes an exit code
  and, when there is one, a message written to the termination log; a write that fails is ignored.
\<close>

section \<open>The program\<close>

record MockRun =
  exitCode :: int
  terminationLog :: "string option" \<comment> \<open>what is written to \<open>/dev/termination-log\<close>\<close>

definition mock_main :: "string list \<Rightarrow> MockRun" where
  "mock_main argv =
     (let argc = length argv;
          (code, message) =
            (if argc = 2 then
               (if argv ! 1 = ''--fail'' then (1, '''') else (0, argv ! 1))
             else if argc = 3 then
               ((if argv ! 1 = ''--fail'' then 1 else 0), argv ! 2)
             else (0, ''''))
      in \<lparr>exitCode = code, terminationLog = (if message \<noteq> '''' then Some message else None)\<rparr>)"

section \<open>Properties\<close>

text \<open>
  The mock program fails exactly when its first argument is \<^verbatim>\<open>--fail\<close> and it has one or two
  arguments; it writes its last argument, unless that is empty or the flag itself.
\<close>

theorem mock_behaviour:
  "exitCode (mock_main argv) = (case argv of
      [p, a] \<Rightarrow> if a = ''--fail'' then 1 else 0
    | [p, a, m] \<Rightarrow> if a = ''--fail'' then 1 else 0
    | _ \<Rightarrow> 0) \<and>
   terminationLog (mock_main argv) = (case argv of
      [p, a] \<Rightarrow> if a = ''--fail'' \<or> a = '''' then None else Some a
    | [p, a, m] \<Rightarrow> if m = '''' then None else Some m
    | _ \<Rightarrow> None)"
  by (auto simp: mock_main_def split: list.split)

end
