(* ===== verification/Suite_Writer.thy ===== *)
theory Suite_Writer
  imports Stored_Cluster
begin

text \<open>
  What the test suite reconciler relies on beyond a single call: that the suite it reads is the one
  stored, that nobody else writes the suite while it is being reconciled, and that the patches are merge
  patches (\<open>soleWriter\<close>). Calls may fail;
  a call that fails leaves the suite as it is. The hypothesis is a locale, interpreted on
  \<open>Stored_Cluster\<close>, the API server of this library.

  \<open>leads w P m Q\<close> is the logic for it: run from the cluster \<open>w\<close>, the calls of \<open>m\<close> satisfy \<open>P\<close>, and
  its value and the cluster it leaves satisfy \<open>Q\<close>. The handler is walked over once, with the relation
  between the suite in memory and the suite that is stored as the assertion between the stages.
\<close>

section \<open>A logic of runs\<close>

definition leads :: "'w \<Rightarrow> (Call \<Rightarrow> bool) \<Rightarrow> ('w Env, 'a) state \<Rightarrow> ('a \<Rightarrow> 'w \<Rightarrow> bool) \<Rightarrow> bool" where
  "leads w P m Q \<longleftrightarrow>
     (\<forall>s x s'. cluster s = w \<longrightarrow> run_state m s = (x, s') \<longrightarrow>
        Q x (cluster s') \<and> (\<exists>cs. trace s' = trace s @ cs \<and> list_all P cs))"

lemma leadsD:
  assumes "leads w P m Q" and "cluster s = w" and "run_state m s = (x, s')"
  shows "Q x (cluster s')" and "\<exists>cs. trace s' = trace s @ cs \<and> list_all P cs"
  using assms unfolding leads_def by blast+

lemma leadsI:
  assumes "\<And>s x s'. cluster s = w \<Longrightarrow> run_state m s = (x, s') \<Longrightarrow>
    Q x (cluster s') \<and> (\<exists>cs. trace s' = trace s @ cs \<and> list_all P cs)"
  shows "leads w P m Q"
  using assms by (simp add: leads_def)

lemma leads_mono: "leads w P m Q \<Longrightarrow> (\<And>x w'. Q x w' \<Longrightarrow> Q' x w') \<Longrightarrow> leads w P m Q'"
  by (auto simp: leads_def)

lemma leads_ret: "Q x w \<Longrightarrow> leads w P (ret x) Q"
  by (rule leadsI) auto

lemma leads_bind:
  assumes m: "leads w P m S" and f: "\<And>x w'. S x w' \<Longrightarrow> leads w' P (f x) Q"
  shows "leads w P (State_Monad.bind m f) Q"
proof (rule leadsI)
  fix s y s''
  assume s: "cluster s = w" and run: "run_state (State_Monad.bind m f) s = (y, s'')"
  obtain x s' where 1: "run_state m s = (x, s')" by fastforce
  with run have 2: "run_state (f x) s' = (y, s'')" by simp
  from leadsD [OF m s 1] obtain cs where cs: "S x (cluster s')" "trace s' = trace s @ cs" "list_all P cs"
    by blast
  from leadsD [OF f [OF cs(1)] refl 2] obtain ds where
    "Q y (cluster s'')" "trace s'' = trace s' @ ds" "list_all P ds" by blast
  with cs show "Q y (cluster s'') \<and> (\<exists>cs. trace s'' = trace s @ cs \<and> list_all P cs)"
    by (intro conjI exI [of _ "cs @ ds"]) simp_all
qed

lemma leads_perform:
  assumes "\<And>x w'. f w = (x, w') \<Longrightarrow> Q x w' \<and> P (c x)"
  shows "leads w P (perform f c) Q"
proof (rule leadsI)
  fix s x s'
  assume "cluster s = w" and "run_state (perform f c) s = (x, s')"
  then show "Q x (cluster s') \<and> (\<exists>cs. trace s' = trace s @ cs \<and> list_all P cs)"
    using assms [of x "snd (f w)"] by (cases "f w") auto
qed

lemma leads_if:
  "(b \<Longrightarrow> leads w P m Q) \<Longrightarrow> (\<not> b \<Longrightarrow> leads w P n Q) \<Longrightarrow> leads w P (if b then m else n) Q"
  by simp

text \<open>What is known of a stage: an assertion when it goes on, a fact on the outcome when it has ended.\<close>

abbreviation stage :: "('a \<Rightarrow> 'w \<Rightarrow> bool) \<Rightarrow> (Outcome \<Rightarrow> bool) \<Rightarrow> 'a Step \<Rightarrow> 'w \<Rightarrow> bool" where
  "stage S X st w \<equiv> stepOk (\<lambda>a. S a w) X st"

lemma leads_andThen:
  assumes "leads w P m (stage S X)" and "\<And>a w'. S a w' \<Longrightarrow> leads w' P (f a) (stage S' X)"
  shows "leads w P (andThen m f) (stage S' X)"
  unfolding andThen_def
proof (rule leads_bind [OF assms(1)])
  fix st w'
  assume "stage S X st w'"
  then show "leads w' P (case st of Next a \<Rightarrow> f a | Exit out \<Rightarrow> ret (Exit out)) (stage S' X)"
    by (cases st) (auto intro: leads_ret assms(2))
qed

lemma leads_finish: "leads w P m (stage (\<lambda>out _. X out) X) \<Longrightarrow> leads w P (finish m) (\<lambda>out _. X out)"
  unfolding finish_def by (erule leads_bind) (auto intro!: leads_ret split: Step.splits)

text \<open>From the two logics that do not follow the cluster, and with what a body leaves alone.\<close>

definition keeps :: "('w \<Rightarrow> 'b) \<Rightarrow> ('w Env, 'a) state \<Rightarrow> bool" where
  "keeps f m \<longleftrightarrow> (\<forall>s. f (cluster (snd (run_state m s))) = f (cluster s))"

lemma leads_emits:
  assumes "emits' (list_all P) m" and "returns m R" and "keeps f m"
  shows "leads w P m (\<lambda>x w'. R x \<and> f w' = f w)"
proof (rule leadsI)
  fix s x s'
  assume "cluster s = w" and run: "run_state m s = (x, s')"
  with assms(2,3) emitsD(2) [OF assms(1) run]
  show "(R x \<and> f (cluster s') = f w) \<and> (\<exists>cs. trace s' = trace s @ cs \<and> list_all P cs)"
    unfolding returns_def keeps_def by (metis fst_conv snd_conv)
qed

lemma leads_returns:
  assumes "emits' (list_all P) m" and "returns m R"
  shows "leads w P m (\<lambda>x _. R x)"
  using leads_emits [OF assms, of "\<lambda>_. ()" w] by (simp add: keeps_def)

lemma keeps_ret: "keeps f (ret x)"
  by (simp add: keeps_def)

lemma keeps_bind: "keeps f m \<Longrightarrow> (\<And>x. keeps f (g x)) \<Longrightarrow> keeps f (State_Monad.bind m g)"
  by (auto simp: keeps_def split: prod.split) (metis snd_conv)

lemma keeps_perform: "(\<And>w. f (snd (g w)) = f w) \<Longrightarrow> keeps f (perform g c)"
  by (auto simp: keeps_def split: prod.split) (metis snd_conv)

lemma keeps_cases:
  "keeps f m \<Longrightarrow> keeps f n \<Longrightarrow> keeps f (if b then m else n)"
  "keeps f m \<Longrightarrow> (\<And>y. keeps f (g y)) \<Longrightarrow> keeps f (case o' of None \<Rightarrow> m | Some y \<Rightarrow> g y)"
  "(\<And>a b. keeps f (h a b)) \<Longrightarrow> keeps f (case p of (a, b) \<Rightarrow> h a b)"
  "(\<And>a b. keeps f (h' a b y)) \<Longrightarrow> keeps f ((case p of (a, b) \<Rightarrow> h' a b) y)"
  by (auto split: option.split prod.split)

lemmas keeps_rules = keeps_ret keeps_bind keeps_cases

text \<open>The helpers, on a kind whose deletions and patches leave \<open>f\<close> alone.\<close>

locale undisturbed =
  fixes f :: "'w \<Rightarrow> 'b" and rc :: "('a KObject_scheme, 'w) ResourceClient"
  assumes deletes: "f (snd (doDelete rc obj w)) = f w"
    and patches: "f (snd (doPatch rc new orig w)) = f w"
begin

lemma removeFinalizer_keeps: "keeps f (removeFinalizer toObj rc finalizer obj)"
  unfolding removeFinalizer_def Let_def Patch_def
  by (intro keeps_rules keeps_perform patches)

lemma cleanUp_keeps: "keeps f (cleanUp c toObj rc finalizer obj)"
  unfolding cleanUp_def cleanUpFinalizer_def Delete_def
  by (intro keeps_rules keeps_perform deletes removeFinalizer_keeps)

lemma cleanUpLoop_keeps: "keeps f (cleanUpLoop c toObj rc finalizer objs m errs)"
  by (induction objs arbitrary: m errs) (auto intro!: keeps_rules cleanUp_keeps)

lemma cleanUpAll_keeps: "keeps f (cleanUpAll c toObj rc finalizer objs)"
  unfolding cleanUpAll_def by (intro keeps_rules cleanUpLoop_keeps)

lemma compact_keeps:
  "rc' = rc \<Longrightarrow> keeps f (compactOuter toObj rc' finalizer i j items)"
  "rc' = rc \<Longrightarrow> keeps f (compactInner toObj rc' finalizer i j items)"
proof (induction toObj rc' finalizer i j items and toObj rc' finalizer i j items
    rule: compactOuter_compactInner.induct)
  case (1 toObj rc' finalizer i j items)
  then show ?case
    by (subst compactOuter.simps) (auto intro!: keeps_rules removeFinalizer_keeps)
next
  case (2 toObj rc' finalizer i j items)
  then show ?case
    by (subst compactInner.simps) (auto intro!: keeps_rules removeFinalizer_keeps)
qed

lemma handleDeleted_keeps: "keeps f (handleDeleted toObj rc finalizer items)"
  unfolding handleDeleted_def by (rule compact_keeps) simp

end

section \<open>The only writer of a suite\<close>

text \<open>
  \<open>stored w\<close> is the suite of the request as the cluster \<open>w\<close> stores it. A merge patch changes what differs
  between the two objects it is made of: here for the specification, for every annotation, and for the
  fields of the status the handler reads again. A patch of the object leaves the status alone and is
  answered with the status that is stored.
\<close>

abbreviation annotation :: "TestSuite \<Rightarrow> string \<Rightarrow> string option" where
  "annotation suite k \<equiv> mapLookup (Annotations (Meta suite)) k"

abbreviation nextRun :: "TestSuite \<Rightarrow> Time option" where
  "nextRun suite \<equiv> NextRun (suite_Status suite)"

definition sameName :: "TestSuite \<Rightarrow> TestSuite \<Rightarrow> bool" where
  "sameName s s' \<longleftrightarrow> Name (Meta s) = Name (Meta s') \<and> Namespace (Meta s) = Namespace (Meta s')"

definition patchAnswer :: "TestSuite \<Rightarrow> TestSuite \<Rightarrow> TestSuite \<Rightarrow> TestSuite \<Rightarrow> bool" where
  "patchAnswer cur new orig x \<longleftrightarrow>
     sameName x cur \<and> suite_Status x = suite_Status cur \<and>
     (suite_Spec new = suite_Spec orig \<longrightarrow> suite_Spec x = suite_Spec cur) \<and>
     (DeletionTimestamp (Meta new) = DeletionTimestamp (Meta orig) \<longrightarrow>
        DeletionTimestamp (Meta x) = DeletionTimestamp (Meta cur)) \<and>
     (\<forall>k. annotation x k = (if annotation new k = annotation orig k then annotation cur k else annotation new k))"

definition statusAnswer :: "TestSuite \<Rightarrow> TestSuite \<Rightarrow> TestSuite \<Rightarrow> TestSuite \<Rightarrow> bool" where
  "statusAnswer cur new orig x \<longleftrightarrow>
     Meta x = Meta cur \<and> suite_Spec x = suite_Spec cur \<and>
     suitePhase x = (if suitePhase new = suitePhase orig then suitePhase cur else suitePhase new) \<and>
     nextRun x = (if nextRun new = nextRun orig then nextRun cur else nextRun new)"

definition untouched :: "('w \<Rightarrow> 'b) \<Rightarrow> ('w \<Rightarrow> 'a \<times> 'w) \<Rightarrow> bool" where
  "untouched f call \<longleftrightarrow> (\<forall>w. f (snd (call w)) = f w)"

definition soleWriter :: "'w TestSuiteReconciler \<Rightarrow> NamespacedName \<Rightarrow> ('w \<Rightarrow> TestSuite option) \<Rightarrow> bool" where
  "soleWriter r req stored \<longleftrightarrow>
     (let c = srClient r in
      (\<forall>w suite w'. doGet (TestSuites c) req w = (Inr suite, w') \<longrightarrow> stored w' = Some suite) \<and>
      (\<forall>new orig cur w. stored w = Some cur \<longrightarrow> sameName new cur \<longrightarrow> live cur \<longrightarrow>
         (case doPatch (TestSuites c) new orig w of
            (Inl e, w') \<Rightarrow> stored w' = Some cur
          | (Inr x, w') \<Rightarrow> stored w' = Some x \<and> patchAnswer cur new orig x)) \<and>
      (\<forall>new orig cur w. stored w = Some cur \<longrightarrow> sameName new cur \<longrightarrow>
         (case doStatusPatch (TestSuites c) new orig w of
            (Inl e, w') \<Rightarrow> stored w' = Some cur
          | (Inr x, w') \<Rightarrow> stored w' = Some x \<and> statusAnswer cur new orig x)) \<and>
      (\<forall>opts. untouched stored (doList (TestRuns c) opts)) \<and>
      (\<forall>run. untouched stored (doDelete (TestRuns c) run)) \<and>
      (\<forall>new orig. untouched stored (doPatch (TestRuns c) new orig)))"

text \<open>
  The suite in memory and the one that is stored differ after a patch that failed and whose error was
  ignored: by the label, or by a next run that was to be cleared since the schedule has changed.
\<close>

definition agree :: "TestSuite \<Rightarrow> TestSuite \<Rightarrow> bool" where
  "agree s cur \<longleftrightarrow>
     live cur \<and> sameName s cur \<and> suite_Spec s = suite_Spec cur \<and>
     DeletionTimestamp (Meta s) = DeletionTimestamp (Meta cur) \<and>
     annotation s TestSuiteScheduleAnnotation = annotation cur TestSuiteScheduleAnnotation \<and>
     (whenSchedule (tssWhen (suite_Spec cur)) = '''' \<longrightarrow> nextRun s = None \<and> nextRun cur = None) \<and>
     (nextRun s = None \<and> nextRun cur \<noteq> None \<longrightarrow>
        mapGet (Annotations (Meta s)) TestSuiteScheduleAnnotation \<noteq> whenSchedule (tssWhen (suite_Spec cur)))"

lemma sameName_simps [simp]:
  "sameName s s" "sameName (SetFinalizers fs s) t = sameName s t"
  "sameName (setSuiteStatus g s) t = sameName s t"
  "sameName (setSuiteCondition c ty st re msg s) t = sameName s t"
  "sameName (clearNextRun s) t = sameName s t" "sameName (unscheduled c s) t = sameName s t"
  "sameName (dropSchedule s) t = sameName s t" "sameName (labelHelm l s) t = sameName s t"
  "sameName (focusRun n s) t = sameName s t" "sameName (setSuitePhase p s) t = sameName s t"
  "sameName (annotateSchedule s) t = sameName s t" "sameName (scheduleInvalid c s) t = sameName s t"
  by (simp_all add: sameName_def SetFinalizers_def setSuiteStatus_def setSuiteCondition_def clearNextRun_def
      unscheduled_def dropSchedule_def labelHelm_def setSuiteMeta_def focusRun_def setSuitePhase_def
      annotateSchedule_def scheduleInvalid_def)

lemma deletion_simps [simp]:
  "DeletionTimestamp (Meta (SetFinalizers fs s)) = DeletionTimestamp (Meta s)"
  "DeletionTimestamp (Meta (dropSchedule s)) = DeletionTimestamp (Meta s)"
  "DeletionTimestamp (Meta (labelHelm l s)) = DeletionTimestamp (Meta s)"
  "DeletionTimestamp (Meta (annotateSchedule s)) = DeletionTimestamp (Meta s)"
  "DeletionTimestamp (Meta (clearNextRun s)) = DeletionTimestamp (Meta s)"
  by (simp_all add: SetFinalizers_def dropSchedule_def labelHelm_def annotateSchedule_def setSuiteMeta_def
      clearNextRun_def setSuiteStatus_def)

lemma schedule_annotation_simps [simp]:
  "Annotations (Meta (clearNextRun s)) = Annotations (Meta s)"
  "annotation (labelHelm l s) TestSuiteScheduleAnnotation = annotation s TestSuiteScheduleAnnotation"
  by (cases "Annotations (Meta s)";
      simp add: clearNextRun_def setSuiteStatus_def labelHelm_def setSuiteMeta_def mapLookup_def mapDelete_def
        TestSuiteScheduleAnnotation_def)+

lemma mapGet_annotation:
  "annotation s k = annotation s' k \<Longrightarrow> mapGet (Annotations (Meta s)) k = mapGet (Annotations (Meta s')) k"
  by (simp add: mapGet_def)

lemma agree_self:
  "live s \<Longrightarrow> (whenSchedule (tssWhen (suite_Spec s)) = '''' \<Longrightarrow> nextRun s = None) \<Longrightarrow> agree s s"
  by (auto simp: agree_def)

text \<open>A patch keeps the agreement, whether it is accepted or not.\<close>

lemma agree_patch:
  assumes "agree s cur" and "patchAnswer cur new s x" and "suite_Spec new = suite_Spec s"
    and "DeletionTimestamp (Meta new) = DeletionTimestamp (Meta s)"
  shows "agree x x"
  using assms by (intro agree_self) (auto simp: agree_def patchAnswer_def GetDeletionTimestamp_def)

lemma agree_status:
  assumes "agree s cur" and "statusAnswer cur new s x" and "nextRun new = nextRun s"
  shows "agree x x"
  using assms by (intro agree_self) (auto simp: agree_def statusAnswer_def GetDeletionTimestamp_def)

lemma agree_label: "agree s cur \<Longrightarrow> agree (labelHelm l s) cur"
  using mapGet_annotation [of "labelHelm l s" TestSuiteScheduleAnnotation s] by (simp add: agree_def)


section \<open>The handler, stage by stage\<close>

definition inStep :: "('w \<Rightarrow> TestSuite option) \<Rightarrow> TestSuite \<Rightarrow> 'w \<Rightarrow> bool" where
  "inStep stored s w \<longleftrightarrow> (\<exists>cur. stored w = Some cur \<and> agree s cur)"

locale sole_writer =
  fixes r :: "'w TestSuiteReconciler" and req :: NamespacedName and stored :: "'w \<Rightarrow> TestSuite option"
  assumes writer: "soleWriter r req stored"
begin

lemma get_law: "doGet (TestSuites (srClient r)) req w = (Inr suite, w') \<Longrightarrow> stored w' = Some suite"
  using writer by (simp add: soleWriter_def Let_def)

lemma patch_law:
  assumes "stored w = Some cur" and "sameName new cur" and "live cur"
  shows "case doPatch (TestSuites (srClient r)) new orig w of
      (Inl e, w') \<Rightarrow> stored w' = Some cur
    | (Inr x, w') \<Rightarrow> stored w' = Some x \<and> patchAnswer cur new orig x"
  using writer assms by (simp add: soleWriter_def Let_def)

lemma status_law:
  assumes "stored w = Some cur" and "sameName new cur"
  shows "case doStatusPatch (TestSuites (srClient r)) new orig w of
      (Inl e, w') \<Rightarrow> stored w' = Some cur
    | (Inr x, w') \<Rightarrow> stored w' = Some x \<and> statusAnswer cur new orig x"
  using writer assms by (simp add: soleWriter_def Let_def)

lemma runs_law:
  "stored (snd (doList (TestRuns (srClient r)) opts w)) = stored w"
  "stored (snd (doDelete (TestRuns (srClient r)) run w)) = stored w"
  "stored (snd (doPatch (TestRuns (srClient r)) new orig w)) = stored w"
  using writer by (simp_all add: soleWriter_def Let_def untouched_def)

lemma undisturbed_runs: "undisturbed stored (TestRuns (srClient r))"
  by unfold_locales (simp_all add: runs_law)

lemma Patch_leads:
  assumes "stored w = Some cur" and "sameName new cur" and "live cur"
  shows "leads w suiteStatusWrite (Patch TestSuiteObj (TestSuites (srClient r)) new orig)
    (\<lambda>(err, x) w'. if err = None then stored w' = Some x \<and> patchAnswer cur new orig x
       else x = new \<and> stored w' = Some cur)"
  unfolding Patch_def
proof (rule leads_bind [OF leads_perform])
  fix x w'
  assume "doPatch (TestSuites (srClient r)) new orig w = (x, w')"
  with patch_law [OF assms, of orig]
  show "(case x of Inl e \<Rightarrow> stored w' = Some cur | Inr y \<Rightarrow> stored w' = Some y \<and> patchAnswer cur new orig y) \<and>
      suiteStatusWrite (PatchCall (TestSuiteObj new) (TestSuiteObj orig) (errOf x))"
    by (simp add: suiteStatusWrite_def split: sum.splits)
next
  fix x :: "error + TestSuite" and w'
  assume "case x of Inl e \<Rightarrow> stored w' = Some cur | Inr y \<Rightarrow> stored w' = Some y \<and> patchAnswer cur new orig y"
  then show "leads w' suiteStatusWrite (ret (inMemory x new))
      (\<lambda>(err, x) w'. if err = None then stored w' = Some x \<and> patchAnswer cur new orig x
         else x = new \<and> stored w' = Some cur)"
    by (intro leads_ret) (simp split: sum.splits)
qed

lemma StatusPatch_leads:
  assumes "stored w = Some cur" and "sameName new cur" and "suiteTransition (suitePhase orig) (suitePhase new)"
  shows "leads w suiteStatusWrite (StatusPatch TestSuiteObj (TestSuites (srClient r)) new orig)
    (\<lambda>(err, x) w'. if err = None then stored w' = Some x \<and> statusAnswer cur new orig x
       else x = new \<and> stored w' = Some cur)"
  unfolding StatusPatch_def
proof (rule leads_bind [OF leads_perform])
  fix x w'
  assume "doStatusPatch (TestSuites (srClient r)) new orig w = (x, w')"
  with status_law [OF assms(1,2), of orig] assms(3)
  show "(case x of Inl e \<Rightarrow> stored w' = Some cur | Inr y \<Rightarrow> stored w' = Some y \<and> statusAnswer cur new orig y) \<and>
      suiteStatusWrite (StatusPatchCall (TestSuiteObj new) (TestSuiteObj orig) (errOf x))"
    by (simp add: suiteStatusWrite_def split: sum.splits)
next
  fix x :: "error + TestSuite" and w'
  assume "case x of Inl e \<Rightarrow> stored w' = Some cur | Inr y \<Rightarrow> stored w' = Some y \<and> statusAnswer cur new orig y"
  then show "leads w' suiteStatusWrite (ret (inMemory x new))
      (\<lambda>(err, x) w'. if err = None then stored w' = Some x \<and> statusAnswer cur new orig x
         else x = new \<and> stored w' = Some cur)"
    by (intro leads_ret) (simp split: sum.splits)
qed

lemma patchSuite_leads:
  assumes "stored w = Some cur" and "sameName new cur" and "live cur"
  shows "leads w suiteStatusWrite (patchSuite r new orig)
    (stage (\<lambda>x w'. stored w' = Some x \<and> patchAnswer cur new orig x) suiteOut)"
  unfolding patchSuite_def
  by (rule leads_bind [OF Patch_leads [OF assms]]) (auto intro!: leads_ret split: if_splits)

lemma patchSuiteStatus_leads:
  assumes "stored w = Some cur" and "sameName new cur" and "suiteTransition (suitePhase orig) (suitePhase new)"
  shows "leads w suiteStatusWrite (patchSuiteStatus r new orig)
    (stage (\<lambda>x w'. stored w' = Some x \<and> statusAnswer cur new orig x) suiteOut)"
  unfolding patchSuiteStatus_def
  by (rule leads_bind [OF StatusPatch_leads [OF assms]]) (auto intro!: leads_ret split: if_splits)

text \<open>A status patch that leaves the next run as it is, of a suite that agrees with the stored one.\<close>

lemma patchStatus_inStep:
  assumes "inStep stored s w" and "suiteTransition (suitePhase s) (suitePhase new)"
    and "\<And>t. sameName new t = sameName s t" and "nextRun new = nextRun s"
  shows "leads w suiteStatusWrite (patchSuiteStatus r new s) (stage (inStep stored) suiteOut)"
proof -
  obtain cur where cur: "stored w = Some cur" "agree s cur" using assms(1) by (auto simp: inStep_def)
  then have "sameName new cur" using assms(3) by (simp add: agree_def)
  from patchSuiteStatus_leads [OF cur(1) this assms(2)] show ?thesis
  proof (rule leads_mono)
    fix st w'
    assume "stage (\<lambda>x w'. stored w' = Some x \<and> statusAnswer cur new s x) suiteOut st w'"
    then show "stage (inStep stored) suiteOut st w'"
      using agree_status [OF cur(2) _ assms(4)] by (cases st) (auto simp: inStep_def)
  qed
qed

end

context sole_writer begin

lemma ensureSuiteFinalizer_leads:
  assumes "stored w = Some s" and "live s"
  shows "leads w suiteStatusWrite (ensureSuiteFinalizer r s)
    (stage (\<lambda>x w'. stored w' = Some x \<and> live x) suiteOut)"
  unfolding ensureSuiteFinalizer_def
proof (rule leads_bind)
  let ?new = "SetFinalizers (GetFinalizers s @ [TestSuiteControllerFinalizer]) s"
  have "leads w suiteStatusWrite (Patch TestSuiteObj (TestSuites (srClient r)) ?new s)
      (\<lambda>(err, x) w'. err = None \<longrightarrow> stored w' = Some x \<and> live x)"
    by (rule leads_mono [OF Patch_leads [OF assms(1) _ assms(2)]])
       (use assms(2) in \<open>auto simp: patchAnswer_def GetDeletionTimestamp_def\<close>)
  then show "leads w suiteStatusWrite
      (addFinalizer TestSuiteObj (TestSuites (srClient r)) TestSuiteControllerFinalizer s)
      (\<lambda>((_, err), x) w'. err = None \<longrightarrow> stored w' = Some x \<and> live x)"
    unfolding addFinalizer_def using assms by (auto intro!: leads_ret elim!: leads_bind)
qed (auto intro!: leads_ret)

lemma unscheduled_leads:
  assumes "stored w = Some s'" and "live s'" and "suite_Status s' = suite_Status s"
    and "suite_Spec s' = suite_Spec s"
  shows "leads w suiteStatusWrite (patchSuiteStatus r (unscheduled (srClient r) s') s) (stage (inStep stored) suiteOut)"
proof (rule leads_mono [OF patchSuiteStatus_leads [OF assms(1)]])
  show "suiteTransition (suitePhase s) (suitePhase (unscheduled (srClient r) s'))" by (simp add: assms(3))
  fix st w'
  assume "stage (\<lambda>x w'. stored w' = Some x \<and> statusAnswer s' (unscheduled (srClient r) s') s x) suiteOut st w'"
  moreover have "agree x x" if "statusAnswer s' (unscheduled (srClient r) s') s x" for x
    using that assms(2,3) by (intro agree_self) (auto simp: statusAnswer_def GetDeletionTimestamp_def)
  ultimately show "stage (inStep stored) suiteOut st w'" by (cases st) (auto simp: inStep_def)
qed simp

lemma clearNextRun_leads:
  assumes "stored w = Some s" and "live s"
    and "whenSchedule (tssWhen (suite_Spec s)) \<noteq> ''''"
    and "whenSchedule (tssWhen (suite_Spec s)) \<noteq> mapGet (Annotations (Meta s)) TestSuiteScheduleAnnotation"
  shows "leads w suiteStatusWrite (StatusPatch TestSuiteObj (TestSuites (srClient r)) (clearNextRun s) s)
    (\<lambda>(_, x). inStep stored x)"
proof (rule leads_mono [OF StatusPatch_leads [OF assms(1)]])
  have "agree (clearNextRun s) s"
    using assms(2-4) by (auto simp: agree_def)
  moreover have "agree x x" if "statusAnswer s (clearNextRun s) s x" for x
    using that assms(2,3) by (intro agree_self) (auto simp: statusAnswer_def GetDeletionTimestamp_def)
  ultimately show "(case p of (_, x) \<Rightarrow> inStep stored x) w'" if
    "(case p of (err, x) \<Rightarrow> \<lambda>w'. if err = None then stored w' = Some x \<and> statusAnswer s (clearNextRun s) s x
      else x = clearNextRun s \<and> stored w' = Some s) w'" for p w'
    using that by (auto simp: inStep_def split: if_splits)
qed simp_all

lemma scheduleChanged_leads:
  assumes "stored w = Some s" and "live s"
  shows "leads w suiteStatusWrite (scheduleChanged r s) (stage (inStep stored) suiteOut)"
proof -
  have self: "inStep stored s w" if "whenSchedule (tssWhen (suite_Spec s)) \<noteq> ''''"
    using assms that agree_self [of s] by (auto simp: inStep_def)
  have drop: "leads w suiteStatusWrite
      (if mapLookup (Annotations (Meta s)) TestSuiteScheduleAnnotation \<noteq> None
       then patchSuite r (dropSchedule s) s else ret (Next s))
      (stage (\<lambda>x w'. stored w' = Some x \<and> live x \<and> suite_Status x = suite_Status s \<and>
         suite_Spec x = suite_Spec s) suiteOut)"
    using assms leads_mono [OF patchSuite_leads [OF assms(1) _ assms(2), of "dropSchedule s" s]]
    by (auto simp: patchAnswer_def GetDeletionTimestamp_def stepOk_def split: Step.splits intro!: leads_ret)
  show ?thesis
    unfolding scheduleChanged_def Let_def
    by (intro leads_if leads_andThen [OF drop] leads_bind [OF clearNextRun_leads] unscheduled_leads)
       (auto intro!: leads_ret self assms)
qed

end

context sole_writer begin

lemma helmTriggerChanged_leads:
  assumes "inStep stored s w"
  shows "leads w suiteStatusWrite (helmTriggerChanged r s) (inStep stored)"
proof -
  obtain cur where cur: "stored w = Some cur" "agree s cur" using assms by (auto simp: inStep_def)
  then have "sameName (labelHelm (helmLabel s) s) cur" "live cur" by (simp_all add: agree_def)
  note patch = Patch_leads [OF cur(1) this]
  have "agree x x" if "patchAnswer cur (labelHelm (helmLabel s) s) s x" for x
    using agree_patch [OF cur(2) that] by simp
  with agree_label [OF cur(2)] cur(1) show ?thesis
    unfolding helmTriggerChanged_def
    by (intro leads_if leads_bind [OF patch])
       (auto intro!: leads_ret assms simp: inStep_def split: if_splits)
qed

lemma helmStage_leads:
  "inStep stored s w \<Longrightarrow> leads w suiteStatusWrite (do { suite \<leftarrow> helmTriggerChanged r s; ret (Next suite) })
    (stage (inStep stored) suiteOut)"
  by (rule leads_bind [OF helmTriggerChanged_leads]) (auto intro: leads_ret)

lemma handleDeletedRuns_leads:
  "leads w suiteStatusWrite (TestSuite_handleDeleted r runs) (stage (\<lambda>_ w'. stored w' = stored w) suiteOut)"
proof (rule leads_mono [OF leads_emits [OF suite_status_write.handleDeletedRuns_calls]])
  show "keeps stored (TestSuite_handleDeleted r runs)"
    unfolding TestSuite_handleDeleted_def
    by (intro keeps_rules undisturbed.handleDeleted_keeps [OF undisturbed_runs])
  show "returns (TestSuite_handleDeleted r runs) (stepOk (\<lambda>_. True) suiteOut)"
    unfolding TestSuite_handleDeleted_def
    by (rule returns_bind') (auto intro!: returns_ret split: sum.split)
  show "stage (\<lambda>_ w'. stored w' = stored w) suiteOut st w'"
    if "stepOk (\<lambda>_. True) suiteOut st \<and> stored w' = stored w" for st :: "TestRun list Step" and w'
    using that by (cases st) auto
qed

lemma enforceHistory_leads:
  "leads w suiteStatusWrite (enforceHistory r s runs) (stage (\<lambda>_ w'. stored w' = stored w) suiteOut)"
proof (rule leads_mono [OF leads_emits [OF suite_status_write.enforceHistory_calls enforceHistory_returns]])
  show "keeps stored (enforceHistory r s runs)"
    unfolding enforceHistory_def Let_def
    by (intro keeps_rules undisturbed.cleanUpAll_keeps [OF undisturbed_runs])
  show "stage (\<lambda>_ w'. stored w' = stored w) suiteOut st w'"
    if "stepOk (\<lambda>_. True) suiteOut st \<and> stored w' = stored w" for st :: "TestRun list Step" and w'
    using that by (cases st) auto
qed

lemma adoptRuns_leads:
  "inStep stored s w \<Longrightarrow> leads w suiteStatusWrite (adoptRuns r runs s) (stage (inStep stored) suiteOut)"
proof (induction runs arbitrary: s w)
  case Nil
  then show ?case by (simp add: leads_ret)
next
  case (Cons run runs)
  then show ?case
    by (auto intro!: leads_andThen [OF patchStatus_inStep])
qed

lemma ensurePhase_leads:
  "inStep stored s w \<Longrightarrow> leads w suiteStatusWrite (ensurePhase r runs s) (stage (inStep stored) suiteOut)"
  unfolding ensurePhase_def
  by (intro leads_if leads_andThen [OF adoptRuns_leads] patchStatus_inStep leads_ret) simp_all

lemma ensureReady_leads:
  "inStep stored s w \<Longrightarrow> leads w suiteStatusWrite (ensureReady r s) (stage (inStep stored) suiteOut)"
  unfolding ensureReady_def by (intro leads_if patchStatus_inStep leads_ret) simp_all

lemma parseSchedule_leads:
  assumes "stored w = Some cur" and "agree s cur" and "nextRun s = None \<Longrightarrow> nextRun cur = None"
  shows "leads w suiteStatusWrite (parseSchedule r when' s) (stage (\<lambda>st _. scheduleOk st) suiteOut)"
proof (cases "CronParser r when'")
  case (Inl e)
  have "sameName (scheduleInvalid (srClient r) s) cur" using assms(2) by (simp add: agree_def)
  note patch = StatusPatch_leads [OF assms(1) this]
  show ?thesis
    unfolding parseSchedule_def Inl sum.case
    by (rule leads_bind [OF patch])
       (use assms(3) in \<open>auto intro!: leads_ret simp: scheduleOk_def statusAnswer_def split: if_splits\<close>)
next
  case (Inr sched)
  have "returns (parseSchedule r when' s) (stepOk scheduleOk suiteOut)"
    unfolding parseSchedule_def Inr sum.case
    by (intro return_rules returns_ret returns_bind' returns_andThen [OF patch_returns_any(2)])
       (simp_all add: scheduleOk_def)
  moreover have "emits' (list_all suiteStatusWrite) (parseSchedule r when' s)"
    by (rule emits_weaken [OF suite_status_write.parseSchedule_calls]) simp_all
  ultimately show ?thesis by (intro leads_returns)
qed

lemma ensureSchedule_leads:
  assumes "inStep stored s w"
  shows "leads w suiteStatusWrite (ensureSchedule r s) (stage (\<lambda>st _. scheduleOk st) suiteOut)"
proof -
  obtain cur where cur: "stored w = Some cur" "agree s cur" using assms by (auto simp: inStep_def)
  have none: "scheduleOk (s, None)" if "whenSchedule (tssWhen (suite_Spec s)) = ''''"
    using cur(2) that by (simp add: agree_def scheduleOk_def)
  have same: "nextRun cur = None"
    if "mapGet (Annotations (Meta s)) TestSuiteScheduleAnnotation = whenSchedule (tssWhen (suite_Spec s))"
      "nextRun s = None"
    using cur(2) that by (auto simp: agree_def)
  have "sameName (annotateSchedule s) cur" "live cur" using cur(2) by (simp_all add: agree_def)
  note patch = patchSuite_leads [OF cur(1) this]
  have answered: "agree x x" if "patchAnswer cur (annotateSchedule s) s x" for x
    using agree_patch [OF cur(2) that] by simp
  let ?S = "\<lambda>x w'. \<exists>cur. stored w' = Some cur \<and> agree x cur \<and> (nextRun x = None \<longrightarrow> nextRun cur = None)"
  have annotate: "leads w suiteStatusWrite
      (if mapGet (Annotations (Meta s)) TestSuiteScheduleAnnotation \<noteq> whenSchedule (tssWhen (suite_Spec s))
       then patchSuite r (annotateSchedule s) s else ret (Next s)) (stage ?S suiteOut)"
    by (intro leads_if leads_ret leads_mono [OF patch])
       (use cur same answered in \<open>auto simp: stepOk_def split: Step.splits\<close>)
  show ?thesis
    unfolding ensureSchedule_def Let_def
    by (intro leads_if leads_andThen [OF annotate] leads_ret)
       (auto intro: none parseSchedule_leads)
qed

end

text \<open>With the schedule settled the rest does not depend on what is stored.\<close>

definition trigger ::
  "'w TestSuiteReconciler \<Rightarrow> TestSuite \<times> Schedule option \<Rightarrow> ('w Env, Outcome Step) state" where
  "trigger r = (\<lambda>(suite, schedule).
     andThen (currentHelmRelease r suite) (\<lambda>release.
     andThen (chooseTrigger r release schedule suite) (pullTrigger r)))"

lemma trigger_leads:
  assumes "scheduleOk st"
  shows "leads w suiteStatusWrite (trigger r st) (stage (\<lambda>out _. suiteOut out) suiteOut)"
proof -
  have "emits' (list_all suiteStatusWrite) (trigger r st)"
    unfolding trigger_def
    by (intro emit_rules each_call.emits_andThen' suite_status_write.currentHelmRelease_calls
          each_call.emits_andThen [OF suite_status_write.chooseTrigger_calls] suite_status_write.pullTrigger_calls)
       simp_all
  moreover have "returns (trigger r st) (stepOk suiteOut suiteOut)"
    unfolding trigger_def using assms
    by (intro return_rules returns_andThen [OF currentHelmRelease_returns]
          returns_andThen [OF chooseTrigger_returns] pullTrigger_returns) simp
  ultimately show ?thesis by (rule leads_returns)
qed

context sole_writer begin

lemma notRunning_leads:
  assumes "inStep stored s w"
  shows "leads w suiteStatusWrite (TestSuiteReconciler_notRunning r s runs) (\<lambda>out _. suiteOut out)"
proof -
  have "TestSuiteReconciler_notRunning r s runs = finish (
      andThen (ensureReady r s) (\<lambda>s. andThen (enforceHistory r s runs) (\<lambda>_.
      andThen (ensureSchedule r s) (trigger r))))"
    unfolding TestSuiteReconciler_notRunning_def trigger_def ..
  then show ?thesis
    by (auto simp: inStep_def intro!: leads_finish leads_andThen [OF ensureReady_leads [OF assms]]
        leads_andThen [OF enforceHistory_leads] leads_andThen [OF ensureSchedule_leads] trigger_leads)
qed

lemma isRunning_leads:
  assumes "TestSuitePhase_IsRunning (suitePhase s)"
  shows "leads w suiteStatusWrite (TestSuiteReconciler_isRunning r s runs) (\<lambda>out _. suiteOut out)"
  by (intro leads_returns suite_status_write.isRunning_calls suite_isRunning_returns assms) simp

lemma phase_leads:
  assumes "inStep stored s w"
  shows "leads w suiteStatusWrite (TestSuiteReconciler_phase r runs s) (stage (\<lambda>out _. suiteOut out) suiteOut)"
  unfolding TestSuiteReconciler_phase_def
  by (rule leads_bind [where S = "\<lambda>out _. suiteOut out"])
     (auto intro!: leads_if isRunning_leads notRunning_leads [OF assms] leads_ret)

lemma active_leads:
  assumes "stored w = Some s" and "live s"
  shows "leads w suiteStatusWrite (TestSuiteReconciler_active r s runs) (\<lambda>out _. suiteOut out)"
  unfolding TestSuiteReconciler_active_def Let_def
  by (intro leads_finish leads_andThen [OF ensureSuiteFinalizer_leads [OF assms]]
        leads_andThen [OF scheduleChanged_leads] leads_andThen [OF helmStage_leads]
        leads_andThen [OF handleDeletedRuns_leads] leads_andThen [OF ensurePhase_leads] phase_leads)
     (auto simp: inStep_def)

lemma Reconcile_leads: "leads w suiteStatusWrite (TestSuiteReconciler_Reconcile r req) (\<lambda>out _. suiteOut out)"
  unfolding TestSuiteReconciler_Reconcile_def
proof (rule leads_bind)
  show "leads w suiteStatusWrite (Get (TestSuites (srClient r)) req)
      (\<lambda>got w'. case got of Inl e \<Rightarrow> True | Inr s \<Rightarrow> stored w' = Some s)"
    unfolding Get_def by (rule leads_perform) (auto simp: suiteStatusWrite_def split: sum.split dest: get_law)
next
  fix got :: "error + TestSuite" and w'
  assume got: "case got of Inl e \<Rightarrow> True | Inr s \<Rightarrow> stored w' = Some s"
  have metric: "leads v suiteStatusWrite (metric m) (\<lambda>_ v'. v' = v)" for v :: 'w and m
    by (rule leadsI) (auto simp: metric_def suiteStatusWrite_def)
  have listed: "leads v suiteStatusWrite (ListObjs (TestRuns (srClient r)) opts) (\<lambda>_ v'. stored v' = stored v)"
    for v opts
    unfolding ListObjs_def
    by (rule leads_perform) (use runs_law(1) [of opts v] in \<open>simp add: suiteStatusWrite_def\<close>)
  have deleted: "leads v suiteStatusWrite (TestSuiteReconciler_deleted r s runs) (\<lambda>out _. suiteOut out)"
    if "\<not> live s" for v s runs
    by (intro leads_returns suite_status_write.deleted_calls suite_deleted_returns that) simp
  show "leads w' suiteStatusWrite (case got of
      Inl e \<Rightarrow> ret (if IgnoreNotFound (srClient r) (Some e) = None then done' else suiteRetry r)
    | Inr suite \<Rightarrow> do {
        metric (SuiteRunsWithLabelValues (Namespace (Meta suite)) (Name (Meta suite)));
        metric (SuitePassingWithLabelValues (Namespace (Meta suite)) (Name (Meta suite)));
        metric (SuiteFailingWithLabelValues (Namespace (Meta suite)) (Name (Meta suite)));
        listed \<leftarrow> ListObjs (TestRuns (srClient r))
          [InNamespace (nnNamespace req), MatchingFields testIndexKey (nnName req)];
        (case listed of
           Inl e \<Rightarrow> ret (suiteRetry r)
         | Inr runs \<Rightarrow>
             (if GetDeletionTimestamp suite \<noteq> None then TestSuiteReconciler_deleted r suite runs
              else TestSuiteReconciler_active r suite runs))
      }) (\<lambda>out _. suiteOut out)"
  proof (cases got)
    case (Inr s)
    with got show ?thesis
      by (auto intro!: leads_bind [OF metric] leads_bind [OF listed] leads_ret deleted active_leads leads_if
          split: sum.split)
  qed (auto intro!: leads_ret)
qed

end

section \<open>The stored cluster\<close>

interpretation stored_runs: undisturbed suitesIn "TestRuns (storedClient ns)" for ns
  by unfold_locales
     (auto simp: storedClient_def storedServer_def storedResource_def Let_def split: option.split)

text \<open>Every suite of \<open>Stored_Cluster\<close> has one writer, the handler that is run on it.\<close>

lemma stored_patchAnswer:
  assumes "withSuiteStatus orig cur = orig" and "sameName new cur"
  shows "patchAnswer cur new orig (withSuiteStatus cur (regenerated g new))"
proof -
  have "Meta orig = Meta cur" "suite_Spec orig = suite_Spec cur"
    using arg_cong [OF assms(1), of Meta] arg_cong [OF assms(1), of suite_Spec]
    by (simp_all add: withSuiteStatus_def)
  with assms(2) show ?thesis
    by (auto simp: patchAnswer_def sameName_def withSuiteStatus_def regenerated_def)
qed

lemma stored_statusAnswer:
  assumes "withSuiteStatus orig cur = cur"
  shows "statusAnswer cur new orig (withSuiteStatus new cur)"
  using arg_cong [OF assms, of suite_Status] by (auto simp: statusAnswer_def withSuiteStatus_def)

lemma stored_suites:
  assumes "findNamed n (suitesIn w) = Some cur" and "sameName new cur"
  shows "case doPatch (TestSuites (storedClient ns)) new orig w of
      (Inl e, w') \<Rightarrow> findNamed n (suitesIn w') = Some cur
    | (Inr x, w') \<Rightarrow> findNamed n (suitesIn w') = Some x \<and> patchAnswer cur new orig x"
    and "case doStatusPatch (TestSuites (storedClient ns)) new orig w of
      (Inl e, w') \<Rightarrow> findNamed n (suitesIn w') = Some cur
    | (Inr x, w') \<Rightarrow> findNamed n (suitesIn w') = Some x \<and> statusAnswer cur new orig x"
proof -
  have names: "nameOf cur = n" "nameOf new = n"
    using findNamed_name [OF assms(1)] assms(2) by (simp_all add: sameName_def)
  have found: "findNamed n (replaceNamed x (suitesIn w)) = Some x" if "nameOf x = n" for x
    using assms(1) that by (simp add: findNamed_replaceNamed)
  have answer: "nameOf (withSuiteStatus cur (regenerated g new)) = n" "nameOf (withSuiteStatus new cur) = n" for g
    using names by (simp_all add: withSuiteStatus_def regenerated_def)
  show "case doPatch (TestSuites (storedClient ns)) new orig w of
      (Inl e, w') \<Rightarrow> findNamed n (suitesIn w') = Some cur
    | (Inr x, w') \<Rightarrow> findNamed n (suitesIn w') = Some x \<and> patchAnswer cur new orig x"
    using assms(1) stored_patchAnswer [OF _ assms(2)] found [OF answer(1)]
    by (simp add: storedClient_def storedServer_def storedResource_def Let_def names)
  show "case doStatusPatch (TestSuites (storedClient ns)) new orig w of
      (Inl e, w') \<Rightarrow> findNamed n (suitesIn w') = Some cur
    | (Inr x, w') \<Rightarrow> findNamed n (suitesIn w') = Some x \<and> statusAnswer cur new orig x"
    using assms(1) stored_statusAnswer found [OF answer(2)]
    by (simp add: storedClient_def storedServer_def storedResource_def Let_def names)
qed

lemma stored_reads:
  "doGet (TestSuites (storedClient ns)) \<lparr>nnNamespace = ns, nnName = n\<rparr> w = (Inr suite, w')
    \<Longrightarrow> findNamed n (suitesIn w') = Some suite"
  "suitesIn (snd (doList (TestRuns (storedClient ns)) opts w)) = suitesIn w"
  by (auto simp: storedClient_def storedServer_def storedResource_def Let_def split: option.splits)

lemma stored_soleWriter:
  assumes "srClient r = storedClient ns"
  shows "soleWriter r \<lparr>nnNamespace = ns, nnName = n\<rparr> (\<lambda>w. findNamed n (suitesIn w))"
  unfolding soleWriter_def assms Let_def untouched_def
  by (intro conjI allI impI; (rule stored_suites; assumption)?; (rule stored_reads, assumption)?;
      simp add: stored_reads(2) stored_runs.deletes stored_runs.patches)

interpretation stored_writer:
  sole_writer storedSuiteReconciler "\<lparr>nnNamespace = ''ns'', nnName = n\<rparr>" "\<lambda>w. findNamed n (suitesIn w)" for n
  by unfold_locales (rule stored_soleWriter, simp add: storedSuiteReconciler_def)

section \<open>Runs on the stored cluster\<close>

lemmas suite_handler =
  TestSuiteReconciler_Reconcile_def TestSuiteReconciler_active_def finish_def ensureSuiteFinalizer_def
  addFinalizer_def scheduleChanged_def helmTriggerChanged_def TestSuite_handleDeleted_def handleDeleted_def
  compactOuter.simps ensurePhase_def TestSuiteReconciler_phase_def TestSuiteReconciler_notRunning_def
  ensureReady_def enforceHistory_def ensureSchedule_def parseSchedule_def currentHelmRelease_def
  chooseTrigger_def pullTrigger_def patchSuite_def patchSuiteStatus_def Let_def

lemmas suite_updates =
  unscheduled_def clearNextRun_def setSuiteCondition_def setSuiteStatus_def resetTrigger_def triggered_def
  annotateSchedule_def scheduleInvalid_def setSuiteMeta_def mapLookup_def mapGet_def mapPut_def

lemmas stored_cluster =
  storedWorld_def storedSuite_def sampleSuite_def storedSuiteReconciler_def storedClient_def storedServer_def
  storedResource_def withSuiteStatus_def regenerated_def storedAs_def emptyMeta_def GetDeletionTimestamp_def
  GetFinalizers_def

text \<open>A schedule that does not parse, set on a suite that has a next run of the schedule before.\<close>

definition scheduledWorld :: Stored where
  "scheduledWorld = storedWorld\<lparr>suitesIn := [storedSuite
     \<lparr>suite_Trigger := \<lparr>NeedsRun = False\<rparr>,
      suite_Spec := (suite_Spec storedSuite)\<lparr>tssWhen := \<lparr>whenSchedule = ''never'', whenHelmRelease = ''''\<rparr>\<rparr>,
      suite_Status := (suite_Status storedSuite)\<lparr>NextRun := Some 0\<rparr>\<rparr>]\<rparr>"

definition refusingReconciler :: "Stored TestSuiteReconciler" where
  "refusingReconciler = storedSuiteReconciler\<lparr>CronParser := \<lambda>s. Inl (ErrorString ''invalid'')\<rparr>"

section \<open>Properties\<close>

text \<open>
  C4. Reconciling a TestSuite never panics and returns no error but the one for a current TestRun that
  is missing, provided that the suite that is read is the one stored, that nobody else writes it meanwhile
  and that patches are merge patches (\<open>soleWriter\<close>); calls may fail.
\<close>

theorem suite_outcome:
  assumes "soleWriter r req stored"
  shows "case resultOf (TestSuiteReconciler_Reconcile r req) w of
      Panic \<Rightarrow> False
    | Return res err \<Rightarrow> err = None \<or> err = Some (ErrorString ''current test run is missing'')"
proof -
  have run: "leads w suiteStatusWrite (TestSuiteReconciler_Reconcile r req) (\<lambda>out _. suiteOut out)"
    by (rule sole_writer.Reconcile_leads [OF sole_writer.intro [OF assms]])
  obtain out s' where "run_state (TestSuiteReconciler_Reconcile r req) \<lparr>cluster = w, trace = []\<rparr> = (out, s')"
    by fastforce
  with leadsD(1) [OF run _ this] show ?thesis
    by (auto simp: resultOf_def suiteOut_def missingRun_def split: Outcome.splits)
qed

theorem suite_outcome_witness:
  "let m = TestSuiteReconciler_Reconcile refusingReconciler \<lparr>nnNamespace = ''ns'', nnName = ''suite''\<rparr>
   in (case resultOf m scheduledWorld of
         Panic \<Rightarrow> False
       | Return res err \<Rightarrow> err = None \<or> err = Some (ErrorString ''current test run is missing'')) \<and>
      list_ex (\<lambda>call. case call of
          PatchCall (TestSuiteObj new) orig None \<Rightarrow> annotation new TestSuiteScheduleAnnotation = Some ''never''
        | _ \<Rightarrow> False) (callsOf m scheduledWorld) \<and>
      list_ex (\<lambda>call. case call of
          StatusPatchCall (TestSuiteObj new) (TestSuiteObj orig) None \<Rightarrow> nextRun orig = Some 0 \<and> nextRun new = None
        | _ \<Rightarrow> False) (callsOf m scheduledWorld)"
proof -
  have writer: "soleWriter refusingReconciler \<lparr>nnNamespace = ''ns'', nnName = ''suite''\<rparr>
      (\<lambda>w. findNamed ''suite'' (suitesIn w))"
    by (rule stored_soleWriter) (simp add: refusingReconciler_def storedSuiteReconciler_def)
  show ?thesis
    unfolding Let_def
    by (intro conjI suite_outcome [OF writer])
       (simp_all add: scheduledWorld_def refusingReconciler_def stored_cluster suite_handler suite_updates
         go_defs callsOf_def)
qed

text \<open>
  C7. Every write of the status of a TestSuite either keeps its phase or changes it along the state
  machine (to Running from any phase, from the initial phase to Pending, from Pending to Ready, from
  Running to Ready), provided that the suite that is read is the one stored, that nobody else writes it
  meanwhile and that patches are merge patches (\<open>soleWriter\<close>); calls may fail.
\<close>

theorem suite_status_transitions:
  assumes "soleWriter r req stored"
  shows "list_all suiteStatusWrite (callsOf (TestSuiteReconciler_Reconcile r req) w)"
proof -
  have run: "leads w suiteStatusWrite (TestSuiteReconciler_Reconcile r req) (\<lambda>out _. suiteOut out)"
    by (rule sole_writer.Reconcile_leads [OF sole_writer.intro [OF assms]])
  obtain out s' where "run_state (TestSuiteReconciler_Reconcile r req) \<lparr>cluster = w, trace = []\<rparr> = (out, s')"
    by fastforce
  with leadsD(2) [OF run _ this] show ?thesis by (auto simp: callsOf_def)
qed

theorem suite_status_transitions_witness:
  "let calls = callsOf (TestSuiteReconciler_Reconcile storedSuiteReconciler
         \<lparr>nnNamespace = ''ns'', nnName = ''suite''\<rparr>) storedWorld
   in list_all suiteStatusWrite calls \<and>
      list_ex (\<lambda>call. case call of
          StatusPatchCall (TestSuiteObj new) (TestSuiteObj orig) None \<Rightarrow>
            suitePhase orig = TestSuiteReady \<and> suitePhase new = TestSuiteRunning
        | _ \<Rightarrow> False) calls"
  unfolding Let_def
  by (intro conjI suite_status_transitions [OF stored_writer.writer])
     (simp add: stored_cluster suite_handler suite_updates go_defs callsOf_def)

end
