(* ===== verification/Spec2Isabelle.thy ===== *)
theory Spec2Isabelle
  imports Api_Schema Deep_Copy Lifecycle Mock_Program Suite_Writer
begin

text \<open>
  Konfirm is a Kubernetes operator that runs tests. A TestSuite is triggered by hand, by its
  schedule or by a Helm release and creates a TestRun; a TestRun creates one Test for each of its
  templates; a Test creates a Pod. Verdicts travel the other way: the phase of the Pod becomes the
  verdict of the Test, the Tests that of the TestRun, and the end of the TestRun makes the
  TestSuite ready again. Each kind has a reconciler under src/controllers, which reads its object
  and the objects it controls, makes a few calls to the cluster and is called again when something
  changed. A watcher enqueues the suites that are subscribed to a new Helm release.

  \<^bold>\<open>How the program is modelled.\<close> The data of src/api/v1alpha1 are the records of
  \<open>Api_Types\<close>; a kind of object extends the record of the metadata, so that the helpers are
  polymorphic in the kind as the Go functions are in \<open>client.Object\<close>. The Kubernetes client is not
  under src/: it is a parameter, a record of functions on an arbitrary type of cluster states, and
  so are the cron parser, the clock, \<open>sort.Slice\<close>, \<open>metav1.GetControllerOf\<close>,
  \<open>client.IgnoreNotFound\<close>, \<open>meta.SetStatusCondition\<close>, the go-spew printer and the loggers. A theorem
  without hypotheses on the client holds whatever the cluster answers, errors and concurrent
  writers included. A Go body is a state transformer whose state is the cluster and the list of the
  calls made so far, reads, writes, events, metrics and enqueued requests; a handler returns a
  result and an error, or it panics.

  \<^bold>\<open>The theories.\<close>
    \<^item> \<open>Go_Prelude\<close>: decimal conversion, slices, maps that may be nil, saturating time differences,
      the FNV hash, and the collections of facts.
    \<^item> \<open>Api_Types\<close>: the structs, the phases and their predicates.
    \<^item> \<open>Cluster_Client\<close>: the client, the calls, and the two program logics that carry the proofs,
      \<open>emits\<close> (the calls of a body form a sequence in a set closed under concatenation, the locale
      \<open>call_sequences\<close>) and \<open>returns\<close> (its value satisfies a predicate); a static client at which
      the properties with hypotheses are evaluated.
    \<^item> \<open>Helpers\<close>: errors.go and the object helpers of helpers.go. The locale \<open>client_object\<close> states
      what a kind of object must give for the helpers to work on it.
    \<^item> \<open>Test_Controller\<close>: test_controller.go. The locales \<open>pod_walk\<close>, \<open>test_walk\<close> and
      \<open>test_call_property\<close> walk over the handler once for every property of its calls; they are
      interpreted for the phases it writes, the pods it creates, the metadata it patches and the
      balance of its counters.
    \<^item> \<open>Compaction\<close>: the loop, repeated in two controllers, that drops deleted objects from a slice.
    \<^item> \<open>TestRun_Controller\<close>: testrun_controller.go, with the slice accesses that can panic.
    \<^item> \<open>Helm_Release\<close>: release secrets and their label.
    \<^item> \<open>TestSuite_Controller\<close>: testsuite_controller.go, as a sequence of stages each of which may end
      the handler.
    \<^item> \<open>Helm_Watcher\<close>: helmrelease_watcher.go, with the goroutine and its channel as a step relation.
    \<^item> \<open>Logging\<close>, \<open>Mock_Program\<close>: logging.go and cmd/mock/main.go.
    \<^item> \<open>Command_Line\<close>, \<open>Manager\<close>: main.go. The flags, their parsing and the options; the set-up steps in
      order with their exit codes, the \<open>SetupWithManager\<close> methods with the indices, the builders and
      the registered kinds. What the manager of controller-runtime does is a parameter.
    \<^item> \<open>Metrics\<close>: the metric vectors and the values that a sequence of calls gives them.
    \<^item> \<open>Api_Schema\<close>: the validation markers of the types, as predicates.
    \<^item> \<open>Rbac\<close>: the RBAC markers, and the permission each call of a handler needs.
    \<^item> \<open>Go_Heap\<close>, \<open>Deep_Copy\<close>: a heap with slices, maps and pointers, and zz_generated.deepcopy.go on
      it. The locale \<open>deep_copier\<close> states what a copier of a type promises (the copy shares no cell with
      its original and has the same value) and each generated function is shown to satisfy it from
      the copiers it calls; the copiers of the Kubernetes types are parameters.
    \<^item> \<open>Api_Server\<close>: the documented behaviour of the API server in one namespace, as a hypothesis
      (\<open>apiServer\<close>), and the logic of runs against it; \<open>Stored_Cluster\<close> a server with this behaviour.
    \<^item> \<open>Suite_Writer\<close>: what the suite reconciler relies on beyond one call, that its patches are merge
      patches and that nobody else writes the suite meanwhile (\<open>soleWriter\<close>, the locale \<open>sole_writer\<close>,
      interpreted on \<open>Stored_Cluster\<close>). The logic \<open>leads\<close> follows the cluster as well as the calls; with it
      the handler is walked over once for its phase changes and for what it returns.
    \<^item> \<open>Lifecycle\<close>: the three reconcilers, the server and the kubelet as one transition system.

  \<^bold>\<open>What is shown.\<close> For each reconciler: which phases it may write and from which, what it may
  create, patch and delete, that a recorded verdict is never changed, what it does with the objects
  it controls when its own is deleted or final, and the errors it returns. For the verdicts: that of
  a Test is the phase of its pod, a TestRun is Passed exactly when all its tests are, with a result
  for each template in order, and the gauges of a suite follow its last run. For the loops: the
  compaction ends and keeps exactly the live objects, the choice of a pod keeps one, the history
  limit removes the oldest runs, the exchange over the channel ends without deadlock and enqueues
  what the sequential handler does.
  For the whole: a suite that needs a run gets one and is Ready again when the pods of its tests have
  ended, with their verdicts in the run and in the metrics. What the reconcilers create and patch is
  valid by the schema and granted by the permissions, what they create is found by their own lists,
  and a deep copy shares nothing with its original. Some theorems describe behaviour the sources do
  not intend: a run with a missing Test panics, one of more than ten tests never completes, a Helm
  release triggers its suite again and again, and no name of a release subscribes a suite to it, since
  the watcher looks for another label than the suite is given.

  \<^bold>\<open>Bounds.\<close> No fuel is used. The loops over slices are structural, or are given by indices with a
  measure (\<open>mapTests\<close>, \<open>compactOuter\<close> with \<open>compactInner\<close>); the exchange is a well-founded relation.
  The history limit is an 8-bit word, the levels of the logger are 8-bit words, the hash is a 32-bit
  word, versions are in the range of 64-bit integers and durations saturate there. Strings are lists
  of bytes.

  \<^bold>\<open>What is not modelled.\<close> The libraries the sources call: the client and the manager of
  controller-runtime, the registries of Prometheus and of the scheme, zap, cron and the copiers of
  the Kubernetes types are parameters. Log messages other than the levels they are printed at are
  left out, and so are the fields of Kubernetes structs that no source reads. Concurrent
  reconciliations are arbitrary changes of the cluster between two calls, except in \<open>Lifecycle\<close>, where
  the reconcilers take turns.

  \<^bold>\<open>Plan.\<close> The deletion of a suite in the transition system of \<open>Lifecycle\<close>, with the finalizers of
  the three controllers, and the subscription of a suite to a release, from the watcher to the run.
\<close>

section \<open>The reconcilers keep apart\<close>

definition writesStatusOf :: "(Object \<Rightarrow> bool) \<Rightarrow> Call \<Rightarrow> bool" where
  "writesStatusOf kind call = (case call of StatusPatchCall new orig e \<Rightarrow> kind new \<and> kind orig | _ \<Rightarrow> True)"

definition isTest :: "Object \<Rightarrow> bool" where
  "isTest obj = (case obj of TestObj _ \<Rightarrow> True | _ \<Rightarrow> False)"

definition isTestRun :: "Object \<Rightarrow> bool" where
  "isTestRun obj = (case obj of TestRunObj _ \<Rightarrow> True | _ \<Rightarrow> False)"

definition isTestSuite :: "Object \<Rightarrow> bool" where
  "isTestSuite obj = (case obj of TestSuiteObj _ \<Rightarrow> True | _ \<Rightarrow> False)"

lemma writesStatusOf_mono:
  assumes "list_all P cs" and "\<And>new orig e. P (StatusPatchCall new orig e) \<Longrightarrow> kind new \<and> kind orig"
  shows "list_all (writesStatusOf kind) cs"
  using assms(1)
  by (rule list.pred_mono_strong) (auto simp: writesStatusOf_def assms(2) split: Call.split)

text \<open>
  Each reconciler writes the status of objects of its own kind only, and the three finalizers with
  which they hold objects back are different.
\<close>

theorem reconcilers_separate:
  "list_all (writesStatusOf isTest) (callsOf (TestReconciler_Reconcile rt req) w) \<and>
   list_all (writesStatusOf isTestRun) (callsOf (TestRunReconciler_Reconcile rr req) w) \<and>
   list_all (writesStatusOf isTestSuite) (callsOf (TestSuiteReconciler_Reconcile rs req) w) \<and>
   distinct [TestControllerFinalizer, TestRunControllerFinalizer, TestSuiteControllerFinalizer]"
proof (intro conjI)
  show "list_all (writesStatusOf isTest) (callsOf (TestReconciler_Reconcile rt req) w)"
    by (rule writesStatusOf_mono [OF emits_callsOf [OF test_status_write.Reconcile_calls]])
       (auto simp: testStatusWrite_def isTest_def split: Object.splits)
  show "list_all (writesStatusOf isTestRun) (callsOf (TestRunReconciler_Reconcile rr req) w)"
    by (rule writesStatusOf_mono [OF emits_callsOf [OF run_status_write.Reconcile_calls]])
       (auto simp: runStatusCall_def isTestRun_def split: Object.splits)
  show "list_all (writesStatusOf isTestSuite) (callsOf (TestSuiteReconciler_Reconcile rs req) w)"
    by (rule writesStatusOf_mono [OF emits_callsOf [OF suite_object_write.Reconcile_calls]])
       (auto simp: suiteObjectWrite_def isTestSuite_def split: Object.splits)
  show "distinct [TestControllerFinalizer, TestRunControllerFinalizer, TestSuiteControllerFinalizer]"
    by (simp add: TestControllerFinalizer_def TestRunControllerFinalizer_def
        TestSuiteControllerFinalizer_def)
qed

section \<open>A suite and the watcher\<close>

definition listsRelease :: "HelmReleaseMeta \<Rightarrow> Call \<Rightarrow> bool" where
  "listsRelease h call =
     (case call of
        ListCall kind opts \<Rightarrow> opts =
          [InNamespace (hrNamespace h),
           MatchingLabels [(''owner'', ''Helm''), (''name'', hrName h), (''status'', ''deployed'')]]
      | _ \<Rightarrow> False)"

lemma listsRelease_simps [simp]:
  "listsRelease h (ListCall kind opts) \<longleftrightarrow> opts =
     [InNamespace (hrNamespace h),
      MatchingLabels [(''owner'', ''Helm''), (''name'', hrName h), (''status'', ''deployed'')]]"
  "\<not> listsRelease h (GetCall kind n)"
  by (simp_all add: listsRelease_def)

text \<open>A release is looked up where its name says, or in the namespace of the suite.\<close>

lemma listed_release:
  assumes "list_ex (listsRelease h) (callsOf (currentHelmRelease r suite) w)"
  shows "Separator r \<in> set (whenHelmRelease (tssWhen (suite_Spec suite))) \<or>
    whenHelmRelease (tssWhen (suite_Spec suite)) = hrName h \<and> Namespace (Meta suite) = hrNamespace h"
proof (rule disjCI)
  let ?n = "whenHelmRelease (tssWhen (suite_Spec suite))"
  assume "\<not> (?n = hrName h \<and> Namespace (Meta suite) = hrNamespace h)"
  show "Separator r \<in> set ?n"
  proof (rule ccontr)
    assume "Separator r \<notin> set ?n"
    then have "indexByte ?n (Separator r) = None" by (simp add: indexByte_None_iff)
    with assms show False
      using \<open>\<not> (?n = hrName h \<and> Namespace (Meta suite) = hrNamespace h)\<close>
      by (auto simp: currentHelmRelease_def observableRelease_def callsOf_def andThen_def go_defs Let_def
          split: if_splits prod.splits)
  qed
qed

text \<open>
  C36. No value of \<open>when.helmRelease\<close> subscribes a suite to a release. When the suite reconciler looks up
  a release for a suite, the label it gives the suite is not the one the watcher lists for that
  release, unless the release is named like its namespace: the suites that the watcher enqueues for
  a new release are not triggered by it, and those that it would trigger are not enqueued.
\<close>

theorem helm_subscription:
  assumes "Separator r = CHR ''/''" and "hrNamespace h \<noteq> ''''"
    and "CHR ''.'' \<notin> set (hrNamespace h)" and "CHR ''/'' \<notin> set (hrNamespace h)"
    and "CHR ''/'' \<notin> set (hrName h)" and "hrName h \<noteq> hrNamespace h"
  shows "\<not> (list_ex (listsRelease h) (callsOf (currentHelmRelease r suite) w) \<and>
    helmLabel suite = HelmReleaseMeta_LabelValue (Some h))"
proof (rule notI, elim conjE)
  let ?n = "whenHelmRelease (tssWhen (suite_Spec suite))"
  assume "list_ex (listsRelease h) (callsOf (currentHelmRelease r suite) w)"
    and same: "helmLabel suite = HelmReleaseMeta_LabelValue (Some h)"
  note ref = listed_release [OF this(1)]
  have label: "HelmReleaseMeta_LabelValue (Some h) = hrName h @ ''.'' @ hrNamespace h"
    using assms(2) by (simp add: HelmReleaseMeta_LabelValue_def)
  then have "CHR ''/'' \<notin> set (helmLabel suite)" using assms(4,5) same by simp
  then have "CHR ''/'' \<notin> set ?n" by (auto simp: helmLabel_def Let_def split: if_splits)
  with ref assms(1) have n: "?n = hrName h" "Namespace (Meta suite) = hrNamespace h" by simp_all
  show False
  proof (cases "CHR ''.'' \<in> set (hrName h)")
    case True
    then have "helmLabel suite = hrName h" using n by (simp add: helmLabel_def indexByte_None_iff)
    with same label show False by simp
  next
    case False
    then have "helmLabel suite = hrNamespace h @ ''.'' @ hrName h"
      using n by (simp add: helmLabel_def indexByte_None_iff)
    with same label show False
      using append_dot_inject [of "hrName h" "hrNamespace h" "hrNamespace h" "hrName h"] assms(3,6) False by simp
  qed
qed

theorem helm_subscription_witness:
  "let suite = sampleSuite TestSuiteReady '''' ''app''; h = emptyRelease\<lparr>hrNamespace := ''ns'', hrName := ''app''\<rparr>
   in list_ex (listsRelease h) (callsOf (currentHelmRelease sampleSuiteReconciler suite) ()) \<and>
      helmLabel suite \<noteq> HelmReleaseMeta_LabelValue (Some h)"
proof -
  let ?suite = "sampleSuite TestSuiteReady '''' ''app''"
  let ?h = "emptyRelease\<lparr>hrNamespace := ''ns'', hrName := ''app''\<rparr>"
  have "Separator sampleSuiteReconciler = CHR ''/''" by (simp add: sampleSuiteReconciler_def)
  moreover from this have "list_ex (listsRelease ?h) (callsOf (currentHelmRelease sampleSuiteReconciler ?suite) ())"
    by (simp add: currentHelmRelease_def observableRelease_def callsOf_def andThen_def go_defs Let_def
        sampleSuiteReconciler_def)
  ultimately show ?thesis
    using helm_subscription [of sampleSuiteReconciler ?h ?suite "()"] by (simp add: Let_def)
qed

end
